(* ===== verification/Chassis_Prelude.thy ===== *)
theory Chassis_Prelude
  imports Main "HOL-Library.Word"
begin

text \<open>
  Shared vocabulary of the development: the machine integers of the Rust code, the outcome of a
  computation that may panic, the arithmetic and the slice operations of Rust with the conditions
  under which they panic, and the big- and little-endian byte encodings of the standard library.

  A Rust \<open>Result<T, E>\<close> is the sum \<open>'e + 'a\<close> (\<open>Inl\<close> the error), an \<open>Option<T>\<close> is
  \<open>'a option\<close>, a slice or an array of bytes is a list. A \<open>usize\<close> is a \<open>nat\<close>; where the code adds
  two \<open>usize\<close> values that are not bounded by slice lengths, the width of the target decides.
\<close>

unbundle bit_operations_syntax

type_synonym u8 = "8 word"
type_synonym u16 = "16 word"
type_synonym u32 = "32 word"
type_synonym u64 = "64 word"
type_synonym i16 = "16 word"
type_synonym i32 = "32 word"

named_theorems outcome_simps "unfolding of the panic monad and of checked operations"
named_theorems wire_simps "byte encodings"


section \<open>Computations that may panic\<close>

text \<open>
  \<open>Panic\<close> is the abnormal end of a Rust computation (index out of bounds, length mismatch in
  \<open>copy_from_slice\<close>, arithmetic overflow in a build with overflow checks, division by zero);
  \<open>Ret x\<close> is a normal return.
\<close>

datatype 'a outcome = Panic | Ret 'a

fun outcome_bind :: "'a outcome \<Rightarrow> ('a \<Rightarrow> 'b outcome) \<Rightarrow> 'b outcome" where
  "outcome_bind Panic f = Panic"
| "outcome_bind (Ret x) f = f x"

fun panics :: "'a outcome \<Rightarrow> bool" where
  "panics Panic = True"
| "panics (Ret x) = False"

lemma outcome_bind_cong [fundef_cong]:
  "m = m' \<Longrightarrow> (\<And>x. m' = Ret x \<Longrightarrow> f x = g x) \<Longrightarrow> outcome_bind m f = outcome_bind m' g"
  by (cases m') simp_all

lemma outcome_bind_eq_Ret:
  "outcome_bind m f = Ret y \<longleftrightarrow> (\<exists>x. m = Ret x \<and> f x = Ret y)"
  by (cases m) auto

lemma outcome_bind_eq_Panic:
  "outcome_bind m f = Panic \<longleftrightarrow> m = Panic \<or> (\<exists>x. m = Ret x \<and> f x = Panic)"
  by (cases m) auto

lemma outcome_bind_assoc:
  "outcome_bind (outcome_bind m f) g = outcome_bind m (\<lambda>x. outcome_bind (f x) g)"
  by (cases m) auto

lemma outcome_bind_Ret [simp]: "outcome_bind m Ret = m"
  by (cases m) simp_all

lemma outcome_bind_if:
  "outcome_bind (if b then m else n) f = (if b then outcome_bind m f else outcome_bind n f)"
  by simp

lemma not_panics_iff: "\<not> panics m \<longleftrightarrow> (\<exists>x. m = Ret x)"
  by (cases m) auto

lemma panics_iff: "panics m \<longleftrightarrow> m = Panic"
  by (cases m) auto

lemmas outcome_inversions = outcome_bind_eq_Ret outcome_bind_eq_Panic

text \<open>
  The flat order with \<open>Panic\<close> at the bottom: \<open>m \<le> n\<close> says that \<open>n\<close> returns what \<open>m\<close> returns
  wherever \<open>m\<close> returns. It compares a build with overflow checks to a build without.
\<close>

instantiation outcome :: (type) order
begin

definition less_eq_outcome :: "'a outcome \<Rightarrow> 'a outcome \<Rightarrow> bool" where
  "less_eq_outcome m n \<longleftrightarrow> m = Panic \<or> m = n"

definition less_outcome :: "'a outcome \<Rightarrow> 'a outcome \<Rightarrow> bool" where
  "less_outcome m n \<longleftrightarrow> m = Panic \<and> n \<noteq> Panic"

instance
  by standard (auto simp: less_eq_outcome_def less_outcome_def)

end

lemma Panic_le [simp]: "Panic \<le> m"
  by (simp add: less_eq_outcome_def)

lemma Ret_le_iff [simp]: "Ret x \<le> m \<longleftrightarrow> m = Ret x"
  by (auto simp: less_eq_outcome_def)

lemma outcome_bind_mono:
  "m \<le> m' \<Longrightarrow> (\<And>x. f x \<le> g x) \<Longrightarrow> outcome_bind m f \<le> outcome_bind m' g"
  by (cases m; cases m') (auto simp: less_eq_outcome_def)


section \<open>The compilation target and checked arithmetic\<close>

text \<open>
  What the meaning of the arithmetic depends on: the width of \<open>usize\<close> (32 on the bare-metal
  targets of the repository, 64 on a host) and whether the build panics on overflow (a debug
  build) or wraps (a release build).
\<close>

record target =
  usize_bits :: nat
  overflow_checks :: bool

definition host_debug :: target where
  "host_debug = \<lparr>usize_bits = 64, overflow_checks = True\<rparr>"

definition mcu_debug :: target where
  "mcu_debug = \<lparr>usize_bits = 32, overflow_checks = True\<rparr>"

definition mcu_release :: target where
  "mcu_release = \<lparr>usize_bits = 32, overflow_checks = False\<rparr>"

definition release_of :: "target \<Rightarrow> target" where
  "release_of t = t\<lparr>overflow_checks := False\<rparr>"

text \<open>An operation whose exact result fits, or which wraps to \<open>v\<close> when the checks are off.\<close>

definition arith :: "target \<Rightarrow> bool \<Rightarrow> 'a \<Rightarrow> 'a outcome" where
  "arith t fits v = (if fits \<or> \<not> overflow_checks t then Ret v else Panic)"

lemma arith_fits [simp]: "fits \<Longrightarrow> arith t fits v = Ret v"
  by (simp add: arith_def)

lemma arith_release: "arith t fits v \<le> arith (release_of t) fits v"
  by (simp add: arith_def release_of_def)

definition usize_add :: "target \<Rightarrow> nat \<Rightarrow> nat \<Rightarrow> nat outcome" where
  "usize_add t a b = arith t (a + b < 2 ^ usize_bits t) ((a + b) mod 2 ^ usize_bits t)"

definition u8_sub :: "target \<Rightarrow> u8 \<Rightarrow> u8 \<Rightarrow> u8 outcome" where
  "u8_sub t a b = arith t (b \<le> a) (a - b)"

definition u8_add :: "target \<Rightarrow> u8 \<Rightarrow> u8 \<Rightarrow> u8 outcome" where
  "u8_add t a b = arith t (unat a + unat b < 256) (a + b)"

definition u8_mul :: "target \<Rightarrow> u8 \<Rightarrow> u8 \<Rightarrow> u8 outcome" where
  "u8_mul t a b = arith t (unat a * unat b < 256) (a * b)"

definition u16_add :: "target \<Rightarrow> u16 \<Rightarrow> u16 \<Rightarrow> u16 outcome" where
  "u16_add t a b = arith t (unat a + unat b < 2 ^ 16) (a + b)"

definition u32_mul :: "target \<Rightarrow> u32 \<Rightarrow> u32 \<Rightarrow> u32 outcome" where
  "u32_mul t a b = arith t (unat a * unat b < 2 ^ 32) (a * b)"

definition u32_sub :: "target \<Rightarrow> u32 \<Rightarrow> u32 \<Rightarrow> u32 outcome" where
  "u32_sub t a b = arith t (b \<le> a) (a - b)"

text \<open>A shift by the width or more panics, or uses the low bits of the amount.\<close>

definition word_shl :: "target \<Rightarrow> 'a::len word \<Rightarrow> nat \<Rightarrow> 'a word outcome" where
  "word_shl t w n = arith t (n < LENGTH('a)) (push_bit (n mod LENGTH('a)) w)"

definition word_shr :: "target \<Rightarrow> 'a::len word \<Rightarrow> nat \<Rightarrow> 'a word outcome" where
  "word_shr t w n = arith t (n < LENGTH('a)) (drop_bit (n mod LENGTH('a)) w)"

lemma usize_add_fits [simp]: "a + b < 2 ^ usize_bits t \<Longrightarrow> usize_add t a b = Ret (a + b)"
  by (simp add: usize_add_def)

lemma u8_sub_fits [simp]: "b \<le> a \<Longrightarrow> u8_sub t a b = Ret (a - b)"
  by (simp add: u8_sub_def)

lemma word_shl_fits [simp]:
  "n < LENGTH('a) \<Longrightarrow> word_shl t (w :: 'a::len word) n = Ret (push_bit n w)"
  by (simp add: word_shl_def)

lemma word_shr_fits [simp]:
  "n < LENGTH('a) \<Longrightarrow> word_shr t (w :: 'a::len word) n = Ret (drop_bit n w)"
  by (simp add: word_shr_def)

lemma usize_add_release: "usize_add t a b \<le> usize_add (release_of t) a b"
  by (simp add: usize_add_def arith_def release_of_def)


text \<open>A length that fits survives the cast \<open>as u8\<close>, \<open>as u16\<close> or \<open>as u32\<close>.\<close>

lemma unat_of_nat_fits [simp]:
  "n < 256 \<Longrightarrow> unat (of_nat n :: u8) = n"
  "n < 65536 \<Longrightarrow> unat (of_nat n :: u16) = n"
  "n < 4294967296 \<Longrightarrow> unat (of_nat n :: u32) = n"
  by (simp_all add: unat_of_nat)


text \<open>A value below \<open>2 ^ k\<close> has no bit from \<open>k\<close> on; the low bit of a masked word.\<close>

lemma word_small_bits:
  assumes "unat (w :: 'a::len word) < 2 ^ k" "k \<le> n"
  shows "\<not> bit w n"
proof
  assume "bit w n"
  then have "bit (unat w) n" by (simp add: bit_unsigned_iff)
  moreover have "take_bit k (unat w) = unat w" using assms by (simp add: take_bit_nat_eq_self)
  ultimately show False using assms(2) by (metis bit_take_bit_iff not_le)
qed

lemma bit_and_one_iff: "bit (w AND 1) n \<longleftrightarrow> n = 0 \<and> bit w 0" for w :: "'a::len word"
  by (auto simp: bit_simps bit_1_iff)

lemma less_eight_cases:
  "n < 8 \<longleftrightarrow> n = 0 \<or> n = 1 \<or> n = 2 \<or> n = 3 \<or> n = 4 \<or> n = 5 \<or> n = 6 \<or> n = (7 :: nat)"
  by arith


section \<open>Slices\<close>

text \<open>\<open>xs[i]\<close>, \<open>xs[i] = v\<close>, \<open>&xs[i..j]\<close>, \<open>&xs[i..]\<close>, \<open>&xs[..j]\<close> and
  \<open>xs[i..j].copy_from_slice(src)\<close>.\<close>

definition index_at :: "'a list \<Rightarrow> nat \<Rightarrow> 'a outcome" where
  "index_at xs i = (if i < length xs then Ret (xs ! i) else Panic)"

definition store_at :: "'a list \<Rightarrow> nat \<Rightarrow> 'a \<Rightarrow> 'a list outcome" where
  "store_at xs i v = (if i < length xs then Ret (xs[i := v]) else Panic)"

definition subslice :: "'a list \<Rightarrow> nat \<Rightarrow> nat \<Rightarrow> 'a list outcome" where
  "subslice xs i j = (if i \<le> j \<and> j \<le> length xs then Ret (take (j - i) (drop i xs)) else Panic)"

definition slice_from :: "'a list \<Rightarrow> nat \<Rightarrow> 'a list outcome" where
  "slice_from xs i = subslice xs i (length xs)"

definition slice_to :: "'a list \<Rightarrow> nat \<Rightarrow> 'a list outcome" where
  "slice_to xs j = subslice xs 0 j"

definition copy_into :: "'a list \<Rightarrow> nat \<Rightarrow> nat \<Rightarrow> 'a list \<Rightarrow> 'a list outcome" where
  "copy_into dst i j src =
     (if i \<le> j \<and> j \<le> length dst \<and> length src = j - i
      then Ret (take i dst @ src @ drop j dst) else Panic)"

text \<open>\<open>xs.get(i)\<close> and \<open>xs.first()\<close>.\<close>

definition get_opt :: "'a list \<Rightarrow> nat \<Rightarrow> 'a option" where
  "get_opt xs i = (if i < length xs then Some (xs ! i) else None)"

lemma subslice_ok [simp]:
  "i \<le> j \<Longrightarrow> j \<le> length xs \<Longrightarrow> subslice xs i j = Ret (take (j - i) (drop i xs))"
  by (simp add: subslice_def)

lemma slice_from_ok [simp]: "i \<le> length xs \<Longrightarrow> slice_from xs i = Ret (drop i xs)"
  by (simp add: slice_from_def)

lemma slice_from_panic [simp]: "length xs < i \<Longrightarrow> slice_from xs i = Panic"
  by (simp add: slice_from_def subslice_def)

lemma slice_to_ok [simp]: "j \<le> length xs \<Longrightarrow> slice_to xs j = Ret (take j xs)"
  by (simp add: slice_to_def)

lemma slice_to_panic [simp]: "length xs < j \<Longrightarrow> slice_to xs j = Panic"
  by (simp add: slice_to_def subslice_def)

lemma index_at_ok [simp]: "i < length xs \<Longrightarrow> index_at xs i = Ret (xs ! i)"
  by (simp add: index_at_def)

lemma store_at_ok [simp]: "i < length xs \<Longrightarrow> store_at xs i v = Ret (xs[i := v])"
  by (simp add: store_at_def)

lemma store_at_panic [simp]: "length xs \<le> i \<Longrightarrow> store_at xs i v = Panic"
  by (simp add: store_at_def)

lemma copy_into_ok [simp]:
  "i \<le> j \<Longrightarrow> j \<le> length dst \<Longrightarrow> length src = j - i
   \<Longrightarrow> copy_into dst i j src = Ret (take i dst @ src @ drop j dst)"
  by (simp add: copy_into_def)

lemma copy_into_length: "copy_into dst i j src = Ret out \<Longrightarrow> length out = length dst"
  by (auto simp: copy_into_def split: if_splits)

lemma get_opt_eq_Some: "get_opt xs i = Some x \<longleftrightarrow> i < length xs \<and> x = xs ! i"
  by (auto simp: get_opt_def)

lemma get_opt_eq_None: "get_opt xs i = None \<longleftrightarrow> length xs \<le> i"
  by (auto simp: get_opt_def)


text \<open>When an access returns and when it panics: with the two inversions of the bind these decide
  whether a sequence of slice operations can panic.\<close>

lemma slice_eq_Ret [outcome_simps]:
  "index_at xs i = Ret x \<longleftrightarrow> i < length xs \<and> x = xs ! i"
  "store_at xs i v = Ret ys \<longleftrightarrow> i < length xs \<and> ys = xs[i := v]"
  "subslice xs i j = Ret ys \<longleftrightarrow> i \<le> j \<and> j \<le> length xs \<and> ys = take (j - i) (drop i xs)"
  "slice_from xs i = Ret ys \<longleftrightarrow> i \<le> length xs \<and> ys = drop i xs"
  "slice_to xs j = Ret ys \<longleftrightarrow> j \<le> length xs \<and> ys = take j xs"
  "copy_into xs i j src = Ret ys \<longleftrightarrow>
     i \<le> j \<and> j \<le> length xs \<and> length src = j - i \<and> ys = take i xs @ src @ drop j xs"
  by (auto simp: index_at_def store_at_def subslice_def slice_from_def slice_to_def copy_into_def)

lemma slice_eq_Panic [outcome_simps]:
  "index_at xs i = Panic \<longleftrightarrow> length xs \<le> i"
  "store_at xs i v = Panic \<longleftrightarrow> length xs \<le> i"
  "subslice xs i j = Panic \<longleftrightarrow> j < i \<or> length xs < j"
  "slice_from xs i = Panic \<longleftrightarrow> length xs < i"
  "slice_to xs j = Panic \<longleftrightarrow> length xs < j"
  "copy_into xs i j src = Panic \<longleftrightarrow> j < i \<or> length xs < j \<or> length src \<noteq> j - i"
  by (auto simp: index_at_def store_at_def subslice_def slice_from_def slice_to_def copy_into_def)

declare outcome_bind_eq_Ret [outcome_simps] outcome_bind_eq_Panic [outcome_simps]


section \<open>Results that must be there\<close>

lemma map_sum_eq_Inr: "map_sum f g a = Inr y \<longleftrightarrow> (\<exists>x. a = Inr x \<and> y = g x)"
  by (cases a) auto

text \<open>\<open>expect\<close>, \<open>unwrap\<close> and \<open>assert!\<close>.\<close>

fun expect_ok :: "'e + 'a \<Rightarrow> 'a outcome" where
  "expect_ok (Inl e) = Panic"
| "expect_ok (Inr x) = Ret x"

fun expect_some :: "'a option \<Rightarrow> 'a outcome" where
  "expect_some None = Panic"
| "expect_some (Some x) = Ret x"

definition assert_that :: "bool \<Rightarrow> unit outcome" where
  "assert_that b = (if b then Ret () else Panic)"

lemma assert_that_True [simp]: "b \<Longrightarrow> assert_that b = Ret ()"
  by (simp add: assert_that_def)

text \<open>\<open>unwrap\<close> on the result of a call, and a sequence of steps that must all return.\<close>

definition unwrap :: "'a option outcome \<Rightarrow> ('a \<Rightarrow> 'b outcome) \<Rightarrow> 'b outcome" where
  "unwrap m k = outcome_bind m (\<lambda>r. outcome_bind (expect_some r) k)"

fun all_of :: "unit outcome list \<Rightarrow> unit outcome" where
  "all_of [] = Ret ()"
| "all_of (m # ms) = outcome_bind m (\<lambda>_. all_of ms)"

lemma all_of_iff: "all_of ms = Ret () \<longleftrightarrow> (\<forall>m \<in> set ms. m = Ret ())"
  by (induction ms) (auto simp: outcome_bind_eq_Ret)


section \<open>Byte orders\<close>

text \<open>\<open>to_be_bytes\<close>, \<open>to_le_bytes\<close> and their inverses, most significant byte first in the
  big-endian case.\<close>

definition be_bytes16 :: "u16 \<Rightarrow> u8 list" where
  "be_bytes16 w = [ucast (drop_bit 8 w), ucast w]"

definition be_bytes32 :: "u32 \<Rightarrow> u8 list" where
  "be_bytes32 w =
     [ucast (drop_bit 24 w), ucast (drop_bit 16 w), ucast (drop_bit 8 w), ucast w]"

definition le_bytes16 :: "u16 \<Rightarrow> u8 list" where
  "le_bytes16 w = rev (be_bytes16 w)"

definition le_bytes32 :: "u32 \<Rightarrow> u8 list" where
  "le_bytes32 w = rev (be_bytes32 w)"

definition from_be16 :: "u8 \<Rightarrow> u8 \<Rightarrow> u16" where
  "from_be16 a b = push_bit 8 (ucast a) OR ucast b"

definition from_be32 :: "u8 \<Rightarrow> u8 \<Rightarrow> u8 \<Rightarrow> u8 \<Rightarrow> u32" where
  "from_be32 a b c d =
     push_bit 24 (ucast a) OR push_bit 16 (ucast b) OR push_bit 8 (ucast c) OR ucast d"

lemma length_be_bytes [simp]:
  "length (be_bytes16 v) = 2" "length (be_bytes32 w) = 4"
  "length (le_bytes16 v) = 2" "length (le_bytes32 w) = 4"
  by (simp_all add: be_bytes16_def be_bytes32_def le_bytes16_def le_bytes32_def)

lemma from_be16_of_bytes [wire_simps]:
  "from_be16 (ucast (drop_bit 8 w)) (ucast w) = w"
  by (rule bit_word_eqI) (auto simp: from_be16_def bit_simps)

lemma from_be32_of_bytes [wire_simps]:
  "from_be32 (ucast (drop_bit 24 w)) (ucast (drop_bit 16 w)) (ucast (drop_bit 8 w)) (ucast w) = w"
proof (rule bit_word_eqI)
  fix n :: nat
  assume "n < LENGTH(32)"
  then consider "n < 8" | "8 \<le> n" "n < 16" | "16 \<le> n" "n < 24" | "24 \<le> n" "n < 32"
    by fastforce
  then show "bit (from_be32 (ucast (drop_bit 24 w)) (ucast (drop_bit 16 w))
      (ucast (drop_bit 8 w)) (ucast w)) n = bit w n"
    by cases (simp_all add: from_be32_def bit_simps less_diff_conv2)
qed

lemma be_bytes16_from_be16 [wire_simps]: "be_bytes16 (from_be16 a b) = [a, b]"
proof -
  have "ucast (drop_bit 8 (from_be16 a b)) = a"
    by (rule bit_word_eqI) (auto simp: from_be16_def bit_simps dest: bit_imp_le_length)
  moreover have "ucast (from_be16 a b) = b"
    by (rule bit_word_eqI) (auto simp: from_be16_def bit_simps)
  ultimately show ?thesis by (simp add: be_bytes16_def)
qed

lemma be_bytes32_from_be32 [wire_simps]: "be_bytes32 (from_be32 a b c d) = [a, b, c, d]"
proof -
  have "ucast (drop_bit 24 (from_be32 a b c d)) = a" "ucast (drop_bit 16 (from_be32 a b c d)) = b"
    "ucast (drop_bit 8 (from_be32 a b c d)) = c" "ucast (from_be32 a b c d) = d"
    by (rule bit_word_eqI; auto simp: from_be32_def bit_simps dest: bit_imp_le_length)+
  then show ?thesis by (simp add: be_bytes32_def)
qed

lemma be_bytes16_inject [simp]: "be_bytes16 v = be_bytes16 w \<longleftrightarrow> v = w"
proof
  assume eq: "be_bytes16 v = be_bytes16 w"
  have "v = from_be16 (be_bytes16 v ! 0) (be_bytes16 v ! 1)"
    by (simp add: be_bytes16_def from_be16_of_bytes)
  also have "\<dots> = w"
    unfolding eq by (simp add: be_bytes16_def from_be16_of_bytes)
  finally show "v = w" .
qed simp

lemma be_bytes32_inject [simp]: "be_bytes32 v = be_bytes32 w \<longleftrightarrow> v = w"
proof
  assume eq: "be_bytes32 v = be_bytes32 w"
  have "v = from_be32 (be_bytes32 v ! 0) (be_bytes32 v ! 1) (be_bytes32 v ! 2) (be_bytes32 v ! 3)"
    by (simp add: be_bytes32_def from_be32_of_bytes)
  also have "\<dots> = w"
    unfolding eq by (simp add: be_bytes32_def from_be32_of_bytes)
  finally show "v = w" .
qed simp

lemma le_bytes_inject [simp]:
  "le_bytes16 v = le_bytes16 w \<longleftrightarrow> v = w" "le_bytes32 x = le_bytes32 y \<longleftrightarrow> x = y"
  by (simp_all add: le_bytes16_def le_bytes32_def)

end
