(* ===== verification/Vehicle_Bus.thy ===== *)
theory Vehicle_Bus
  imports Chassis_Prelude
begin

text \<open>
  The error types of \<open>core/src/lib.rs\<close> and \<open>core/src/bus.rs\<close>, the \<open>VehicleBus\<close> trait as a record of
  operations, and the two contracts of the bus layer as locales: \<open>transceiver_spec\<close>, what a
  low-level transceiver (simulator or driver) promises about its receive queue, and
  \<open>vehicle_bus_spec\<close>, what application code relies on when it sends and receives through the
  trait. Each protocol theory derives the second contract from the first.

  A call that mutates \<open>self\<close> takes the state and returns the result with the new state.
\<close>


section \<open>Errors\<close>

datatype error = Unsupported | ResourceExhausted | InvalidArgument

fun error_display :: "error \<Rightarrow> string" where
  "error_display Unsupported = ''operation not supported''"
| "error_display ResourceExhausted = ''resource exhausted''"
| "error_display InvalidArgument = ''invalid argument''"

datatype bus_error =
    BusCore error
  | TxQueueFull
  | RxQueueEmpty
  | InvalidFrame
  | BusOff

definition bus_error_from :: "error \<Rightarrow> bus_error" where
  "bus_error_from e = BusCore e"

fun bus_error_display :: "bus_error \<Rightarrow> string" where
  "bus_error_display (BusCore e) = ''bus: '' @ error_display e"
| "bus_error_display TxQueueFull = ''bus: transmit queue full''"
| "bus_error_display RxQueueEmpty = ''bus: receive queue empty''"
| "bus_error_display InvalidFrame = ''bus: invalid frame''"
| "bus_error_display BusOff = ''bus: bus-off fault state''"

text \<open>The \<open>map_err\<close> and \<open>ok_or\<close> combinators of \<open>Result\<close> and \<open>Option\<close>.\<close>

fun map_err :: "('e \<Rightarrow> 'd) \<Rightarrow> 'e + 'a \<Rightarrow> 'd + 'a" where
  "map_err f (Inl e) = Inl (f e)"
| "map_err f (Inr x) = Inr x"

fun ok_or :: "'a option \<Rightarrow> 'e \<Rightarrow> 'e + 'a" where
  "ok_or None e = Inl e"
| "ok_or (Some x) e = Inr x"

text \<open>\<open>invalid_frame_err\<close> of CAN; LIN and SOME/IP have copies of their own.\<close>

fun invalid_frame_err :: "error \<Rightarrow> bus_error" where
  "invalid_frame_err InvalidArgument = InvalidFrame"
| "invalid_frame_err e = BusCore e"

lemma error_display_inject: "error_display d = error_display e \<longleftrightarrow> d = e"
  by (cases d; cases e) simp_all

lemma error_display_fresh:
  "error_display e \<noteq> ''transmit queue full''" "error_display e \<noteq> ''receive queue empty''"
  "error_display e \<noteq> ''invalid frame''" "error_display e \<noteq> ''bus-off fault state''"
  by (cases e; simp)+

lemma bus_error_display_inject: "bus_error_display d = bus_error_display e \<longleftrightarrow> d = e"
  by (cases d; cases e)
    (simp_all add: error_display_inject error_display_fresh error_display_fresh [symmetric])


section \<open>The VehicleBus trait\<close>

record ('b, 'f) vehicle_bus =
  vb_transmit :: "'b \<Rightarrow> 'f \<Rightarrow> (bus_error + unit) \<times> 'b"
  vb_receive :: "'b \<Rightarrow> (bus_error + 'f) \<times> 'b"
  vb_can_receive :: "'b \<Rightarrow> bool"
  vb_can_transmit :: "'b \<Rightarrow> bool"

text \<open>The default method \<open>is_empty\<close> of the \<open>Frame\<close> trait, over the implementor's \<open>len\<close>.\<close>

definition frame_is_empty :: "nat \<Rightarrow> bool" where
  "frame_is_empty n \<longleftrightarrow> n = 0"


section \<open>What a transceiver promises\<close>

text \<open>
  \<open>pending s\<close> is the sequence of received frames not yet read at this node, oldest first.
  Receiving takes its head, or fails and changes nothing when it is empty; \<open>has_received\<close> and
  \<open>can_send\<close> predict the outcome of the next call; a failed transmission changes nothing.
\<close>

locale transceiver_spec =
  fixes send :: "'s \<Rightarrow> 'f \<Rightarrow> (bus_error + unit) \<times> 's"
    and recv :: "'s \<Rightarrow> (bus_error + 'f) \<times> 's"
    and has_received :: "'s \<Rightarrow> bool"
    and can_send :: "'s \<Rightarrow> bool"
    and pending :: "'s \<Rightarrow> 'f list"
    and invar :: "'s \<Rightarrow> bool"
  assumes recv_empty: "invar s \<Longrightarrow> pending s = [] \<Longrightarrow> recv s = (Inl RxQueueEmpty, s)"
    and recv_head: "invar s \<Longrightarrow> pending s = f # fs \<Longrightarrow>
          fst (recv s) = Inr f \<and> pending (snd (recv s)) = fs"
    and has_received: "invar s \<Longrightarrow> has_received s \<longleftrightarrow> pending s \<noteq> []"
    and send_ok: "invar s \<Longrightarrow> can_send s \<Longrightarrow> fst (send s f) = Inr ()"
    and send_refused: "invar s \<Longrightarrow> \<not> can_send s \<Longrightarrow> \<exists>e. send s f = (Inl e, s)"
    and send_invar: "invar s \<Longrightarrow> invar (snd (send s f))"
    and recv_invar: "invar s \<Longrightarrow> invar (snd (recv s))"


section \<open>What application code relies on\<close>

text \<open>
  The contract of \<open>VehicleBus\<close>: frames that fail validation never reach the transceiver,
  valid frames are accepted exactly when \<open>can_transmit\<close> says so, and reading is first in,
  first out.
\<close>

locale vehicle_bus_spec =
  fixes B :: "('b, 'f) vehicle_bus"
    and queued :: "'b \<Rightarrow> 'f list"
    and ready :: "'b \<Rightarrow> bool"
    and frame_ok :: "'f \<Rightarrow> bool"
  assumes transmit_invalid: "\<not> frame_ok f \<Longrightarrow> vb_transmit B b f = (Inl InvalidFrame, b)"
    and transmit_ok: "ready b \<Longrightarrow> frame_ok f \<Longrightarrow> vb_can_transmit B b \<Longrightarrow>
          fst (vb_transmit B b f) = Inr ()"
    and transmit_refused: "ready b \<Longrightarrow> \<not> vb_can_transmit B b \<Longrightarrow> \<exists>e. vb_transmit B b f = (Inl e, b)"
    and receive_empty: "ready b \<Longrightarrow> queued b = [] \<Longrightarrow> vb_receive B b = (Inl RxQueueEmpty, b)"
    and receive_head: "ready b \<Longrightarrow> queued b = f # fs \<Longrightarrow>
          fst (vb_receive B b) = Inr f \<and> queued (snd (vb_receive B b)) = fs"
    and can_receive: "ready b \<Longrightarrow> vb_can_receive B b \<longleftrightarrow> queued b \<noteq> []"
    and transmit_ready: "ready b \<Longrightarrow> ready (snd (vb_transmit B b f))"
    and receive_ready: "ready b \<Longrightarrow> ready (snd (vb_receive B b))"

text \<open>
  The application's read loop \<open>while let Ok(f) = bus.receive()\<close>, with fuel: it collects frames
  until the first error.
\<close>

fun drain :: "('b, 'f) vehicle_bus \<Rightarrow> nat \<Rightarrow> 'b \<Rightarrow> ('f list \<times> 'b) option" where
  "drain B 0 b = None"
| "drain B (Suc n) b =
     (case vb_receive B b of
        (Inl e, b') \<Rightarrow> Some ([], b')
      | (Inr f, b') \<Rightarrow> map_option (map_prod ((#) f) id) (drain B n b'))"

context vehicle_bus_spec
begin

lemma receive_iff_can_receive:
  assumes "ready b"
  shows "vb_can_receive B b \<longleftrightarrow> (\<exists>f b'. vb_receive B b = (Inr f, b'))"
proof (cases "queued b")
  case Nil
  with assms show ?thesis by (simp add: can_receive receive_empty)
next
  case (Cons f fs)
  with assms receive_head [OF assms Cons] show ?thesis
    by (cases "vb_receive B b") (simp add: can_receive)
qed

lemma transmit_success_iff:
  assumes "ready b"
  shows "fst (vb_transmit B b f) = Inr () \<longleftrightarrow> frame_ok f \<and> vb_can_transmit B b"
  using assms transmit_ok transmit_invalid [of f b] transmit_refused [of b f]
  by (cases "frame_ok f"; cases "vb_can_transmit B b") fastforce+

lemma transmit_failure_unchanged:
  assumes "ready b" "fst (vb_transmit B b f) = Inl e"
  shows "snd (vb_transmit B b f) = b"
  using assms transmit_ok [of b f] transmit_invalid [of f b] transmit_refused [of b f]
  by (cases "frame_ok f"; cases "vb_can_transmit B b") fastforce+

text \<open>The read loop returns exactly the queued frames in order, given fuel for them and for the
  final failing call, and leaves the queue empty.\<close>

lemma drain_all:
  "ready b \<Longrightarrow> length (queued b) < n \<Longrightarrow>
   \<exists>b'. drain B n b = Some (queued b, b') \<and> ready b' \<and> queued b' = []"
proof (induction n arbitrary: b)
  case 0
  then show ?case by simp
next
  case (Suc n)
  show ?case
  proof (cases "queued b")
    case Nil
    with Suc.prems show ?thesis by (simp add: receive_empty)
  next
    case (Cons f fs)
    obtain r b1 where rb: "vb_receive B b = (r, b1)" by force
    with receive_head [OF Suc.prems(1) Cons] receive_ready [OF Suc.prems(1)]
    have "r = Inr f" "queued b1 = fs" "ready b1" by simp_all
    moreover from this Suc.prems Cons obtain b' where
      "drain B n b1 = Some (fs, b')" "ready b'" "queued b' = []"
      using Suc.IH [of b1] by auto
    ultimately show ?thesis using rb Cons by auto
  qed
qed

end


section \<open>From the transceiver to the bus\<close>

text \<open>
  \<open>CanBus\<close>, \<open>CanFdBus\<close>, \<open>LinBus\<close> and \<open>SomeIpBus\<close> are one construction: a struct around a
  transceiver, reached by \<open>get\<close> and replaced by \<open>put\<close>, that validates a frame before it sends it
  and forwards everything else. Over a transceiver that keeps its contract it keeps the contract
  of \<open>VehicleBus\<close>.
\<close>

locale validating_bus = transceiver_spec send recv has_received can_send pending invar
  for send :: "'s \<Rightarrow> 'f \<Rightarrow> (bus_error + unit) \<times> 's"
    and recv :: "'s \<Rightarrow> (bus_error + 'f) \<times> 's"
    and has_received :: "'s \<Rightarrow> bool"
    and can_send :: "'s \<Rightarrow> bool"
    and pending :: "'s \<Rightarrow> 'f list"
    and invar :: "'s \<Rightarrow> bool" +
  fixes B :: "('b, 'f) vehicle_bus"
    and get :: "'b \<Rightarrow> 's"
    and put :: "'s \<Rightarrow> 'b \<Rightarrow> 'b"
    and validate :: "'f \<Rightarrow> bus_error + unit"
  assumes get_put: "get (put s b) = s"
    and put_get: "put (get b) b = b"
    and validate_error: "validate f \<noteq> Inr () \<Longrightarrow> validate f = Inl InvalidFrame"
    and transmit_eq: "vb_transmit B b f =
          (case validate f of
             Inl e \<Rightarrow> (Inl e, b)
           | Inr _ \<Rightarrow> let (r, s) = send (get b) f in (r, put s b))"
    and receive_eq: "vb_receive B b = (let (r, s) = recv (get b) in (r, put s b))"
    and can_receive_eq: "vb_can_receive B b = has_received (get b)"
    and can_transmit_eq: "vb_can_transmit B b = can_send (get b)"

sublocale validating_bus \<subseteq> vehicle_bus_spec B "\<lambda>b. pending (get b)" "\<lambda>b. invar (get b)"
  "\<lambda>f. validate f = Inr ()"
proof (unfold_locales, goal_cases)
  case (1 f b)
  then show ?case by (simp add: transmit_eq validate_error)
next
  case (2 b f)
  then show ?case using send_ok [of "get b" f]
    by (auto simp: transmit_eq can_transmit_eq split: prod.splits)
next
  case (3 b f)
  then obtain e where "send (get b) f = (Inl e, get b)"
    using send_refused [of "get b" f] by (auto simp: can_transmit_eq)
  then show ?case
    by (cases "validate f") (auto simp: transmit_eq put_get)
next
  case (4 b)
  then show ?case by (simp add: receive_eq recv_empty put_get)
next
  case (5 b f fs)
  then show ?case using recv_head [of "get b" f fs]
    by (auto simp: receive_eq get_put split: prod.splits)
next
  case (6 b)
  then show ?case by (simp add: can_receive_eq has_received)
next
  case (7 b f)
  then show ?case using send_invar [of "get b" f]
    by (cases "validate f") (auto simp: transmit_eq get_put split: prod.splits)
next
  case (8 b)
  then show ?case using recv_invar [of "get b"]
    by (auto simp: receive_eq get_put split: prod.splits)
qed

end
