(* ===== verification/Can.thy ===== *)
theory Can
  imports Vehicle_Bus
begin

text \<open>
  \<open>core/src/can.rs\<close>: CAN identifiers, classical and FD frames, their validation, the transceiver
  traits as records of operations, and the \<open>CanBus\<close> and \<open>CanFdBus\<close> implementations of
  \<open>VehicleBus\<close>. The locale \<open>can_backend\<close> derives the application contract of the bus from the
  contract of the transceiver under it.
\<close>


section \<open>Identifiers\<close>

definition CAN_MAX_DLC :: nat where
  "CAN_MAX_DLC = 8"

record can_id =
  cid_raw :: u32
  cid_extended :: bool

definition STANDARD_MAX :: u32 where
  "STANDARD_MAX = 0x7FF"

definition EXTENDED_MAX :: u32 where
  "EXTENDED_MAX = 0x1FFFFFFF"

definition can_id_standard :: "u32 \<Rightarrow> can_id option" where
  "can_id_standard i =
     (if i \<le> STANDARD_MAX then Some \<lparr>cid_raw = i, cid_extended = False\<rparr> else None)"

definition can_id_extended :: "u32 \<Rightarrow> can_id option" where
  "can_id_extended i =
     (if i \<le> EXTENDED_MAX then Some \<lparr>cid_raw = i, cid_extended = True\<rparr> else None)"

definition can_id_raw :: "can_id \<Rightarrow> u32" where
  "can_id_raw i = cid_raw i"

definition can_id_is_extended :: "can_id \<Rightarrow> bool" where
  "can_id_is_extended i = cid_extended i"

text \<open>The range an identifier of its kind may take.\<close>

definition can_id_ok :: "can_id \<Rightarrow> bool" where
  "can_id_ok i \<longleftrightarrow> cid_raw i \<le> (if cid_extended i then EXTENDED_MAX else STANDARD_MAX)"

lemma can_id_constructors_ok:
  "can_id_standard i = Some c \<Longrightarrow> can_id_ok c"
  "can_id_extended i = Some c \<Longrightarrow> can_id_ok c"
  by (auto simp: can_id_standard_def can_id_extended_def can_id_ok_def split: if_splits)


section \<open>Classical frames\<close>

record can_frame =
  cf_id :: can_id
  cf_data :: "u8 list"
  cf_len :: u8

definition can_frame_new :: "can_id \<Rightarrow> u8 list \<Rightarrow> can_frame option outcome" where
  "can_frame_new i data =
     (if length data > CAN_MAX_DLC then Ret None
      else outcome_bind (copy_into (replicate CAN_MAX_DLC 0) 0 (length data) data) (\<lambda>buf.
        Ret (Some \<lparr>cf_id = i, cf_data = buf, cf_len = of_nat (length data)\<rparr>)))"

definition can_frame_id :: "can_frame \<Rightarrow> can_id" where
  "can_frame_id f = cf_id f"

definition can_frame_data :: "can_frame \<Rightarrow> u8 list outcome" where
  "can_frame_data f = slice_to (cf_data f) (unat (cf_len f))"

definition can_frame_len :: "can_frame \<Rightarrow> nat" where
  "can_frame_len f = unat (cf_len f)"

definition can_validate_frame :: "can_frame \<Rightarrow> error + unit" where
  "can_validate_frame f =
     (if can_frame_len f > CAN_MAX_DLC then Inl InvalidArgument
      else
        let max = (if can_id_is_extended (can_frame_id f) then EXTENDED_MAX else STANDARD_MAX)
        in if can_id_raw (can_frame_id f) > max then Inl InvalidArgument else Inr ())"

text \<open>What the private fields of a frame satisfy when it was built by the public constructors.\<close>

definition can_frame_ok :: "can_frame \<Rightarrow> bool" where
  "can_frame_ok f \<longleftrightarrow>
     can_id_ok (cf_id f) \<and> length (cf_data f) = CAN_MAX_DLC \<and> unat (cf_len f) \<le> CAN_MAX_DLC"

lemma can_frame_new_small:
  "length data \<le> CAN_MAX_DLC \<Longrightarrow>
   can_frame_new i data =
     Ret (Some \<lparr>cf_id = i, cf_data = data @ replicate (CAN_MAX_DLC - length data) 0,
                cf_len = of_nat (length data)\<rparr>)"
  by (simp add: can_frame_new_def CAN_MAX_DLC_def)

lemma can_frame_new_large: "length data > CAN_MAX_DLC \<Longrightarrow> can_frame_new i data = Ret None"
  by (simp add: can_frame_new_def)

lemma can_frame_new_ok:
  assumes "can_frame_new i data = Ret (Some f)" "can_id_ok i"
  shows "can_frame_ok f"
proof -
  from assms(1) have "length data \<le> CAN_MAX_DLC"
    using can_frame_new_large [of data i] by (cases "length data \<le> CAN_MAX_DLC") auto
  with assms show ?thesis
    by (auto simp: can_frame_new_small can_frame_ok_def CAN_MAX_DLC_def)
qed

lemma can_frame_data_new:
  "length data \<le> CAN_MAX_DLC \<Longrightarrow>
   can_frame_new i data = Ret (Some f) \<Longrightarrow>
   can_frame_data f = Ret data \<and> can_frame_id f = i \<and> can_frame_len f = length data"
  by (auto simp: can_frame_new_small can_frame_data_def can_frame_id_def can_frame_len_def
      CAN_MAX_DLC_def)

lemma can_validate_frame_iff:
  "can_validate_frame f = Inr () \<longleftrightarrow> can_frame_len f \<le> CAN_MAX_DLC \<and> can_id_ok (cf_id f)"
  by (auto simp: can_validate_frame_def can_id_ok_def can_id_is_extended_def can_id_raw_def
      can_frame_id_def Let_def not_le not_less)

lemma can_validate_frame_error:
  "can_validate_frame f \<noteq> Inr () \<Longrightarrow> can_validate_frame f = Inl InvalidArgument"
  by (auto simp: can_validate_frame_def Let_def split: if_splits)

lemma can_validate_frame_map_err:
  "map_err invalid_frame_err (can_validate_frame f) \<noteq> Inr () \<Longrightarrow>
   map_err invalid_frame_err (can_validate_frame f) = Inl InvalidFrame"
  using can_validate_frame_error [of f] by (cases "can_validate_frame f") auto

lemma can_frame_ok_validates: "can_frame_ok f \<Longrightarrow> can_validate_frame f = Inr ()"
  by (simp add: can_validate_frame_iff can_frame_ok_def can_frame_len_def)


section \<open>The classical bus\<close>

record 't can_transceiver =
  ct_send :: "'t \<Rightarrow> can_frame \<Rightarrow> (bus_error + unit) \<times> 't"
  ct_recv :: "'t \<Rightarrow> (bus_error + can_frame) \<times> 't"
  ct_has_received :: "'t \<Rightarrow> bool"
  ct_can_send :: "'t \<Rightarrow> bool"

record 't can_bus =
  cb_transceiver :: 't

definition can_bus_new :: "'t \<Rightarrow> 't can_bus" where
  "can_bus_new t = \<lparr>cb_transceiver = t\<rparr>"

definition can_bus_transmit ::
  "'t can_transceiver \<Rightarrow> 't can_bus \<Rightarrow> can_frame \<Rightarrow> (bus_error + unit) \<times> 't can_bus" where
  "can_bus_transmit T b f =
     (case map_err invalid_frame_err (can_validate_frame f) of
        Inl e \<Rightarrow> (Inl e, b)
      | Inr _ \<Rightarrow> let (r, t) = ct_send T (cb_transceiver b) f in (r, b\<lparr>cb_transceiver := t\<rparr>))"

definition can_bus_receive ::
  "'t can_transceiver \<Rightarrow> 't can_bus \<Rightarrow> (bus_error + can_frame) \<times> 't can_bus" where
  "can_bus_receive T b =
     (let (r, t) = ct_recv T (cb_transceiver b) in (r, b\<lparr>cb_transceiver := t\<rparr>))"

definition can_bus_can_receive :: "'t can_transceiver \<Rightarrow> 't can_bus \<Rightarrow> bool" where
  "can_bus_can_receive T b = ct_has_received T (cb_transceiver b)"

definition can_bus_can_transmit :: "'t can_transceiver \<Rightarrow> 't can_bus \<Rightarrow> bool" where
  "can_bus_can_transmit T b = ct_can_send T (cb_transceiver b)"

definition can_vehicle_bus :: "'t can_transceiver \<Rightarrow> ('t can_bus, can_frame) vehicle_bus" where
  "can_vehicle_bus T =
     \<lparr>vb_transmit = can_bus_transmit T, vb_receive = can_bus_receive T,
      vb_can_receive = can_bus_can_receive T, vb_can_transmit = can_bus_can_transmit T\<rparr>"

lemmas can_bus_defs =
  can_vehicle_bus_def can_bus_transmit_def can_bus_receive_def can_bus_can_receive_def
  can_bus_can_transmit_def

locale can_backend =
  transceiver_spec "ct_send T" "ct_recv T" "ct_has_received T" "ct_can_send T" pending invar
  for T :: "'t can_transceiver" and pending :: "'t \<Rightarrow> can_frame list" and invar :: "'t \<Rightarrow> bool"

sublocale can_backend \<subseteq> bus: validating_bus "ct_send T" "ct_recv T" "ct_has_received T"
  "ct_can_send T" pending invar "can_vehicle_bus T" cb_transceiver
  "\<lambda>t b. b\<lparr>cb_transceiver := t\<rparr>" "\<lambda>f. map_err invalid_frame_err (can_validate_frame f)"
  by unfold_locales (auto simp: can_bus_defs can_validate_frame_map_err)


section \<open>CAN FD\<close>

definition CANFD_MAX_DLC :: nat where
  "CANFD_MAX_DLC = 64"

record can_fd_frame =
  fdf_id :: can_id
  fdf_data :: "u8 list"
  fdf_len :: u8

definition can_fd_frame_new :: "can_id \<Rightarrow> u8 list \<Rightarrow> can_fd_frame option outcome" where
  "can_fd_frame_new i data =
     (if length data > CANFD_MAX_DLC then Ret None
      else outcome_bind (copy_into (replicate CANFD_MAX_DLC 0) 0 (length data) data) (\<lambda>buf.
        Ret (Some \<lparr>fdf_id = i, fdf_data = buf, fdf_len = of_nat (length data)\<rparr>)))"

definition can_fd_frame_id :: "can_fd_frame \<Rightarrow> can_id" where
  "can_fd_frame_id f = fdf_id f"

definition can_fd_frame_data :: "can_fd_frame \<Rightarrow> u8 list outcome" where
  "can_fd_frame_data f = slice_to (fdf_data f) (unat (fdf_len f))"

definition can_fd_frame_len :: "can_fd_frame \<Rightarrow> nat" where
  "can_fd_frame_len f = unat (fdf_len f)"

definition validate_fd_frame :: "can_fd_frame \<Rightarrow> bus_error + unit" where
  "validate_fd_frame f =
     (if can_fd_frame_len f > CANFD_MAX_DLC then Inl InvalidFrame
      else
        let max = (if can_id_is_extended (can_fd_frame_id f) then EXTENDED_MAX else STANDARD_MAX)
        in if can_id_raw (can_fd_frame_id f) > max then Inl InvalidFrame else Inr ())"

definition can_fd_frame_ok :: "can_fd_frame \<Rightarrow> bool" where
  "can_fd_frame_ok f \<longleftrightarrow>
     can_id_ok (fdf_id f) \<and> length (fdf_data f) = CANFD_MAX_DLC \<and> unat (fdf_len f) \<le> CANFD_MAX_DLC"

lemma can_fd_frame_new_small:
  "length data \<le> CANFD_MAX_DLC \<Longrightarrow>
   can_fd_frame_new i data =
     Ret (Some \<lparr>fdf_id = i, fdf_data = data @ replicate (CANFD_MAX_DLC - length data) 0,
                fdf_len = of_nat (length data)\<rparr>)"
  by (simp add: can_fd_frame_new_def CANFD_MAX_DLC_def)

lemma validate_fd_frame_iff:
  "validate_fd_frame f = Inr () \<longleftrightarrow> can_fd_frame_len f \<le> CANFD_MAX_DLC \<and> can_id_ok (fdf_id f)"
  by (auto simp: validate_fd_frame_def can_id_ok_def can_id_is_extended_def can_id_raw_def
      can_fd_frame_id_def Let_def not_le not_less)

lemma validate_fd_frame_error:
  "validate_fd_frame f \<noteq> Inr () \<Longrightarrow> validate_fd_frame f = Inl InvalidFrame"
  by (auto simp: validate_fd_frame_def Let_def split: if_splits)

record 't fd_can_transceiver =
  fct_send :: "'t \<Rightarrow> can_fd_frame \<Rightarrow> (bus_error + unit) \<times> 't"
  fct_recv :: "'t \<Rightarrow> (bus_error + can_fd_frame) \<times> 't"
  fct_has_received :: "'t \<Rightarrow> bool"
  fct_can_send :: "'t \<Rightarrow> bool"

record 't can_fd_bus =
  fdb_transceiver :: 't

definition can_fd_bus_new :: "'t \<Rightarrow> 't can_fd_bus" where
  "can_fd_bus_new t = \<lparr>fdb_transceiver = t\<rparr>"

definition can_fd_bus_transmit ::
  "'t fd_can_transceiver \<Rightarrow> 't can_fd_bus \<Rightarrow> can_fd_frame \<Rightarrow> (bus_error + unit) \<times> 't can_fd_bus"
where
  "can_fd_bus_transmit T b f =
     (case validate_fd_frame f of
        Inl e \<Rightarrow> (Inl e, b)
      | Inr _ \<Rightarrow> let (r, t) = fct_send T (fdb_transceiver b) f in (r, b\<lparr>fdb_transceiver := t\<rparr>))"

definition can_fd_bus_receive ::
  "'t fd_can_transceiver \<Rightarrow> 't can_fd_bus \<Rightarrow> (bus_error + can_fd_frame) \<times> 't can_fd_bus" where
  "can_fd_bus_receive T b =
     (let (r, t) = fct_recv T (fdb_transceiver b) in (r, b\<lparr>fdb_transceiver := t\<rparr>))"

definition can_fd_bus_can_receive :: "'t fd_can_transceiver \<Rightarrow> 't can_fd_bus \<Rightarrow> bool" where
  "can_fd_bus_can_receive T b = fct_has_received T (fdb_transceiver b)"

definition can_fd_bus_can_transmit :: "'t fd_can_transceiver \<Rightarrow> 't can_fd_bus \<Rightarrow> bool" where
  "can_fd_bus_can_transmit T b = fct_can_send T (fdb_transceiver b)"

definition can_fd_vehicle_bus :: "'t fd_can_transceiver \<Rightarrow> ('t can_fd_bus, can_fd_frame) vehicle_bus" where
  "can_fd_vehicle_bus T =
     \<lparr>vb_transmit = can_fd_bus_transmit T, vb_receive = can_fd_bus_receive T,
      vb_can_receive = can_fd_bus_can_receive T, vb_can_transmit = can_fd_bus_can_transmit T\<rparr>"

lemmas can_fd_bus_defs =
  can_fd_vehicle_bus_def can_fd_bus_transmit_def can_fd_bus_receive_def can_fd_bus_can_receive_def
  can_fd_bus_can_transmit_def

locale fd_backend =
  transceiver_spec "fct_send T" "fct_recv T" "fct_has_received T" "fct_can_send T" pending invar
  for T :: "'t fd_can_transceiver" and pending :: "'t \<Rightarrow> can_fd_frame list" and invar :: "'t \<Rightarrow> bool"

sublocale fd_backend \<subseteq> bus: validating_bus "fct_send T" "fct_recv T" "fct_has_received T"
  "fct_can_send T" pending invar "can_fd_vehicle_bus T" fdb_transceiver
  "\<lambda>t b. b\<lparr>fdb_transceiver := t\<rparr>" validate_fd_frame
  by unfold_locales (auto simp: can_fd_bus_defs validate_fd_frame_error)


section \<open>Properties\<close>

lemma can_fd_frame_data_new:
  "length data \<le> CANFD_MAX_DLC \<Longrightarrow> can_fd_frame_new i data = Ret (Some f) \<Longrightarrow>
   can_fd_frame_data f = Ret data \<and> can_fd_frame_id f = i \<and> can_fd_frame_len f = length data"
  by (auto simp: can_fd_frame_new_small can_fd_frame_data_def can_fd_frame_id_def
      can_fd_frame_len_def CANFD_MAX_DLC_def)

text \<open>Frames carry their data. Over an identifier from the constructors, \<open>CanFrame::new\<close> and
  \<open>CanFdFrame::new\<close> refuse exactly the data of more than 8 and 64 bytes and never panic; the frame
  they build returns the identifier, the length and the data, and passes the validation of
  \<open>transmit\<close>.\<close>
theorem can_frames_carry_data:
  assumes "can_id_standard r = Some i \<or> can_id_extended r = Some i"
  shows "(if length data \<le> 8
      then \<exists>f. can_frame_new i data = Ret (Some f) \<and> can_frame_data f = Ret data \<and>
        can_frame_id f = i \<and> can_frame_len f = length data \<and> can_validate_frame f = Inr ()
      else can_frame_new i data = Ret None) \<and>
    (if length data \<le> 64
      then \<exists>f. can_fd_frame_new i data = Ret (Some f) \<and> can_fd_frame_data f = Ret data \<and>
        can_fd_frame_id f = i \<and> can_fd_frame_len f = length data \<and> validate_fd_frame f = Inr ()
      else can_fd_frame_new i data = Ret None)"
proof (intro conjI)
  have i: "can_id_ok i" using assms by (auto intro: can_id_constructors_ok)
  show "if length data \<le> 8
      then \<exists>f. can_frame_new i data = Ret (Some f) \<and> can_frame_data f = Ret data \<and>
        can_frame_id f = i \<and> can_frame_len f = length data \<and> can_validate_frame f = Inr ()
      else can_frame_new i data = Ret None"
  proof (cases "length data \<le> CAN_MAX_DLC")
    case True
    then obtain f where f: "can_frame_new i data = Ret (Some f)" by (simp add: can_frame_new_small)
    with can_frame_data_new [OF True f] can_frame_ok_validates [OF can_frame_new_ok [OF f i]] True
    show ?thesis by (auto simp: CAN_MAX_DLC_def)
  qed (auto simp: can_frame_new_large CAN_MAX_DLC_def)
  show "if length data \<le> 64
      then \<exists>f. can_fd_frame_new i data = Ret (Some f) \<and> can_fd_frame_data f = Ret data \<and>
        can_fd_frame_id f = i \<and> can_fd_frame_len f = length data \<and> validate_fd_frame f = Inr ()
      else can_fd_frame_new i data = Ret None"
  proof (cases "length data \<le> CANFD_MAX_DLC")
    case True
    then obtain f where f: "can_fd_frame_new i data = Ret (Some f)" "fdf_id f = i"
      by (simp add: can_fd_frame_new_small)
    with can_fd_frame_data_new [OF True f(1)] True i show ?thesis
      by (auto simp: validate_fd_frame_iff CANFD_MAX_DLC_def)
  qed (auto simp: can_fd_frame_new_def CANFD_MAX_DLC_def)
qed

lemma can_frames_carry_data_witness:
  "\<exists>i. can_id_standard 0x7FF = Some i \<and> can_frame_new i (replicate 9 0) = Ret None \<and>
    (\<exists>f. can_fd_frame_new i (replicate 9 0) = Ret (Some f) \<and> can_fd_frame_len f = 9)"
proof -
  obtain i where i: "can_id_standard 0x7FF = Some i" by (simp add: can_id_standard_def STANDARD_MAX_def)
  from can_frames_carry_data [of _ _ "replicate 9 0", OF disjI1 [OF i]] i show ?thesis by auto
qed

end
