(* ===== verification/Lin.thy ===== *)
theory Lin
  imports Vehicle_Bus
begin

text \<open>
  \<open>core/src/lin.rs\<close>: LIN identifiers with the parity bits of the protected identifier, frames and
  the classic checksum, the transceiver trait and the \<open>LinBus\<close> implementation of \<open>VehicleBus\<close>.
\<close>


section \<open>Identifiers and the protected identifier\<close>

definition LIN_MAX_DLC :: nat where
  "LIN_MAX_DLC = 8"

datatype lin_id = LinId u8

definition LIN_ID_MAX :: u8 where
  "LIN_ID_MAX = 0x3F"

definition lin_id_new :: "u8 \<Rightarrow> lin_id option" where
  "lin_id_new i = (if i \<le> LIN_ID_MAX then Some (LinId i) else None)"

fun lin_id_raw :: "lin_id \<Rightarrow> u8" where
  "lin_id_raw (LinId i) = i"

definition lin_id_protected :: "lin_id \<Rightarrow> u8" where
  "lin_id_protected l =
     (let i = lin_id_raw l;
          p0 = push_bit 6 ((i XOR drop_bit 1 i XOR drop_bit 2 i XOR drop_bit 4 i) AND 0x01);
          p1 = push_bit 7
                 (NOT (drop_bit 1 i XOR drop_bit 3 i XOR drop_bit 4 i XOR drop_bit 5 i) AND 0x01)
      in i OR p0 OR p1)"

text \<open>The parity rule of the LIN specification, on the eight bits of a received identifier.\<close>

definition lin_pid_parity :: "u8 \<Rightarrow> bool" where
  "lin_pid_parity p \<longleftrightarrow>
     bit p 6 = ((bit p 0 \<noteq> bit p 1) \<noteq> (bit p 2 \<noteq> bit p 4)) \<and>
     bit p 7 = (\<not> ((bit p 1 \<noteq> bit p 3) \<noteq> (bit p 4 \<noteq> bit p 5)))"

lemma lin_id_raw_bound: "lin_id_new i = Some l \<Longrightarrow> l = LinId i \<and> i \<le> 63"
  by (auto simp: lin_id_new_def LIN_ID_MAX_def split: if_splits)

lemma lin_id_protected_bits:
  "bit (lin_id_protected (LinId i)) 0 = bit i 0" "bit (lin_id_protected (LinId i)) (Suc 0) = bit i (Suc 0)"
  "bit (lin_id_protected (LinId i)) 2 = bit i 2" "bit (lin_id_protected (LinId i)) 3 = bit i 3"
  "bit (lin_id_protected (LinId i)) 4 = bit i 4" "bit (lin_id_protected (LinId i)) 5 = bit i 5"
  "bit (lin_id_protected (LinId i)) 6 =
     (bit i 6 \<or> ((bit i 0 \<noteq> bit i 1) \<noteq> (bit i 2 \<noteq> bit i 4)))"
  "bit (lin_id_protected (LinId i)) 7 =
     (bit i 7 \<or> \<not> ((bit i 1 \<noteq> bit i 3) \<noteq> (bit i 4 \<noteq> bit i 5)))"
  unfolding lin_id_protected_def lin_id_raw.simps Let_def bit_or_iff bit_push_bit_iff
    bit_and_one_iff bit_xor_iff bit_not_iff bit_drop_bit_eq
  by auto

lemma lin_id_high_bits: "lin_id_new i = Some l \<Longrightarrow> \<not> bit i 6 \<and> \<not> bit i 7"
proof -
  assume "lin_id_new i = Some l"
  then have "unat i < 2 ^ 6"
    by (auto dest!: lin_id_raw_bound simp: word_le_nat_alt)
  then show ?thesis
    using word_small_bits [of i 6 6] word_small_bits [of i 6 7] by simp
qed

lemma lin_pid_parity_protected:
  "lin_id_new i = Some l \<Longrightarrow> lin_pid_parity (lin_id_protected l)"
  using lin_id_high_bits [of i l]
  by (auto simp: lin_pid_parity_def lin_id_protected_bits dest!: lin_id_raw_bound)

lemma lin_id_protected_low:
  assumes "lin_id_new i = Some l"
  shows "lin_id_protected l AND 0x3F = i"
proof (rule bit_word_eqI)
  fix n :: nat
  assume "n < LENGTH(8)"
  then show "bit (lin_id_protected l AND 0x3F) n = bit i n"
    using lin_id_high_bits [OF assms] lin_id_raw_bound [OF assms]
    by (auto simp: less_eight_cases bit_and_iff lin_id_protected_bits)
qed


section \<open>Frames and the classic checksum\<close>

record lin_frame =
  lf_id :: lin_id
  lf_data :: "u8 list"
  lf_len :: u8

definition lin_frame_new :: "lin_id \<Rightarrow> u8 list \<Rightarrow> lin_frame option outcome" where
  "lin_frame_new i data =
     (if length data > LIN_MAX_DLC then Ret None
      else outcome_bind (copy_into (replicate LIN_MAX_DLC 0) 0 (length data) data) (\<lambda>buf.
        Ret (Some \<lparr>lf_id = i, lf_data = buf, lf_len = of_nat (length data)\<rparr>)))"

definition lin_frame_id :: "lin_frame \<Rightarrow> lin_id" where
  "lin_frame_id f = lf_id f"

definition lin_frame_data :: "lin_frame \<Rightarrow> u8 list outcome" where
  "lin_frame_data f = slice_to (lf_data f) (unat (lf_len f))"

definition lin_frame_len :: "lin_frame \<Rightarrow> nat" where
  "lin_frame_len f = unat (lf_len f)"

text \<open>The loop of \<open>checksum\<close>: an 8-bit sum with the carry added back.\<close>

fun lin_checksum_loop :: "target \<Rightarrow> u16 \<Rightarrow> u8 list \<Rightarrow> u16 outcome" where
  "lin_checksum_loop t acc [] = Ret acc"
| "lin_checksum_loop t acc (b # bs) =
     outcome_bind (u16_add t acc (ucast b)) (\<lambda>acc'.
       lin_checksum_loop t (if acc' > 0xFF then acc' - 0xFF else acc') bs)"

definition lin_frame_checksum :: "target \<Rightarrow> lin_frame \<Rightarrow> u8 outcome" where
  "lin_frame_checksum t f =
     outcome_bind (lin_frame_data f) (\<lambda>data.
     outcome_bind (lin_checksum_loop t 0 data) (\<lambda>acc. Ret (NOT (ucast acc))))"

definition lin_validate_frame :: "lin_frame \<Rightarrow> error + unit" where
  "lin_validate_frame f =
     (if lin_frame_len f > LIN_MAX_DLC then Inl InvalidArgument else Inr ())"

text \<open>
  The reference: the sum reduced modulo 255, with 255 for the non-zero multiples. It is the
  only value up to 255 with the same residue that is zero exactly for the zero sum.
\<close>

definition eac :: "nat \<Rightarrow> nat" where
  "eac n = (if n = 0 then 0 else if n mod 255 = 0 then 255 else n mod 255)"

definition byte_sum :: "u8 list \<Rightarrow> nat" where
  "byte_sum bs = sum_list (map unat bs)"

lemma eac_bound: "eac n \<le> 255"
  by (simp add: eac_def less_imp_le)

lemma eac_mod: "eac n mod 255 = n mod 255" and eac_eq_0: "eac n = 0 \<longleftrightarrow> n = 0"
  by (simp_all add: eac_def)

lemma eac_unique: "x \<le> 255 \<Longrightarrow> x mod 255 = n mod 255 \<Longrightarrow> x = 0 \<longleftrightarrow> n = 0 \<Longrightarrow> x = eac n"
  by (cases "x = 255") (auto simp: eac_def)

lemma eac_step:
  assumes "b < 256"
  shows "eac (n + b) = (if eac n + b > 255 then eac n + b - 255 else eac n + b)"
proof (rule eac_unique [symmetric])
  have m: "(eac n + b) mod 255 = (n + b) mod 255" by (metis eac_mod mod_add_left_eq)
  show "(if eac n + b > 255 then eac n + b - 255 else eac n + b) mod 255 = (n + b) mod 255"
    using m le_mod_geq [of 255 "eac n + b"] by simp
qed (use assms eac_bound [of n] eac_eq_0 [of n] in auto)

lemma unat_u8_less: "unat (b :: u8) < 256"
  using unsigned_less [of b, where 'a = nat] by simp

lemma unat_not_u8: "unat (NOT (b :: u8)) = 255 - unat b"
proof -
  have "NOT b = 255 - b"
    by (simp add: not_eq_complement)
  moreover have "b \<le> 255"
    using unat_u8_less [of b] by (simp add: word_le_nat_alt)
  ultimately show ?thesis by (simp add: unat_sub)
qed

lemma lin_checksum_loop_eac:
  "unat acc = eac n \<Longrightarrow>
   \<exists>r. lin_checksum_loop t acc bs = Ret r \<and> unat r = eac (n + byte_sum bs)"
proof (induction bs arbitrary: acc n)
  case Nil
  then show ?case by (simp add: byte_sum_def)
next
  case (Cons b bs)
  have b: "unat (ucast b :: u16) = unat b"
    using unat_u8_less [of b] by (simp add: unsigned_ucast_eq take_bit_nat_eq_self)
  let ?s = "acc + ucast b"
  have fits: "unat acc + unat (ucast b :: u16) < 2 ^ 16"
    using Cons.prems eac_bound [of n] unat_u8_less [of b] b by simp
  then have s: "unat ?s = eac n + unat b"
    using Cons.prems b by (simp add: unat_word_ariths)
  have "unat (if ?s > 0xFF then ?s - 0xFF else ?s) = eac (n + unat b)"
    using s eac_step [of "unat b" n] unat_u8_less [of b]
    by (simp add: word_less_nat_alt unat_sub word_le_nat_alt)
  from Cons.IH [OF this] fits show ?case
    by (simp add: u16_add_def byte_sum_def add.assoc)
qed

lemma lin_checksum_loop_0:
  "\<exists>r. lin_checksum_loop t 0 bs = Ret r \<and> unat r = eac (byte_sum bs)"
  using lin_checksum_loop_eac [of 0 0 t bs] by (simp add: eac_def)

lemma lin_frame_new_small:
  "length data \<le> LIN_MAX_DLC \<Longrightarrow>
   lin_frame_new i data =
     Ret (Some \<lparr>lf_id = i, lf_data = data @ replicate (LIN_MAX_DLC - length data) 0,
                lf_len = of_nat (length data)\<rparr>)"
  by (simp add: lin_frame_new_def LIN_MAX_DLC_def)

lemma lin_frame_data_new:
  "length data \<le> LIN_MAX_DLC \<Longrightarrow> lin_frame_new i data = Ret (Some f) \<Longrightarrow>
   lin_frame_data f = Ret data \<and> lin_frame_id f = i \<and> lin_frame_len f = length data"
  by (auto simp: lin_frame_new_small lin_frame_data_def lin_frame_id_def lin_frame_len_def
      LIN_MAX_DLC_def)

lemma lin_validate_frame_error:
  "lin_validate_frame f \<noteq> Inr () \<Longrightarrow> lin_validate_frame f = Inl InvalidArgument"
  by (auto simp: lin_validate_frame_def split: if_splits)

lemma lin_frame_checksum_value:
  assumes "lin_frame_data f = Ret data"
  shows "\<exists>c. lin_frame_checksum t f = Ret c \<and> unat c = 255 - eac (byte_sum data)"
proof -
  obtain r where r: "lin_checksum_loop t 0 data = Ret r" "unat r = eac (byte_sum data)"
    using lin_checksum_loop_0 by blast
  then have "unat (ucast r :: u8) = eac (byte_sum data)"
    using eac_bound [of "byte_sum data"]
    by (simp add: unsigned_ucast_eq take_bit_nat_eq_self)
  then have "unat (NOT (ucast r :: u8)) = 255 - eac (byte_sum data)"
    by (simp add: unat_not_u8)
  with r assms show ?thesis by (simp add: lin_frame_checksum_def)
qed


section \<open>The bus\<close>

record 't lin_transceiver =
  lt_is_master :: "'t \<Rightarrow> bool"
  lt_send :: "'t \<Rightarrow> lin_frame \<Rightarrow> (bus_error + unit) \<times> 't"
  lt_recv :: "'t \<Rightarrow> (bus_error + lin_frame) \<times> 't"
  lt_has_received :: "'t \<Rightarrow> bool"
  lt_can_send :: "'t \<Rightarrow> bool"

record 't lin_bus =
  lb_transceiver :: 't

definition lin_bus_new :: "'t \<Rightarrow> 't lin_bus" where
  "lin_bus_new t = \<lparr>lb_transceiver = t\<rparr>"

definition lin_bus_is_master :: "'t lin_transceiver \<Rightarrow> 't lin_bus \<Rightarrow> bool" where
  "lin_bus_is_master T b = lt_is_master T (lb_transceiver b)"

fun lin_invalid_frame_err :: "error \<Rightarrow> bus_error" where
  "lin_invalid_frame_err InvalidArgument = InvalidFrame"
| "lin_invalid_frame_err e = BusCore e"

definition lin_bus_transmit ::
  "'t lin_transceiver \<Rightarrow> 't lin_bus \<Rightarrow> lin_frame \<Rightarrow> (bus_error + unit) \<times> 't lin_bus" where
  "lin_bus_transmit T b f =
     (case map_err lin_invalid_frame_err (lin_validate_frame f) of
        Inl e \<Rightarrow> (Inl e, b)
      | Inr _ \<Rightarrow> let (r, t) = lt_send T (lb_transceiver b) f in (r, b\<lparr>lb_transceiver := t\<rparr>))"

definition lin_bus_receive ::
  "'t lin_transceiver \<Rightarrow> 't lin_bus \<Rightarrow> (bus_error + lin_frame) \<times> 't lin_bus" where
  "lin_bus_receive T b =
     (let (r, t) = lt_recv T (lb_transceiver b) in (r, b\<lparr>lb_transceiver := t\<rparr>))"

definition lin_bus_can_receive :: "'t lin_transceiver \<Rightarrow> 't lin_bus \<Rightarrow> bool" where
  "lin_bus_can_receive T b = lt_has_received T (lb_transceiver b)"

definition lin_bus_can_transmit :: "'t lin_transceiver \<Rightarrow> 't lin_bus \<Rightarrow> bool" where
  "lin_bus_can_transmit T b = lt_can_send T (lb_transceiver b)"

definition lin_vehicle_bus :: "'t lin_transceiver \<Rightarrow> ('t lin_bus, lin_frame) vehicle_bus" where
  "lin_vehicle_bus T =
     \<lparr>vb_transmit = lin_bus_transmit T, vb_receive = lin_bus_receive T,
      vb_can_receive = lin_bus_can_receive T, vb_can_transmit = lin_bus_can_transmit T\<rparr>"

lemmas lin_bus_defs =
  lin_vehicle_bus_def lin_bus_transmit_def lin_bus_receive_def lin_bus_can_receive_def
  lin_bus_can_transmit_def

lemma lin_validate_frame_map_err:
  "map_err lin_invalid_frame_err (lin_validate_frame f) \<noteq> Inr () \<Longrightarrow>
   map_err lin_invalid_frame_err (lin_validate_frame f) = Inl InvalidFrame"
  using lin_validate_frame_error [of f] by (cases "lin_validate_frame f") auto

locale lin_backend =
  transceiver_spec "lt_send T" "lt_recv T" "lt_has_received T" "lt_can_send T" pending invar
  for T :: "'t lin_transceiver" and pending :: "'t \<Rightarrow> lin_frame list" and invar :: "'t \<Rightarrow> bool"

sublocale lin_backend \<subseteq> bus: validating_bus "lt_send T" "lt_recv T" "lt_has_received T"
  "lt_can_send T" pending invar "lin_vehicle_bus T" lb_transceiver
  "\<lambda>t b. b\<lparr>lb_transceiver := t\<rparr>" "\<lambda>f. map_err lin_invalid_frame_err (lin_validate_frame f)"
  by unfold_locales (auto simp: lin_bus_defs lin_validate_frame_map_err)



section \<open>Properties\<close>

text \<open>C29: Protected identifiers: for every valid identifier the low six bits are the identifier and the
  parity bits follow the LIN rule; a receiver that checks the parity notices every single-bit error.\<close>
theorem lin_protected_id:
  assumes "lin_id_new i = Some l"
  shows "lin_id_protected l AND 0x3F = i \<and> lin_pid_parity (lin_id_protected l) \<and>
    (\<forall>k < 8. \<not> lin_pid_parity (flip_bit k (lin_id_protected l)))"
proof (intro conjI allI impI)
  show "lin_id_protected l AND 0x3F = i" by (rule lin_id_protected_low [OF assms])
  show p: "lin_pid_parity (lin_id_protected l)" by (rule lin_pid_parity_protected [OF assms])
  fix k :: nat
  assume "k < 8"
  then show "\<not> lin_pid_parity (flip_bit k (lin_id_protected l))"
    using p unfolding less_eight_cases lin_pid_parity_def
    by (elim disjE) (auto simp: bit_flip_bit_iff)
qed

lemma lin_protected_id_witness:
  "lin_pid_parity (lin_id_protected (LinId 0x3C)) \<and>
   \<not> lin_pid_parity (flip_bit 3 (lin_id_protected (LinId 0x3C)))"
proof -
  have "lin_id_new 0x3C = Some (LinId 0x3C)" by (simp add: lin_id_new_def LIN_ID_MAX_def)
  from lin_protected_id [OF this] show ?thesis by simp
qed

text \<open>C28: The classic checksum: for every frame built by \<open>new\<close>, in any build, the computation neither
  panics nor overflows, and data and checksum add up to a multiple of 255, which is what a
  receiver tests; the checksum is 255 only if all data bytes are zero.\<close>
theorem lin_checksum_correct:
  assumes "lin_frame_new i data = Ret (Some f)"
  shows "\<exists>c. lin_frame_checksum t f = Ret c \<and> unat c = 255 - eac (byte_sum data) \<and>
    (byte_sum data + unat c) mod 255 = 0 \<and> (unat c = 255 \<longleftrightarrow> (\<forall>b \<in> set data. b = 0))"
proof -
  have "length data \<le> LIN_MAX_DLC"
    using assms by (cases "length data \<le> LIN_MAX_DLC") (auto simp: lin_frame_new_def)
  then have "lin_frame_data f = Ret data" using lin_frame_data_new assms by blast
  from lin_frame_checksum_value [OF this] obtain c where
    c: "lin_frame_checksum t f = Ret c" "unat c = 255 - eac (byte_sum data)" by blast
  moreover have "(byte_sum data + unat c) mod 255 = 0"
  proof -
    have "(byte_sum data + unat c) mod 255 = (eac (byte_sum data) + unat c) mod 255"
      by (metis eac_mod mod_add_left_eq)
    also have "eac (byte_sum data) + unat c = 255" using c eac_bound [of "byte_sum data"] by simp
    finally show ?thesis by simp
  qed
  moreover have "unat c = 255 \<longleftrightarrow> (\<forall>b \<in> set data. b = 0)"
    using c(2) eac_bound [of "byte_sum data"] eac_eq_0 [of "byte_sum data"]
    by (auto simp: byte_sum_def unat_eq_zero)
  ultimately show ?thesis by (intro exI [of _ c] conjI)
qed

lemma lin_checksum_correct_witness:
  "\<exists>c. lin_frame_checksum host_debug
      \<lparr>lf_id = LinId 0x10, lf_data = [0x4A, 0x55, 0x93, 0xE5, 0, 0, 0, 0], lf_len = 4\<rparr> = Ret c \<and>
    unat c = 0xE6"
proof -
  have "lin_frame_new (LinId 0x10) [0x4A, 0x55, 0x93, 0xE5] =
    Ret (Some \<lparr>lf_id = LinId 0x10, lf_data = [0x4A, 0x55, 0x93, 0xE5, 0, 0, 0, 0], lf_len = 4\<rparr>)"
    by code_simp
  from lin_checksum_correct [OF this, of host_debug] show ?thesis
    by (auto simp: byte_sum_def eac_def)
qed

end
