(* ===== verification/Isotp.thy ===== *)
theory Isotp
  imports Vehicle_Bus
begin

text \<open>
  \<open>core/src/isotp.rs\<close>: segmentation of a message into 8-byte CAN payloads (\<open>encode_message\<close>) and
  the reassembly state machine (\<open>IsoTpLink::feed\<close>), the frames an encoder should produce as a
  reference, and what a receiver makes of the frames of a sender for every message length.

  The capacity \<open>N\<close> of a link is the length of its buffer. The sequence number stays below 16 and
  \<open>filled\<close> within the buffer (\<open>isotp_inv\<close>), so the additions on them cannot overflow.
\<close>


section \<open>The reassembly state machine\<close>

definition ISOTP_SF_MAX :: nat where "ISOTP_SF_MAX = 7"
definition ISOTP_FF_MAX :: nat where "ISOTP_FF_MAX = 6"
definition ISOTP_CF_MAX :: nat where "ISOTP_CF_MAX = 7"
definition ISOTP_MAX_MESSAGE :: nat where "ISOTP_MAX_MESSAGE = 4095"

lemmas isotp_consts = ISOTP_SF_MAX_def ISOTP_FF_MAX_def ISOTP_CF_MAX_def ISOTP_MAX_MESSAGE_def

datatype isotp_error =
    IsoTpCore error
  | Overflow
  | WrongSequence
  | UnexpectedFrame
  | InvalidPci
  | BufferTooSmall

definition isotp_error_from :: "error \<Rightarrow> isotp_error" where
  "isotp_error_from e = IsoTpCore e"

datatype isotp_event = Incomplete | Complete "u8 list" | NeedFlowControl

record isotp_link =
  il_buf :: "u8 list"
  il_total :: nat
  il_filled :: nat
  il_sn :: u8
  il_receiving :: bool

definition isotp_link_new :: "nat \<Rightarrow> isotp_link" where
  "isotp_link_new n =
     \<lparr>il_buf = replicate n 0, il_total = 0, il_filled = 0, il_sn = 0, il_receiving = False\<rparr>"

text \<open>The three arms of the \<open>match\<close> on the PCI type.\<close>

definition feed_single ::
  "isotp_link \<Rightarrow> u8 \<Rightarrow> u8 list \<Rightarrow> ((isotp_error + isotp_event) \<times> isotp_link) outcome" where
  "feed_single l first frame =
     (let len = unat (first AND 0x0F) in
      if len = 0 \<or> len > ISOTP_SF_MAX \<or> len > length frame - 1 then Ret (Inl InvalidPci, l)
      else
        outcome_bind (subslice frame 1 (1 + len)) (\<lambda>data.
        outcome_bind (copy_into (il_buf l) 0 len data) (\<lambda>buf.
        let l' = l\<lparr>il_buf := buf, il_receiving := False\<rparr> in
        outcome_bind (slice_to buf len) (\<lambda>msg. Ret (Inr (Complete msg), l')))))"

definition feed_first ::
  "isotp_link \<Rightarrow> u8 \<Rightarrow> u8 list \<Rightarrow> ((isotp_error + isotp_event) \<times> isotp_link) outcome" where
  "feed_first l first frame =
     (let len = push_bit 8 (unat (first AND 0x0F)) OR
                unat (case get_opt frame 1 of None \<Rightarrow> 0 | Some b \<Rightarrow> b) in
      if len < ISOTP_FF_MAX + 1 \<or> len > length (il_buf l) then Ret (Inl Overflow, l)
      else
        outcome_bind (slice_from frame 2) (\<lambda>data.
        outcome_bind (copy_into (il_buf l) 0 (length data) data) (\<lambda>buf.
        Ret (Inr NeedFlowControl,
             l\<lparr>il_buf := buf, il_filled := length data, il_total := len, il_sn := 1,
               il_receiving := True\<rparr>))))"

definition feed_consecutive ::
  "isotp_link \<Rightarrow> u8 \<Rightarrow> u8 list \<Rightarrow> ((isotp_error + isotp_event) \<times> isotp_link) outcome" where
  "feed_consecutive l first frame =
     (if \<not> il_receiving l then Ret (Inl UnexpectedFrame, l)
      else if first AND 0x0F \<noteq> il_sn l then Ret (Inl WrongSequence, l)
      else
        let l1 = l\<lparr>il_sn := (il_sn l + 1) AND 0x0F\<rparr> in
        outcome_bind (slice_from frame 1) (\<lambda>data.
        if il_filled l1 + length data > il_total l1 then Ret (Inl Overflow, l1)
        else
          outcome_bind (copy_into (il_buf l1) (il_filled l1) (il_filled l1 + length data) data) (\<lambda>buf.
          let l2 = l1\<lparr>il_buf := buf, il_filled := il_filled l1 + length data\<rparr> in
          if il_filled l2 \<ge> il_total l2 then
            outcome_bind (slice_to buf (il_total l2)) (\<lambda>msg.
              Ret (Inr (Complete msg), l2\<lparr>il_receiving := False\<rparr>))
          else Ret (Inr Incomplete, l2))))"

definition feed ::
  "isotp_link \<Rightarrow> u8 list \<Rightarrow> ((isotp_error + isotp_event) \<times> isotp_link) outcome" where
  "feed l frame =
     (case ok_or (get_opt frame 0) InvalidPci of
        Inl e \<Rightarrow> Ret (Inl e, l)
      | Inr first \<Rightarrow>
          let pci = drop_bit 4 first in
          if pci = 0 then feed_single l first frame
          else if pci = 1 then feed_first l first frame
          else if pci = 2 then feed_consecutive l first frame
          else Ret (Inl InvalidPci, l))"

text \<open>A receive loop that stops at the first error: the events so far, or the error.\<close>

fun feed_all ::
  "isotp_link \<Rightarrow> u8 list list \<Rightarrow> ((isotp_error + isotp_event list) \<times> isotp_link) outcome" where
  "feed_all l [] = Ret (Inr [], l)"
| "feed_all l (f # fs) =
     outcome_bind (feed l f) (\<lambda>(r, l').
       case r of
         Inl e \<Rightarrow> Ret (Inl e, l')
       | Inr ev \<Rightarrow> outcome_bind (feed_all l' fs) (\<lambda>(rs, l''). Ret (map_sum id ((#) ev) rs, l'')))"

definition isotp_inv :: "isotp_link \<Rightarrow> bool" where
  "isotp_inv l \<longleftrightarrow>
     unat (il_sn l) < 16 \<and> il_filled l \<le> length (il_buf l) \<and> il_total l \<le> length (il_buf l)"


section \<open>Segmentation\<close>

definition flow_control_frame :: "u8 \<Rightarrow> u8 \<Rightarrow> u8 list" where
  "flow_control_frame block_size st_min = [0x30, block_size, st_min, 0, 0, 0, 0, 0]"

text \<open>The \<open>while\<close> loop that writes the consecutive frames.\<close>

function encode_cf_loop ::
  "u8 list \<Rightarrow> nat \<Rightarrow> u8 \<Rightarrow> nat \<Rightarrow> u8 list list \<Rightarrow> ((isotp_error + nat) \<times> u8 list list) outcome"
where
  "encode_cf_loop msg idx sn count out =
     (if idx < length msg then
        if count \<ge> length out then Ret (Inl BufferTooSmall, out)
        else
          let chunk = min (length msg - idx) ISOTP_CF_MAX;
              cf = (replicate 8 0)[0 := 0x20 OR sn] in
          outcome_bind (subslice msg idx (idx + chunk)) (\<lambda>src.
          outcome_bind (copy_into cf 1 (1 + chunk) src) (\<lambda>cf'.
          outcome_bind (store_at out count cf') (\<lambda>out'.
            encode_cf_loop msg (idx + chunk) ((sn + 1) AND 0x0F) (count + 1) out')))
      else Ret (Inr count, out))"
  by pat_completeness auto
termination
  by (relation "measure (\<lambda>(msg, idx, sn, count, out). length msg - idx)")
    (auto simp: ISOTP_CF_MAX_def)

declare encode_cf_loop.simps [simp del]

definition encode_message ::
  "u8 list \<Rightarrow> u8 list list \<Rightarrow> ((isotp_error + nat) \<times> u8 list list) outcome" where
  "encode_message msg out =
     (if length msg > ISOTP_MAX_MESSAGE then Ret (Inl Overflow, out)
      else if length msg \<le> ISOTP_SF_MAX then
        if out = [] then Ret (Inl BufferTooSmall, out)
        else
          let f = (replicate 8 0)[0 := of_nat (length msg)] in
          outcome_bind (copy_into f 1 (1 + length msg) msg) (\<lambda>f'.
          outcome_bind (store_at out 0 f') (\<lambda>out'. Ret (Inr 1, out')))
      else
        let ff_len = min (length msg) ISOTP_FF_MAX in
        if out = [] then Ret (Inl BufferTooSmall, out)
        else
          let f = (replicate 8 0)
                    [0 := 0x10 OR (of_nat (drop_bit 8 (length msg)) AND 0x0F),
                     1 := of_nat (length msg AND 0xFF)] in
          outcome_bind (slice_to msg ff_len) (\<lambda>src.
          outcome_bind (copy_into f 2 (2 + ff_len) src) (\<lambda>f'.
          outcome_bind (store_at out 0 f') (\<lambda>out'.
            encode_cf_loop msg ff_len 1 1 out'))))"


section \<open>The frames of a message\<close>

text \<open>
  The segmentation of ISO 15765-2 as a function of the message alone: every frame is padded with
  zeros to 8 bytes, the sequence number of the consecutive frames counts modulo 16 from 1.
\<close>

definition pad8 :: "u8 list \<Rightarrow> u8 list" where
  "pad8 bs = bs @ replicate (8 - length bs) 0"

fun cf_frames :: "u8 \<Rightarrow> u8 list \<Rightarrow> u8 list list" where
  "cf_frames sn [] = []"
| "cf_frames sn (b # bs) =
     pad8 ((0x20 OR sn) # take 7 (b # bs)) #
     cf_frames ((sn + 1) AND 0x0F) (drop 7 (b # bs))"

definition isotp_frames :: "u8 list \<Rightarrow> u8 list list" where
  "isotp_frames msg =
     (if length msg \<le> ISOTP_SF_MAX then [pad8 (of_nat (length msg) # msg)]
      else pad8 ((0x10 OR of_nat (length msg div 256)) # of_nat (length msg mod 256)
                 # take ISOTP_FF_MAX msg)
           # cf_frames 1 (drop ISOTP_FF_MAX msg))"
lemma length_cf_frames: "length (cf_frames sn bs) = (length bs + 6) div 7"
proof (induction sn bs rule: cf_frames.induct)
  case (2 sn b bs)
  then show ?case by (cases "length bs < 6") auto
qed simp
lemma unat_low_nibble: "unat ((w :: u8) AND 0x0F) < 16"
proof -
  have "w AND 0x0F \<le> 0x0F" by (rule word_and_le1)
  then show ?thesis by (simp add: word_le_nat_alt)
qed
lemma pci_nibbles:
  assumes "unat (n :: u8) < 16"
  shows "drop_bit 4 (0x20 OR n) = 2" "(0x20 OR n) AND 0x0F = n"
    "drop_bit 4 (0x10 OR n) = 1" "(0x10 OR n) AND 0x0F = n" "drop_bit 4 n = 0" "n AND 0x0F = n"
proof -
  have *: "\<not> bit n 4" "\<not> bit n 5" "\<not> bit n 6" "\<not> bit n 7"
    using assms word_small_bits [of n 4] by simp_all
  show "drop_bit 4 (0x20 OR n) = 2" "(0x20 OR n) AND 0x0F = n"
    "drop_bit 4 (0x10 OR n) = 1" "(0x10 OR n) AND 0x0F = n" "drop_bit 4 n = 0" "n AND 0x0F = n"
  by (rule bit_word_eqI; use * in \<open>auto simp: less_eight_cases bit_drop_bit_eq bit_or_iff bit_and_iff dest: bit_imp_le_length\<close>)+
qed

lemma bit8: "b < 256 \<Longrightarrow> push_bit 8 a OR b = 256 * a + (b::nat)"
proof -
  assume b: "b < 256"
  have "\<not> (bit (push_bit 8 a) k \<and> bit b k)" for k
  proof (cases "k < 8")
    case False
    then have "b < 2 ^ k" using b power_increasing [of 8 k "2 :: nat"] by simp
    then show ?thesis by (simp add: bit_iff_odd)
  qed (simp add: bit_push_bit_iff)
  then have "push_bit 8 a AND b = 0" by (auto simp: bit_eq_iff bit_and_iff)
  then have "push_bit 8 a OR b = push_bit 8 a + b" by (simp add: disjunctive_add_eq_or)
  then show ?thesis by (simp add: push_bit_eq_mult)
qed
lemma succ_nib: "unat (n :: u8) < 16 \<Longrightarrow> unat ((n + 1) AND 0x0F) = (unat n + 1) mod 16"
proof -
  have "(n + 1) AND 0x0F = take_bit 4 (n + 1)" by (simp add: take_bit_eq_mask mask_eq_exp_minus_1)
  moreover assume "unat n < 16"
  ultimately show ?thesis by (simp add: unsigned_take_bit_eq take_bit_eq_mod unat_word_ariths)
qed

lemma cf_frames_step:
  "bs \<noteq> [] \<Longrightarrow> cf_frames sn bs =
     pad8 ((0x20 OR sn) # take 7 bs) # cf_frames ((sn + 1) AND 0x0F) (drop 7 bs)"
  by (cases bs) simp_all

lemma replicate_8: "replicate 8 x = [x, x, x, x, x, x, x, x]" "replicate 6 x = [x, x, x, x, x, x]"
  by (simp_all add: numeral_nat)

lemma copy_chunk:
  assumes "length src \<le> 7"
  shows "copy_into ((replicate 8 0)[0 := x]) 1 (1 + length src) src = Ret (pad8 (x # src))"
proof -
  have "(replicate 8 0)[0 := x] = x # replicate 7 0"
    by (simp add: numeral_nat)
  with assms show ?thesis
    by (simp add: pad8_def)
qed

lemma encode_cf_loop_frames:
  assumes "idx \<le> length msg" "count \<le> length out"
  shows "encode_cf_loop msg idx sn count out =
    (let fs = cf_frames sn (drop idx msg) in
     if count + length fs \<le> length out
     then Ret (Inr (count + length fs), take count out @ fs @ drop (count + length fs) out)
     else Ret (Inl BufferTooSmall, take count out @ take (length out - count) fs))"
  using assms
proof (induction msg idx sn count out rule: encode_cf_loop.induct)
  case (1 msg idx sn count out)
  show ?case
  proof (cases "idx < length msg \<and> count < length out")
    case False
    with "1.prems" show ?thesis
      by (subst encode_cf_loop.simps) (auto simp: cf_frames_step)
  next
    case True
    let ?c = "min (length msg - idx) ISOTP_CF_MAX"
    let ?src = "take 7 (drop idx msg)"
    let ?cf = "pad8 ((0x20 OR sn) # ?src)"
    have src: "take ?c (drop idx msg) = ?src" "length ?src = ?c"
      by (auto simp: ISOTP_CF_MAX_def min_def)
    have c: "idx + ?c \<le> length msg" using True by auto
    have dr: "drop (idx + ?c) msg = drop 7 (drop idx msg)"
      using True by (auto simp: ISOTP_CF_MAX_def min_def add.commute)
    have fs: "cf_frames sn (drop idx msg) = ?cf # cf_frames ((sn + 1) AND 0x0F) (drop (idx + ?c) msg)"
      using True by (simp add: cf_frames_step dr)
    have cp: "copy_into ((replicate 8 0)[0 := 0x20 OR sn]) 1 (1 + ?c) ?src = Ret ?cf"
      using copy_chunk [of ?src "0x20 OR sn"] src by simp
    have "encode_cf_loop msg idx sn count out =
        encode_cf_loop msg (idx + ?c) ((sn + 1) AND 0x0F) (count + 1) (out[count := ?cf])"
      using True c src cp by (subst encode_cf_loop.simps) (simp add: Let_def)
    also have "\<dots> = (let fs = cf_frames ((sn + 1) AND 0x0F) (drop (idx + ?c) msg) in
     if count + 1 + length fs \<le> length out
     then Ret (Inr (count + 1 + length fs), take (count + 1) (out[count := ?cf]) @ fs @ drop (count + 1 + length fs) (out[count := ?cf]))
     else Ret (Inl BufferTooSmall, take (count + 1) (out[count := ?cf]) @ take (length out - (count + 1)) fs))"
      using "1.IH" [OF _ _ refl refl, of ?src ?cf "out[count := ?cf]"] True c src cp
      by (simp add: Let_def)
    also have "take (count + 1) (out[count := ?cf]) = take count out @ [?cf]"
      using True by (simp add: take_Suc_conv_app_nth)
    finally show ?thesis
      using True by (simp add: fs Let_def take_Cons' )
  qed
qed

lemma ff_len_bytes:
  assumes "n \<le> 4095"
  shows "(of_nat (drop_bit 8 n) AND 0x0F :: u8) = of_nat (n div 256)"
    and "(of_nat (n AND 0xFF) :: u8) = of_nat (n mod 256)"
    and "unat (of_nat (n div 256) :: u8) < 16" "unat (of_nat (n div 256) :: u8) = n div 256"
proof -
  have "n div 256 < 16" using assms by simp
  then show *: "unat (of_nat (n div 256) :: u8) < 16" "unat (of_nat (n div 256) :: u8) = n div 256"
    by simp_all
  show "(of_nat (drop_bit 8 n) AND 0x0F :: u8) = of_nat (n div 256)"
    using pci_nibbles(6) [OF *(1)] by (simp add: drop_bit_eq_div)
  have "n AND 0xFF = n mod 256"
    using take_bit_eq_mask [of 8 n] take_bit_eq_mod [of 8 n] by (simp add: mask_eq_exp_minus_1)
  then show "(of_nat (n AND 0xFF) :: u8) = of_nat (n mod 256)" by simp
qed

lemma encode_message_eq:
  "encode_message msg out =
     (if length msg > ISOTP_MAX_MESSAGE then Ret (Inl Overflow, out)
      else let fs = isotp_frames msg in
        if length fs \<le> length out then Ret (Inr (length fs), fs @ drop (length fs) out)
        else Ret (Inl BufferTooSmall, take (length out) fs))"
proof (cases "length msg > ISOTP_MAX_MESSAGE \<or> out = []")
  case True
  then show ?thesis
    by (auto simp: encode_message_def isotp_frames_def Let_def)
next
  case False
  then obtain o1 os where out: "out = o1 # os" by (cases out) auto
  show ?thesis
  proof (cases "length msg \<le> ISOTP_SF_MAX")
    case True
    with False out show ?thesis
      using copy_chunk [of msg "of_nat (length msg)"]
      by (simp add: encode_message_def isotp_frames_def Let_def isotp_consts)
  next
    case long: False
    let ?hd = "[0x10 OR of_nat (length msg div 256), of_nat (length msg mod 256)] :: u8 list"
    let ?ff = "pad8 (?hd @ take 6 msg)"
    have len: "7 < length msg" "length msg \<le> 4095"
      using False long by (simp_all add: isotp_consts)
    have "(replicate 8 0)
            [0 := 0x10 OR (of_nat (drop_bit 8 (length msg)) AND 0x0F),
             1 := of_nat (length msg AND 0xFF)] = ?hd @ replicate 6 0"
      using ff_len_bytes [OF len(2)] by (simp add: replicate_8)
    then have "encode_message msg out = encode_cf_loop msg 6 1 1 (?ff # os)"
      using len out by (simp add: encode_message_def isotp_consts pad8_def)
    also have "\<dots> = (let fs = ?ff # cf_frames 1 (drop 6 msg) in
        if length fs \<le> length out then Ret (Inr (length fs), fs @ drop (length fs) out)
        else Ret (Inl BufferTooSmall, take (length out) fs))"
      using len out by (simp add: encode_cf_loop_frames Let_def)
    finally show ?thesis
      using len by (simp add: isotp_frames_def isotp_consts Let_def)
  qed
qed

section \<open>What a receiver makes of the frames\<close>

lemma length_pad8 [simp]: "length bs \<le> 8 \<Longrightarrow> length (pad8 bs) = 8"
  by (simp add: pad8_def)

lemma feed_pad8_cf:
  assumes "il_receiving l" "unat (il_sn l) < 16" "il_filled l + 7 \<le> il_total l"
    "il_total l \<le> length (il_buf l)" "length bs = 7"
  shows "feed l (pad8 ((0x20 OR il_sn l) # bs)) =
    (let l' = l\<lparr>il_sn := (il_sn l + 1) AND 0x0F,
        il_buf := take (il_filled l) (il_buf l) @ bs @ drop (il_filled l + 7) (il_buf l),
        il_filled := il_filled l + 7\<rparr>
     in Ret (if il_filled l + 7 = il_total l
       then (Inr (Complete (take (il_total l) (il_buf l'))), l'\<lparr>il_receiving := False\<rparr>)
       else (Inr Incomplete, l')))"
  using assms pci_nibbles [OF assms(2)]
  by (auto simp: feed_def get_opt_def feed_consecutive_def Let_def pad8_def)

lemma feed_cf_overflow:
  assumes "il_receiving l" "unat (il_sn l) < 16" "il_total l < il_filled l + 7" "length bs \<le> 7"
  shows "feed l (pad8 ((0x20 OR il_sn l) # bs)) =
    Ret (Inl Overflow, l\<lparr>il_sn := (il_sn l + 1) AND 0x0F\<rparr>)"
  using assms pci_nibbles [OF assms(2)]
  by (auto simp: feed_def get_opt_def feed_consecutive_def Let_def pad8_def)

lemma feed_cf_frames:
  assumes "il_receiving l" "unat (il_sn l) < 16" "il_total l = il_filled l + length rest"
    "il_total l \<le> length (il_buf l)" "rest \<noteq> []"
  shows "\<exists>l'. feed_all l (cf_frames (il_sn l) rest) =
    Ret (if length rest mod 7 = 0
         then Inr (replicate (length rest div 7 - 1) Incomplete
                   @ [Complete (take (il_filled l) (il_buf l) @ rest)])
         else Inl Overflow, l')"
  using assms
proof (induction rest arbitrary: l rule: length_induct)
  case (1 rest)
  note prems = "1.prems"
  have sn': "unat ((il_sn l + 1) AND 0x0F) < 16" by (rule unat_low_nibble)
  show ?case
  proof (cases "length rest < 7")
    case True
    with prems feed_cf_overflow [of l "take 7 rest"] show ?thesis
      by (auto simp: cf_frames_step)
  next
    case False
    let ?l = "l\<lparr>il_sn := (il_sn l + 1) AND 0x0F,
        il_buf := take (il_filled l) (il_buf l) @ take 7 rest @ drop (il_filled l + 7) (il_buf l),
        il_filled := il_filled l + 7\<rparr>"
    have fd: "feed l (pad8 ((0x20 OR il_sn l) # take 7 rest)) =
      Ret (if il_filled l + 7 = il_total l
       then (Inr (Complete (take (il_total l) (il_buf ?l))), ?l\<lparr>il_receiving := False\<rparr>)
       else (Inr Incomplete, ?l))"
      using feed_pad8_cf [of l "take 7 rest"] prems False by (simp add: Let_def)
    show ?thesis
    proof (cases "length rest = 7")
      case True
      with prems fd show ?thesis by (simp add: cf_frames_step)
    next
      case more: False
      obtain l' where "feed_all ?l (cf_frames (il_sn ?l) (drop 7 rest)) =
        Ret (if length (drop 7 rest) mod 7 = 0
         then Inr (replicate (length (drop 7 rest) div 7 - 1) Incomplete
                   @ [Complete (take (il_filled ?l) (il_buf ?l) @ drop 7 rest)])
         else Inl Overflow, l')"
        using "1.IH" [rule_format, of "drop 7 rest" ?l] prems False more sn' by auto
      moreover have "take (il_filled ?l) (il_buf ?l) @ drop 7 rest = take (il_filled l) (il_buf l) @ rest"
        using prems False by simp
      moreover have "length (drop 7 rest) div 7 = length rest div 7 - 1"
        "length (drop 7 rest) mod 7 = length rest mod 7"
        using False by (simp_all add: le_div_geq le_mod_geq)
      moreover have "\<exists>k. length rest div 7 - 1 = Suc k" if "length rest mod 7 = 0"
      proof -
        have "7 * (length rest div 7) = length rest" using that by auto
        with False more have "1 < length rest div 7" by auto
        then show ?thesis by (intro exI [of _ "length rest div 7 - 2"]) simp
      qed
      ultimately show ?thesis using fd prems False more
        by (auto simp: cf_frames_step)
    qed
  qed
qed

lemma feed_first_frame:
  assumes "7 < length msg" "length msg \<le> ISOTP_MAX_MESSAGE"
  shows "feed l (pad8 ((0x10 OR of_nat (length msg div 256)) # of_nat (length msg mod 256)
                 # take ISOTP_FF_MAX msg)) =
     Ret (if length msg \<le> length (il_buf l)
       then (Inr NeedFlowControl, l\<lparr>il_buf := take 6 msg @ drop 6 (il_buf l), il_filled := 6,
             il_total := length msg, il_sn := 1, il_receiving := True\<rparr>)
       else (Inl Overflow, l))"
proof -
  note b = ff_len_bytes [of "length msg"]
  have len: "length msg \<le> 4095" using assms by (simp add: isotp_consts)
  have "length msg mod 256 < 256" by simp
  then have *: "push_bit 8 (length msg div 256) OR unat (of_nat (length msg mod 256) :: u8) = length msg"
    by (subst bit8) simp_all
  show ?thesis
    using assms(1) pci_nibbles [OF b(3) [OF len]] b(4) [OF len] *
    by (simp add: feed_def get_opt_def feed_first_def Let_def pad8_def isotp_consts)
qed

lemma feed_single_frame:
  assumes "length msg \<le> ISOTP_SF_MAX" "ISOTP_SF_MAX \<le> length (il_buf l)"
  shows "feed l (pad8 (of_nat (length msg) # msg)) =
     Ret (if msg = [] then (Inl InvalidPci, l)
       else (Inr (Complete msg),
             l\<lparr>il_buf := msg @ drop (length msg) (il_buf l), il_receiving := False\<rparr>))"
proof -
  have u: "unat (of_nat (length msg) :: u8) = length msg" using assms by (simp add: isotp_consts)
  then have "unat (of_nat (length msg) :: u8) < 16" using assms by (simp add: isotp_consts)
  note n = pci_nibbles(5,6) [OF this]
  show ?thesis
    using assms n u
    by (auto simp: feed_def get_opt_def feed_single_def Let_def pad8_def isotp_consts)
qed

text \<open>The message lengths that come through: a padded last frame is refused by \<open>feed\<close>.\<close>

definition isotp_deliverable :: "nat \<Rightarrow> bool" where
  "isotp_deliverable n \<longleftrightarrow> (if n \<le> ISOTP_SF_MAX then 0 < n else (n - ISOTP_FF_MAX) mod ISOTP_CF_MAX = 0)"

lemma feed_all_isotp_frames:
  assumes "length msg \<le> ISOTP_MAX_MESSAGE" "length msg \<le> N" "ISOTP_SF_MAX \<le> N"
  shows "\<exists>l'. feed_all (isotp_link_new N) (isotp_frames msg) = Ret
     (if msg = [] then Inl InvalidPci
      else if length msg \<le> ISOTP_SF_MAX then Inr [Complete msg]
      else if isotp_deliverable (length msg)
        then Inr (NeedFlowControl
                  # replicate ((length msg - ISOTP_FF_MAX) div ISOTP_CF_MAX - 1) Incomplete
                  @ [Complete msg])
      else Inl Overflow, l')"
proof (cases "length msg \<le> ISOTP_SF_MAX")
  case True
  then show ?thesis
    using assms feed_single_frame [of msg "isotp_link_new N"]
    by (auto simp: isotp_frames_def isotp_link_new_def isotp_deliverable_def)
next
  case long: False
  let ?l = "(isotp_link_new N)\<lparr>il_buf := take 6 msg @ drop 6 (il_buf (isotp_link_new N)),
      il_filled := 6, il_total := length msg, il_sn := 1, il_receiving := True\<rparr>"
  have len: "7 < length msg" using long by (simp add: isotp_consts)
  have ff: "feed (isotp_link_new N)
      (pad8 ((0x10 OR of_nat (length msg div 256)) # of_nat (length msg mod 256) # take ISOTP_FF_MAX msg))
    = Ret (Inr NeedFlowControl, ?l)"
    using feed_first_frame [OF len assms(1), of "isotp_link_new N"] assms(2)
    by (simp add: isotp_link_new_def)
  obtain l' where "feed_all ?l (cf_frames (il_sn ?l) (drop 6 msg)) =
    Ret (if length (drop 6 msg) mod 7 = 0
         then Inr (replicate (length (drop 6 msg) div 7 - 1) Incomplete
                   @ [Complete (take (il_filled ?l) (il_buf ?l) @ drop 6 msg)])
         else Inl Overflow, l')"
    using feed_cf_frames [of ?l "drop 6 msg"] len assms
    by (auto simp: isotp_link_new_def)
  then show ?thesis
    using long len ff
    by (auto simp: isotp_frames_def isotp_deliverable_def isotp_consts)
qed

section \<open>The invariant of a link and its panics\<close>

lemma isotp_inv_new: "isotp_inv (isotp_link_new N)"
  by (simp add: isotp_inv_def isotp_link_new_def)

lemma feed_preserves:
  assumes "isotp_inv l" "feed l frame = Ret (r, l')"
  shows "isotp_inv l' \<and> length (il_buf l') = length (il_buf l)"
  using assms unat_low_nibble [of "il_sn l + 1"]
  by (cases "get_opt frame 0")
    (auto simp: feed_def feed_single_def feed_first_def feed_consecutive_def Let_def isotp_inv_def
      outcome_bind_eq_Ret copy_into_def subslice_def slice_from_def split: if_splits)

lemma feed_single_returns:
  assumes "ISOTP_SF_MAX \<le> length (il_buf l)"
  shows "feed_single l b frame \<noteq> Panic"
  using assms by (auto simp: feed_single_def Let_def isotp_consts outcome_simps)

lemma feed_consecutive_returns:
  assumes "isotp_inv l" "frame \<noteq> []"
  shows "feed_consecutive l b frame \<noteq> Panic"
  using assms by (cases frame) (auto simp: feed_consecutive_def Let_def isotp_inv_def Suc_le_eq outcome_simps)

lemma feed_first_panics_iff:
  assumes "frame \<noteq> []"
  shows "feed_first l b frame = Panic \<longleftrightarrow>
    (let n = 256 * unat (b AND 0x0F) + unat (case get_opt frame 1 of None \<Rightarrow> 0 | Some c \<Rightarrow> c) in
       ISOTP_FF_MAX < n \<and> n \<le> length (il_buf l) \<and>
       (length frame = 1 \<or> length (il_buf l) + 2 < length frame))"
proof -
  have "unat (case get_opt frame 1 of None \<Rightarrow> 0 | Some c \<Rightarrow> c) < 256"
    using unsigned_less [of "case get_opt frame 1 of None \<Rightarrow> 0 | Some c \<Rightarrow> c" , where 'a = nat] by simp
  note b8 = bit8 [OF this, of "unat (b AND 0x0F)"]
  have "length frame = 1 \<or> 2 \<le> length frame"
    using assms by (cases frame; cases "tl frame") auto
  then show ?thesis
    using assms
    unfolding feed_first_def b8
    by (auto simp: Let_def outcome_simps)
qed

section \<open>A reference receiver\<close>

text \<open>
  The message that a sequence of frames carries: the First Frame announces the length, and the
  padding of the last frame lies beyond it.
\<close>

definition isotp_carried :: "u8 list list \<Rightarrow> u8 list option" where
  "isotp_carried fs =
     (case fs of
        [] \<Rightarrow> None
      | f # cfs \<Rightarrow>
          if drop_bit 4 (f ! 0) = 0 then Some (take (unat (f ! 0 AND 0x0F)) (drop 1 f))
          else if drop_bit 4 (f ! 0) = 1
            then Some (take (256 * unat (f ! 0 AND 0x0F) + unat (f ! 1))
                        (drop 2 f @ concat (map (drop 1) cfs)))
          else None)"

lemma concat_cf_frames: "\<exists>k. concat (map (drop 1) (cf_frames sn bs)) = bs @ replicate k 0"
proof (induction sn bs rule: cf_frames.induct)
  case (2 sn b bs)
  then obtain k where k: "concat (map (drop 1) (cf_frames ((sn + 1) AND 0x0F) (drop 7 (b # bs))))
      = drop 7 (b # bs) @ replicate k 0" by blast
  show ?case
  proof (cases "7 \<le> length (b # bs)")
    case True
    then show ?thesis using k by (intro exI [of _ k]) (simp add: pad8_def)
  next
    case False
    then have "drop 7 (b # bs) = []" "take 7 (b # bs) = b # bs" by simp_all
    then show ?thesis
      by (intro exI [of _ "8 - (length bs + 2)"]) (simp add: pad8_def)
  qed
qed simp

lemma length_cf_frame: "f \<in> set (cf_frames sn bs) \<Longrightarrow> length f = 8"
  by (induction sn bs rule: cf_frames.induct) auto

lemma isotp_frames_carry:
  assumes "length msg \<le> ISOTP_MAX_MESSAGE"
  shows "isotp_carried (isotp_frames msg) = Some msg"
proof (cases "length msg \<le> ISOTP_SF_MAX")
  case True
  then have u: "unat (of_nat (length msg) :: u8) = length msg" by (simp add: isotp_consts)
  then have "unat (of_nat (length msg) :: u8) < 16" using True by (simp add: isotp_consts)
  note n = pci_nibbles(5,6) [OF this]
  show ?thesis
    using True n u by (simp add: isotp_carried_def isotp_frames_def pad8_def)
next
  case False
  note b = ff_len_bytes [of "length msg"]
  have len: "length msg \<le> 4095" "7 < length msg" using assms False by (simp_all add: isotp_consts)
  obtain k where k: "concat (map (drop 1) (cf_frames 1 (drop 6 msg))) = drop 6 msg @ replicate k 0"
    using concat_cf_frames by blast
  have "take 6 msg @ drop 6 msg @ replicate k 0 = msg @ replicate k 0"
    by (metis append.assoc append_take_drop_id)
  then show ?thesis
    using False len k pci_nibbles [OF b(3) [OF len(1)]] b(4) [OF len(1)]
    by (simp add: isotp_carried_def isotp_frames_def pad8_def isotp_consts)
qed


section \<open>Properties\<close>

text \<open>\<open>encode_message\<close> returns for every message and output buffer. A message of more than 4095
  bytes is refused and the buffer kept; otherwise the frames written are those of a correct
  segmentation: 8 bytes each, as many as the length asks for, and they carry exactly the message.
  A buffer with too few slots is filled and \<open>BufferTooSmall\<close> returned.\<close>
theorem encode_message_segments:
  "if length msg > ISOTP_MAX_MESSAGE then encode_message msg out = Ret (Inl Overflow, out)
   else let n = (if length msg \<le> ISOTP_SF_MAX then 1 else 1 + (length msg - ISOTP_FF_MAX + 6) div 7) in
     length (isotp_frames msg) = n \<and>
     list_all (\<lambda>f. length f = 8) (isotp_frames msg) \<and>
     isotp_carried (isotp_frames msg) = Some msg \<and>
     encode_message msg out =
       Ret (if n \<le> length out then (Inr n, isotp_frames msg @ drop n out)
            else (Inl BufferTooSmall, take (length out) (isotp_frames msg)))"
  using isotp_frames_carry [of msg]
  by (auto simp: encode_message_eq Let_def isotp_frames_def length_cf_frames list_all_iff isotp_consts
      dest: length_cf_frame)

text \<open>C3: A transfer from end to end: a buffer with room for the frames gets a message encoded, and a receiver
  of capacity \<open>N\<close>, at least 7 and at least the message, whose length is at most 4095, makes of these frames the following. The message is delivered if it has 1 to 7 bytes,
  or more than 7 with the last consecutive frame full; a message whose last consecutive frame is padded
  ends in \<open>Overflow\<close>, because \<open>feed\<close> counts the padding as data, and the empty message in \<open>InvalidPci\<close>.\<close>
theorem isotp_transfer:
  assumes "length msg \<le> ISOTP_MAX_MESSAGE" "length msg \<le> N" "ISOTP_SF_MAX \<le> N"
    and "(if length msg \<le> ISOTP_SF_MAX then 1 else 1 + (length msg - ISOTP_FF_MAX + 6) div ISOTP_CF_MAX) \<le> length out"
  shows "\<exists>n out' l'. encode_message msg out = Ret (Inr n, out') \<and> feed_all (isotp_link_new N) (take n out') = Ret
     (if msg = [] then Inl InvalidPci
      else if length msg \<le> ISOTP_SF_MAX then Inr [Complete msg]
      else if isotp_deliverable (length msg)
        then Inr (NeedFlowControl
                  # replicate ((length msg - ISOTP_FF_MAX) div ISOTP_CF_MAX - 1) Incomplete
                  @ [Complete msg])
      else Inl Overflow, l')"
proof -
  have "length (isotp_frames msg) \<le> length out"
    using assms(4) by (auto simp: isotp_frames_def length_cf_frames isotp_consts split: if_splits)
  then have "encode_message msg out =
      Ret (Inr (length (isotp_frames msg)), isotp_frames msg @ drop (length (isotp_frames msg)) out)"
    using assms(1) by (simp add: encode_message_eq Let_def)
  then show ?thesis
    using feed_all_isotp_frames [OF assms(1-3)] by simp
qed

lemma isotp_transfer_witness:
  "\<exists>n out' l'. encode_message [1, 2, 3, 4, 5, 6, 7, 8] [[], []] = Ret (Inr n, out') \<and>
     feed_all (isotp_link_new 16) (take n out') = Ret (Inl Overflow, l')"
  using isotp_transfer [of "[1, 2, 3, 4, 5, 6, 7, 8]" 16 "[[], []]"]
  by (simp add: isotp_consts isotp_deliverable_def)

text \<open>Every call of \<open>feed\<close> that returns keeps the invariant of the link (sequence number below
  16, fill level and announced length within the buffer) and the capacity, whatever bytes arrive.\<close>
theorem feed_inv:
  assumes "isotp_inv l" "feed l frame = Ret (r, l')"
  shows "isotp_inv l' \<and> length (il_buf l') = length (il_buf l)"
  using assms by (rule feed_preserves)

lemma feed_inv_witness:
  "isotp_inv (isotp_link_new 16) \<and>
   isotp_inv \<lparr>il_buf = [9, 8, 0, 0, 0, 0, 0, 0], il_total = 0, il_filled = 0, il_sn = 0,
     il_receiving = False\<rparr>"
proof -
  have "feed (isotp_link_new 8) [2, 9, 8] = Ret (Inr (Complete [9, 8]),
     \<lparr>il_buf = [9, 8, 0, 0, 0, 0, 0, 0], il_total = 0, il_filled = 0, il_sn = 0,
       il_receiving = False\<rparr>)"
    by code_simp
  from feed_inv [OF isotp_inv_new this] show ?thesis
    by (simp add: isotp_inv_new)
qed

text \<open>C34: The frames on which \<open>feed\<close> panics, for a link that can hold a single frame: exactly the
  First Frames that announce an acceptable length but hold one byte only, or more data than the
  buffer has room for.\<close>
theorem feed_panics_iff:
  assumes "isotp_inv l" "ISOTP_SF_MAX \<le> length (il_buf l)"
  shows "feed l frame = Panic \<longleftrightarrow>
    (\<exists>b. get_opt frame 0 = Some b \<and> drop_bit 4 b = 1 \<and>
      (let n = 256 * unat (b AND 0x0F) + unat (case get_opt frame 1 of None \<Rightarrow> 0 | Some c \<Rightarrow> c) in
       ISOTP_FF_MAX < n \<and> n \<le> length (il_buf l) \<and>
       (length frame = 1 \<or> length (il_buf l) + 2 < length frame)))"
proof (cases "get_opt frame 0")
  case None
  then show ?thesis by (simp add: feed_def)
next
  case (Some b)
  then have "frame \<noteq> []" by (auto simp: get_opt_def)
  then show ?thesis
    using Some feed_single_returns [OF assms(2)] feed_consecutive_returns [OF assms(1)]
    by (simp add: feed_def Let_def feed_first_panics_iff)
qed

lemma feed_panics_iff_witness:
  "feed (isotp_link_new 256) [0x11] = Panic \<and> feed (isotp_link_new 256) [0x11, 0] \<noteq> Panic"
proof -
  have "get_opt [0x11 :: u8] 0 = Some 0x11" "get_opt [0x11 :: u8] 1 = None"
    "get_opt [0x11, 0 :: u8] 0 = Some 0x11" "get_opt [0x11, 0 :: u8] 1 = Some 0"
    "drop_bit 4 (0x11 :: u8) = 1" "unat (0x11 AND 0x0F :: u8) = 1"
    by (simp_all add: get_opt_def)
  then show ?thesis
    using isotp_inv_new feed_panics_iff [of "isotp_link_new 256" "[0x11]"]
      feed_panics_iff [of "isotp_link_new 256" "[0x11, 0]"]
    by (simp add: isotp_link_new_def isotp_consts)
qed

end
