(* ===== verification/Someip.thy ===== *)
theory Someip
  imports Vehicle_Bus
begin

text \<open>
  \<open>core/src/someip.rs\<close>: the SOME/IP header and message, their wire format, the transceiver trait as
  a record of operations, and the \<open>SomeIpBus\<close> implementation of \<open>VehicleBus\<close>. The declared length
  of a received message is a 32-bit number added to a \<open>usize\<close>, so decoding depends on the target.
\<close>


section \<open>Headers\<close>

definition SOMEIP_PROTOCOL_VERSION :: u8 where "SOMEIP_PROTOCOL_VERSION = 1"
definition SOMEIP_HEADER_LEN :: nat where "SOMEIP_HEADER_LEN = 16"
definition SOMEIP_MAX_PAYLOAD :: nat where "SOMEIP_MAX_PAYLOAD = 1024"

datatype someip_message_type =
    Request | RequestNoReturn | Notification | Response | ErrorResponse

fun message_type_to_u8 :: "someip_message_type \<Rightarrow> u8" where
  "message_type_to_u8 Request = 0x00"
| "message_type_to_u8 RequestNoReturn = 0x01"
| "message_type_to_u8 Notification = 0x02"
| "message_type_to_u8 Response = 0x80"
| "message_type_to_u8 ErrorResponse = 0x81"

definition message_type_from_u8 :: "u8 \<Rightarrow> someip_message_type option" where
  "message_type_from_u8 v =
     (if v = 0x00 then Some Request
      else if v = 0x01 then Some RequestNoReturn
      else if v = 0x02 then Some Notification
      else if v = 0x80 then Some Response
      else if v = 0x81 then Some ErrorResponse
      else None)"

datatype someip_return_code = E_Ok | E_NotOk | E_WrongProtocolVersion

fun return_code_to_u8 :: "someip_return_code \<Rightarrow> u8" where
  "return_code_to_u8 E_Ok = 0x00"
| "return_code_to_u8 E_NotOk = 0x01"
| "return_code_to_u8 E_WrongProtocolVersion = 0x02"

definition return_code_from_u8 :: "u8 \<Rightarrow> someip_return_code option" where
  "return_code_from_u8 v =
     (if v = 0x00 then Some E_Ok
      else if v = 0x01 then Some E_NotOk
      else if v = 0x02 then Some E_WrongProtocolVersion
      else None)"

record someip_message_id =
  mid_service :: u16
  mid_method :: u16

definition message_id_to_u32 :: "someip_message_id \<Rightarrow> u32" where
  "message_id_to_u32 i = push_bit 16 (ucast (mid_service i)) OR ucast (mid_method i)"

definition message_id_from_u32 :: "u32 \<Rightarrow> someip_message_id" where
  "message_id_from_u32 v = \<lparr>mid_service = ucast (drop_bit 16 v), mid_method = ucast (v AND 0xFFFF)\<rparr>"

record someip_request_id =
  rid_client :: u16
  rid_session :: u16

definition request_id_to_u32 :: "someip_request_id \<Rightarrow> u32" where
  "request_id_to_u32 i = push_bit 16 (ucast (rid_client i)) OR ucast (rid_session i)"

definition request_id_from_u32 :: "u32 \<Rightarrow> someip_request_id" where
  "request_id_from_u32 v = \<lparr>rid_client = ucast (drop_bit 16 v), rid_session = ucast (v AND 0xFFFF)\<rparr>"

record someip_header =
  sh_message_id :: someip_message_id
  sh_request_id :: someip_request_id
  sh_interface_version :: u8
  sh_message_type :: someip_message_type
  sh_return_code :: someip_return_code

definition length_field :: "target \<Rightarrow> nat \<Rightarrow> u32 outcome" where
  "length_field t payload_len =
     arith t (8 + payload_len mod 2 ^ 32 < 2 ^ 32) (4 + 4 + of_nat payload_len)"

definition header_encode :: "someip_header \<Rightarrow> u8 list \<Rightarrow> (unit option \<times> u8 list) outcome" where
  "header_encode h out =
     (if length out < SOMEIP_HEADER_LEN then Ret (None, out)
      else
        outcome_bind (copy_into out 0 4 (be_bytes32 (message_id_to_u32 (sh_message_id h)))) (\<lambda>out.
        outcome_bind (copy_into out 8 12 (be_bytes32 (request_id_to_u32 (sh_request_id h)))) (\<lambda>out.
        outcome_bind (store_at out 12 SOMEIP_PROTOCOL_VERSION) (\<lambda>out.
        outcome_bind (store_at out 13 (sh_interface_version h)) (\<lambda>out.
        outcome_bind (store_at out 14 (message_type_to_u8 (sh_message_type h))) (\<lambda>out.
        outcome_bind (store_at out 15 (return_code_to_u8 (sh_return_code h))) (\<lambda>out.
        Ret (Some (), out))))))))"

text \<open>The indices below are covered by the length check.\<close>

definition header_decode :: "u8 list \<Rightarrow> someip_header option" where
  "header_decode bytes =
     (if length bytes < SOMEIP_HEADER_LEN then None
      else
        let mid = message_id_from_u32 (from_be32 (bytes ! 0) (bytes ! 1) (bytes ! 2) (bytes ! 3));
            rid = request_id_from_u32 (from_be32 (bytes ! 8) (bytes ! 9) (bytes ! 10) (bytes ! 11))
        in
        case message_type_from_u8 (bytes ! 14) of
          None \<Rightarrow> None
        | Some mt \<Rightarrow>
            (case return_code_from_u8 (bytes ! 15) of
               None \<Rightarrow> None
             | Some rc \<Rightarrow>
                 Some \<lparr>sh_message_id = mid, sh_request_id = rid, sh_interface_version = bytes ! 13,
                       sh_message_type = mt, sh_return_code = rc\<rparr>))"


section \<open>Messages\<close>

record someip_message =
  sm_header :: someip_header
  sm_payload :: "u8 list"
  sm_payload_len :: u16

definition someip_message_new :: "someip_header \<Rightarrow> u8 list \<Rightarrow> someip_message option outcome" where
  "someip_message_new h payload =
     (if length payload > SOMEIP_MAX_PAYLOAD then Ret None
      else outcome_bind (copy_into (replicate SOMEIP_MAX_PAYLOAD 0) 0 (length payload) payload) (\<lambda>buf.
        Ret (Some \<lparr>sm_header = h, sm_payload = buf, sm_payload_len = of_nat (length payload)\<rparr>)))"

definition someip_payload :: "someip_message \<Rightarrow> u8 list outcome" where
  "someip_payload m = slice_to (sm_payload m) (unat (sm_payload_len m))"

text \<open>The public constructor \<open>new\<close> is the only one outside the tests.\<close>

definition someip_message_ok :: "someip_message \<Rightarrow> bool" where
  "someip_message_ok m \<longleftrightarrow>
     unat (sm_payload_len m) \<le> SOMEIP_MAX_PAYLOAD \<and> length (sm_payload m) = SOMEIP_MAX_PAYLOAD \<and>
     drop (unat (sm_payload_len m)) (sm_payload m) =
       replicate (SOMEIP_MAX_PAYLOAD - unat (sm_payload_len m)) 0"

definition someip_encode ::
  "target \<Rightarrow> someip_message \<Rightarrow> u8 list \<Rightarrow> (nat option \<times> u8 list) outcome" where
  "someip_encode t m out =
     (let total = SOMEIP_HEADER_LEN + unat (sm_payload_len m) in
      if length out < total then Ret (None, out)
      else
        outcome_bind (length_field t (unat (sm_payload_len m))) (\<lambda>len.
        outcome_bind (copy_into out 4 8 (be_bytes32 len)) (\<lambda>out.
        outcome_bind (slice_to out SOMEIP_HEADER_LEN) (\<lambda>head.
        outcome_bind (header_encode (sm_header m) head) (\<lambda>(r, head).
        let out = head @ drop SOMEIP_HEADER_LEN out in
        case r of
          None \<Rightarrow> Ret (None, out)
        | Some _ \<Rightarrow>
            outcome_bind (someip_payload m) (\<lambda>p.
            outcome_bind (copy_into out SOMEIP_HEADER_LEN total p) (\<lambda>out.
            Ret (Some total, out))))))))"

definition someip_decode :: "target \<Rightarrow> u8 list \<Rightarrow> someip_message option outcome" where
  "someip_decode t bytes =
     (if length bytes < SOMEIP_HEADER_LEN then Ret None
      else
        case header_decode bytes of
          None \<Rightarrow> Ret None
        | Some h \<Rightarrow>
            let declared_len = unat (from_be32 (bytes ! 4) (bytes ! 5) (bytes ! 6) (bytes ! 7))
                                 mod 2 ^ usize_bits t
            in if declared_len < 8 then Ret None
            else
              outcome_bind (usize_add t SOMEIP_HEADER_LEN (declared_len - 8)) (\<lambda>expected_total.
              if length bytes < expected_total then Ret None
              else if sh_message_type h = Request \<and> bytes ! 12 \<noteq> SOMEIP_PROTOCOL_VERSION
                then Ret None
              else
                outcome_bind (subslice bytes SOMEIP_HEADER_LEN expected_total) (\<lambda>payload.
                someip_message_new h payload)))"

definition someip_message_len :: "someip_message \<Rightarrow> nat" where
  "someip_message_len m = SOMEIP_HEADER_LEN + unat (sm_payload_len m)"

definition someip_validate_message :: "someip_message \<Rightarrow> error + unit" where
  "someip_validate_message m =
     (if unat (sm_payload_len m) > SOMEIP_MAX_PAYLOAD then Inl InvalidArgument
      else if sh_message_type (sm_header m) = Request \<and> mid_service (sh_message_id (sm_header m)) = 0
        then Inl InvalidArgument
      else Inr ())"


section \<open>The bus\<close>

record 't someip_transceiver =
  st_send :: "'t \<Rightarrow> someip_message \<Rightarrow> (bus_error + unit) \<times> 't"
  st_recv :: "'t \<Rightarrow> (bus_error + someip_message) \<times> 't"
  st_has_received :: "'t \<Rightarrow> bool"
  st_can_send :: "'t \<Rightarrow> bool"

record 't someip_bus =
  sb_transceiver :: 't

definition someip_bus_new :: "'t \<Rightarrow> 't someip_bus" where
  "someip_bus_new t = \<lparr>sb_transceiver = t\<rparr>"

fun invalid_message_err :: "error \<Rightarrow> bus_error" where
  "invalid_message_err InvalidArgument = InvalidFrame"
| "invalid_message_err e = BusCore e"

definition someip_bus_transmit ::
  "'t someip_transceiver \<Rightarrow> 't someip_bus \<Rightarrow> someip_message \<Rightarrow> (bus_error + unit) \<times> 't someip_bus"
where
  "someip_bus_transmit T b f =
     (case map_err invalid_message_err (someip_validate_message f) of
        Inl e \<Rightarrow> (Inl e, b)
      | Inr _ \<Rightarrow> let (r, t) = st_send T (sb_transceiver b) f in (r, b\<lparr>sb_transceiver := t\<rparr>))"

definition someip_bus_receive ::
  "'t someip_transceiver \<Rightarrow> 't someip_bus \<Rightarrow> (bus_error + someip_message) \<times> 't someip_bus" where
  "someip_bus_receive T b =
     (let (r, t) = st_recv T (sb_transceiver b) in (r, b\<lparr>sb_transceiver := t\<rparr>))"

definition someip_bus_can_receive :: "'t someip_transceiver \<Rightarrow> 't someip_bus \<Rightarrow> bool" where
  "someip_bus_can_receive T b = st_has_received T (sb_transceiver b)"

definition someip_bus_can_transmit :: "'t someip_transceiver \<Rightarrow> 't someip_bus \<Rightarrow> bool" where
  "someip_bus_can_transmit T b = st_can_send T (sb_transceiver b)"

definition someip_vehicle_bus ::
  "'t someip_transceiver \<Rightarrow> ('t someip_bus, someip_message) vehicle_bus" where
  "someip_vehicle_bus T =
     \<lparr>vb_transmit = someip_bus_transmit T, vb_receive = someip_bus_receive T,
      vb_can_receive = someip_bus_can_receive T, vb_can_transmit = someip_bus_can_transmit T\<rparr>"

lemmas someip_bus_defs =
  someip_vehicle_bus_def someip_bus_transmit_def someip_bus_receive_def
  someip_bus_can_receive_def someip_bus_can_transmit_def

lemma someip_validate_message_map_err:
  "map_err invalid_message_err (someip_validate_message f) \<noteq> Inr () \<Longrightarrow>
   map_err invalid_message_err (someip_validate_message f) = Inl InvalidFrame"
  by (auto simp: someip_validate_message_def split: if_splits)

locale someip_backend =
  transceiver_spec "st_send T" "st_recv T" "st_has_received T" "st_can_send T" pending invar
  for T :: "'t someip_transceiver" and pending :: "'t \<Rightarrow> someip_message list"
    and invar :: "'t \<Rightarrow> bool"

sublocale someip_backend \<subseteq> bus: validating_bus "st_send T" "st_recv T" "st_has_received T"
  "st_can_send T" pending invar "someip_vehicle_bus T" sb_transceiver
  "\<lambda>t b. b\<lparr>sb_transceiver := t\<rparr>" "\<lambda>f. map_err invalid_message_err (someip_validate_message f)"
  by unfold_locales (auto simp: someip_bus_defs someip_validate_message_map_err)


section \<open>Codes and identifiers on the wire\<close>

lemma message_type_roundtrip [wire_simps]: "message_type_from_u8 (message_type_to_u8 m) = Some m"
  by (cases m) (simp_all add: message_type_from_u8_def)

lemma message_type_from_u8_eq: "message_type_from_u8 v = Some m \<longleftrightarrow> message_type_to_u8 m = v"
  by (cases m) (auto simp: message_type_from_u8_def)

lemma return_code_roundtrip [wire_simps]: "return_code_from_u8 (return_code_to_u8 c) = Some c"
  by (cases c) (simp_all add: return_code_from_u8_def)

lemma return_code_from_u8_eq: "return_code_from_u8 v = Some c \<longleftrightarrow> return_code_to_u8 c = v"
  by (cases c) (auto simp: return_code_from_u8_def)

lemma join_halves:
  "ucast (drop_bit 16 (push_bit 16 (ucast a) OR ucast (b :: u16) :: u32)) = (a :: u16)"
  "ucast ((push_bit 16 (ucast a) OR ucast b :: u32) AND 0xFFFF) = b"
  "push_bit 16 (ucast (ucast (drop_bit 16 v) :: u16)) OR ucast (ucast (v AND 0xFFFF) :: u16) = (v :: u32)"
proof -
  have m: "(0xFFFF :: u32) = mask 16" by (simp add: mask_eq_exp_minus_1)
  show "ucast (drop_bit 16 (push_bit 16 (ucast a) OR ucast b :: u32)) = a"
    by (rule bit_word_eqI) (auto simp: bit_simps dest: bit_imp_le_length)
  show "ucast ((push_bit 16 (ucast a) OR ucast b :: u32) AND 0xFFFF) = b"
    unfolding m by (rule bit_word_eqI) (auto simp: bit_simps)
  show "push_bit 16 (ucast (ucast (drop_bit 16 v) :: u16)) OR ucast (ucast (v AND 0xFFFF) :: u16) = v"
    unfolding m by (rule bit_word_eqI) (auto simp: bit_simps)
qed

lemma message_id_roundtrip [wire_simps]:
  "message_id_from_u32 (message_id_to_u32 i) = i" "message_id_to_u32 (message_id_from_u32 v) = v"
  by (simp_all add: message_id_from_u32_def message_id_to_u32_def join_halves del: drop_bit_or)

lemma request_id_roundtrip [wire_simps]:
  "request_id_from_u32 (request_id_to_u32 i) = i" "request_id_to_u32 (request_id_from_u32 v) = v"
  by (simp_all add: request_id_from_u32_def request_id_to_u32_def join_halves del: drop_bit_or)


section \<open>The wire format\<close>

lemma length_field_eq [simp]:
  "length_field t (unat (n :: u16)) = Ret (8 + ucast n)"
proof -
  have "unat n < 65536" using unsigned_less [of n, where 'a = nat] by simp
  then show ?thesis by (simp add: length_field_def)
qed

text \<open>The bytes of a message: the layout of the SOME/IP specification.\<close>

definition someip_wire :: "someip_message \<Rightarrow> u8 list" where
  "someip_wire m =
     (let h = sm_header m in
      be_bytes32 (message_id_to_u32 (sh_message_id h)) @
      be_bytes32 (8 + ucast (sm_payload_len m)) @
      be_bytes32 (request_id_to_u32 (sh_request_id h)) @
      [SOMEIP_PROTOCOL_VERSION, sh_interface_version h, message_type_to_u8 (sh_message_type h),
       return_code_to_u8 (sh_return_code h)] @
      take (unat (sm_payload_len m)) (sm_payload m))"

lemma header_encode_eq:
  assumes "length a = 4" "length b = 4" "length c = 4" "length d = 4"
  shows "header_encode h (a @ b @ c @ d) =
    Ret (Some (), be_bytes32 (message_id_to_u32 (sh_message_id h)) @ b @
      be_bytes32 (request_id_to_u32 (sh_request_id h)) @
      [SOMEIP_PROTOCOL_VERSION, sh_interface_version h, message_type_to_u8 (sh_message_type h),
       return_code_to_u8 (sh_return_code h)])"
proof -
  obtain d0 d1 d2 d3 where "d = [d0, d1, d2, d3]"
    using assms(4) by (auto simp: numeral_eq_Suc length_Suc_conv)
  then show ?thesis
    using assms(1-3) by (simp add: header_encode_def SOMEIP_HEADER_LEN_def nth_append list_update_append)
qed

lemma take_four_parts:
  "take (a + b + c + d) xs = take a xs @ take b (drop a xs) @ take c (drop (a + b) xs) @ take d (drop (a + b + c) xs)"
  by (simp add: take_add add.commute add.left_commute)

lemma split16:
  assumes "16 \<le> length out"
  obtains a b c d where "take 16 out = a @ b @ c @ d" "length a = 4" "length b = 4" "length c = 4"
    "length d = 4" "take 4 out = a" "take 4 (drop 4 out) = b"
proof
  show "take 16 out = take 4 out @ take 4 (drop 4 out) @ take 4 (drop 8 out) @ take 4 (drop 12 out)"
    using take_four_parts [of 4 4 4 4 out] by simp
qed (use assms in simp_all)

lemma someip_encode_eq:
  assumes "someip_message_ok m"
  shows "someip_encode t m out =
     (let total = SOMEIP_HEADER_LEN + unat (sm_payload_len m) in
      Ret (if length out < total then (None, out) else (Some total, someip_wire m @ drop total out)))"
proof (cases "length out < SOMEIP_HEADER_LEN + unat (sm_payload_len m)")
  case True
  then show ?thesis by (simp add: someip_encode_def)
next
  case False
  then have 16: "16 \<le> length out" by (simp add: SOMEIP_HEADER_LEN_def)
  then obtain a b c d where abcd: "take 16 out = a @ b @ c @ d" "length a = 4" "length b = 4" "length c = 4"
    "length d = 4" by (rule split16)
  define r where "r = drop 16 out"
  have out: "out = a @ b @ c @ d @ r"
    by (metis abcd(1) append.assoc append_take_drop_id r_def)
  have len: "unat (sm_payload_len m) \<le> 1024" "length (sm_payload m) = 1024"
    using assms by (simp_all add: someip_message_ok_def SOMEIP_MAX_PAYLOAD_def)
  have r: "unat (sm_payload_len m) \<le> length r"
    using False 16 by (simp add: r_def SOMEIP_HEADER_LEN_def)
  have "drop (4 + n) (w # x # y # z # r) = drop n r" for n w x y z
    by (simp add: numeral_eq_Suc)
  then show ?thesis
    using abcd(2-) len r unfolding out someip_encode_def
    by (simp add: header_encode_eq SOMEIP_HEADER_LEN_def someip_payload_def someip_wire_def Let_def)
qed

lemma length_someip_wire:
  "someip_message_ok m \<Longrightarrow> length (someip_wire m) = SOMEIP_HEADER_LEN + unat (sm_payload_len m)"
  by (simp add: someip_wire_def someip_message_ok_def Let_def SOMEIP_HEADER_LEN_def)

lemma someip_message_new_eq:
  assumes "someip_message_ok m"
  shows "someip_message_new (sm_header m) (take (unat (sm_payload_len m)) (sm_payload m)) = Ret (Some m)"
proof -
  have len: "unat (sm_payload_len m) \<le> 1024" "length (sm_payload m) = 1024"
    "replicate (1024 - unat (sm_payload_len m)) 0 = drop (unat (sm_payload_len m)) (sm_payload m)"
    using assms by (simp_all add: someip_message_ok_def SOMEIP_MAX_PAYLOAD_def)
  then show ?thesis
    by (simp add: someip_message_new_def SOMEIP_MAX_PAYLOAD_def min_absorb2)
qed

lemma someip_message_new_ok:
  assumes "someip_message_new h p = Ret (Some m)"
  shows "someip_message_ok m \<and> sm_header m = h \<and> someip_payload m = Ret p \<and>
    unat (sm_payload_len m) = length p"
  using assms by (auto simp: someip_message_new_def someip_message_ok_def SOMEIP_MAX_PAYLOAD_def
      someip_payload_def outcome_simps split: if_splits)

lemma someip_message_new_returns: "someip_message_new h p \<noteq> Panic"
  by (simp add: someip_message_new_def SOMEIP_MAX_PAYLOAD_def)

lemma header_decode_wire:
  "header_decode (someip_wire m @ rest) = Some (sm_header m)"
proof -
  have "sm_header m = \<lparr>sh_message_id = sh_message_id (sm_header m), sh_request_id = sh_request_id (sm_header m),
    sh_interface_version = sh_interface_version (sm_header m), sh_message_type = sh_message_type (sm_header m),
    sh_return_code = sh_return_code (sm_header m)\<rparr>" by simp
  then show ?thesis
    by (simp add: header_decode_def someip_wire_def SOMEIP_HEADER_LEN_def Let_def be_bytes32_def wire_simps)
qed

lemma someip_decode_wire:
  assumes "someip_message_ok m" "32 \<le> usize_bits t"
  shows "someip_decode t (someip_wire m @ rest) = Ret (Some m)"
proof -
  let ?n = "unat (sm_payload_len m)"
  have n: "?n \<le> 1024" "length (sm_payload m) = 1024"
    using assms(1) by (simp_all add: someip_message_ok_def SOMEIP_MAX_PAYLOAD_def)
  have big: "(2 :: nat) ^ 32 \<le> 2 ^ usize_bits t" using assms(2) by (intro power_increasing) simp_all
  have "take_bit 32 ?n = ?n" using n by (intro take_bit_nat_eq_self) simp
  then have "unat (8 + ucast (sm_payload_len m) :: u32) = 8 + ?n"
    using n by (simp add: unat_word_ariths unsigned_ucast_eq)
  moreover have "(someip_wire m @ rest) ! 4 = ucast (drop_bit 24 (8 + ucast (sm_payload_len m) :: u32))"
    "(someip_wire m @ rest) ! 5 = ucast (drop_bit 16 (8 + ucast (sm_payload_len m) :: u32))"
    "(someip_wire m @ rest) ! 6 = ucast (drop_bit 8 (8 + ucast (sm_payload_len m) :: u32))"
    "(someip_wire m @ rest) ! 7 = ucast (8 + ucast (sm_payload_len m) :: u32)"
    "(someip_wire m @ rest) ! 12 = SOMEIP_PROTOCOL_VERSION"
    by (simp_all add: someip_wire_def Let_def be_bytes32_def)
  moreover have "take ?n (drop 16 (someip_wire m @ rest)) = take ?n (sm_payload m)"
    using assms(1) by (simp add: someip_wire_def Let_def someip_message_ok_def)
  ultimately show ?thesis
    using n big assms length_someip_wire [OF assms(1)]
    by (simp add: someip_decode_def header_decode_wire Let_def wire_simps SOMEIP_HEADER_LEN_def
        someip_message_new_eq)
qed

lemma split_header:
  assumes "\<not> length bytes < SOMEIP_HEADER_LEN"
  obtains b0 b1 b2 b3 b4 b5 b6 b7 b8 b9 b10 b11 b12 b13 b14 b15 rest where
    "bytes = b0 # b1 # b2 # b3 # b4 # b5 # b6 # b7 # b8 # b9 # b10 # b11 # b12 # b13 # b14 # b15 # rest"
  using assms by (auto simp: SOMEIP_HEADER_LEN_def numeral_eq_Suc Suc_le_length_iff not_less)

section \<open>What \<open>decode\<close> accepts\<close>

text \<open>The declared length of a message, and what \<open>decode\<close> does with it.\<close>

definition declared_length :: "u8 list \<Rightarrow> nat" where
  "declared_length bytes = unat (from_be32 (bytes ! 4) (bytes ! 5) (bytes ! 6) (bytes ! 7))"

lemma declared_length_less: "declared_length bytes < 2 ^ 32"
  using unsigned_less [of "from_be32 (bytes ! 4) (bytes ! 5) (bytes ! 6) (bytes ! 7)", where 'a = nat]
  by (simp add: declared_length_def)

lemma someip_decode_cases:
  assumes "32 \<le> usize_bits t" "header_decode bytes = Some h"
  shows "someip_decode t bytes =
    (let n = declared_length bytes in
     if n < 8 then Ret None
     else if n + 8 < 2 ^ usize_bits t then
       if length bytes < n + 8 \<or> (sh_message_type h = Request \<and> bytes ! 12 \<noteq> SOMEIP_PROTOCOL_VERSION)
         \<or> n - 8 > SOMEIP_MAX_PAYLOAD
       then Ret None
       else someip_message_new h (take (n - 8) (drop SOMEIP_HEADER_LEN bytes))
     else if overflow_checks t \<or> \<not> (sh_message_type h = Request \<and> bytes ! 12 \<noteq> SOMEIP_PROTOCOL_VERSION)
       then Panic
     else Ret None)"
proof -
  let ?n = "declared_length bytes"
  have big: "(2 :: nat) ^ 32 \<le> 2 ^ usize_bits t" using assms(1) by (intro power_increasing) simp_all
  have len: "\<not> length bytes < SOMEIP_HEADER_LEN"
    using assms(2) by (auto simp: header_decode_def)
  have n: "unat (from_be32 (bytes ! 4) (bytes ! 5) (bytes ! 6) (bytes ! 7)) mod 2 ^ usize_bits t = ?n"
    using declared_length_less [of bytes] big by (simp add: declared_length_def)
  have dec: "someip_decode t bytes =
    (if ?n < 8 then Ret None else outcome_bind (usize_add t SOMEIP_HEADER_LEN (?n - 8)) (\<lambda>total.
              if length bytes < total then Ret None
              else if sh_message_type h = Request \<and> bytes ! 12 \<noteq> SOMEIP_PROTOCOL_VERSION
                then Ret None
              else
                outcome_bind (subslice bytes SOMEIP_HEADER_LEN total) (\<lambda>payload.
                someip_message_new h payload)))"
    unfolding someip_decode_def Let_def n using assms(2) len by simp
  consider "?n < 8" | "8 \<le> ?n" "?n + 8 < 2 ^ usize_bits t" | "8 \<le> ?n" "2 ^ usize_bits t \<le> ?n + 8"
    by linarith
  then show ?thesis
  proof cases
    case 1
    then show ?thesis by (simp add: dec)
  next
    case 2
    then show ?thesis
      by (auto simp: dec SOMEIP_HEADER_LEN_def someip_message_new_def add.commute)
  next
    case 3
    have "(?n + 8) mod 2 ^ usize_bits t = ?n + 8 - 2 ^ usize_bits t"
      using 3 big declared_length_less [of bytes] by (subst mod_if) simp
    also have "\<dots> < 8" using big declared_length_less [of bytes] by simp
    finally have w: "(?n + 8) mod 2 ^ usize_bits t < 8" .
    have "usize_add t SOMEIP_HEADER_LEN (?n - 8) = 
       (if overflow_checks t then Panic else Ret ((?n + 8) mod 2 ^ usize_bits t))"
      using 3 by (simp add: usize_add_def arith_def SOMEIP_HEADER_LEN_def add.commute)
    then show ?thesis
      using 3 w len by (simp add: dec subslice_def SOMEIP_HEADER_LEN_def)
  qed
qed

lemma someip_decode_Some:
  assumes "32 \<le> usize_bits t" "someip_decode t bytes = Ret (Some m)"
  shows "someip_message_ok m \<and>
    declared_length bytes = 8 + unat (sm_payload_len m) \<and>
    SOMEIP_HEADER_LEN + unat (sm_payload_len m) \<le> length bytes \<and>
    someip_wire m = (take (SOMEIP_HEADER_LEN + unat (sm_payload_len m)) bytes)
      [12 := SOMEIP_PROTOCOL_VERSION]"
proof -
  have len: "\<not> length bytes < SOMEIP_HEADER_LEN"
    using assms(2) by (auto simp: someip_decode_def)
  obtain h where h: "header_decode bytes = Some h"
    using assms(2) len by (cases "header_decode bytes") (auto simp: someip_decode_def)
  let ?n = "declared_length bytes"
  from assms(2) have *: "8 \<le> ?n" "?n + 8 \<le> length bytes" "?n - 8 \<le> 1024"
    "someip_message_new h (take (?n - 8) (drop 16 bytes)) = Ret (Some m)"
    unfolding someip_decode_cases [OF assms(1) h]
    by (auto simp: Let_def SOMEIP_HEADER_LEN_def SOMEIP_MAX_PAYLOAD_def split: if_splits)
  note ok = someip_message_new_ok [OF *(4)]
  then have pl: "unat (sm_payload_len m) = ?n - 8" using * by simp
  obtain b0 b1 b2 b3 b4 b5 b6 b7 b8 b9 b10 b11 b12 b13 b14 b15 rest where b:
    "bytes = b0 # b1 # b2 # b3 # b4 # b5 # b6 # b7 # b8 # b9 # b10 # b11 # b12 # b13 # b14 # b15 # rest"
    using len by (rule split_header)
  have "take_bit 32 (unat (sm_payload_len m)) = unat (sm_payload_len m)"
    using pl *(3) by (intro take_bit_nat_eq_self) simp
  then have "unat (8 + ucast (sm_payload_len m) :: u32) = ?n"
    using pl *(1,3) by (simp add: unat_word_ariths unsigned_ucast_eq)
  then have lf: "8 + ucast (sm_payload_len m) = from_be32 b4 b5 b6 b7"
    unfolding b declared_length_def by (simp add: word_unat_eq_iff)
  have hd: "be_bytes32 (message_id_to_u32 (sh_message_id h)) = [b0, b1, b2, b3]"
    "be_bytes32 (request_id_to_u32 (sh_request_id h)) = [b8, b9, b10, b11]"
    "sh_interface_version h = b13" "message_type_to_u8 (sh_message_type h) = b14"
    "return_code_to_u8 (sh_return_code h) = b15"
    using h unfolding b
    by (auto simp: header_decode_def Let_def SOMEIP_HEADER_LEN_def wire_simps message_type_from_u8_eq
        return_code_from_u8_eq split: option.splits)
  have "take (unat (sm_payload_len m)) (sm_payload m) = take (?n - 8) rest"
    using ok *(1-3) pl unfolding b someip_payload_def
    by (simp add: outcome_simps)
  moreover have "take (16 + unat (sm_payload_len m)) bytes =
    b0 # b1 # b2 # b3 # b4 # b5 # b6 # b7 # b8 # b9 # b10 # b11 # b12 # b13 # b14 # b15 # take (?n - 8) rest"
    unfolding b pl by (simp add: numeral_eq_Suc)
  moreover have "(b0 # b1 # b2 # b3 # b4 # b5 # b6 # b7 # b8 # b9 # b10 # b11 # b12 # xs)[12 := v] =
    b0 # b1 # b2 # b3 # b4 # b5 # b6 # b7 # b8 # b9 # b10 # b11 # v # xs" for xs v
    by (simp add: numeral_eq_Suc)
  ultimately show ?thesis
    using ok *(1,2) pl hd unfolding someip_wire_def Let_def lf
    by (simp add: be_bytes32_from_be32 SOMEIP_HEADER_LEN_def)
qed


section \<open>Properties\<close>

text \<open>C4: Encoding and decoding are inverse: a message built by \<open>new\<close> and encoded into a large
  enough buffer is written in its wire layout, the rest of the buffer is kept, and decoding the
  buffer, whatever follows the message in it, gives the message back.\<close>
theorem someip_roundtrip:
  assumes "someip_message_new h p = Ret (Some m)" "32 \<le> usize_bits t"
    and "SOMEIP_HEADER_LEN + length p \<le> length out"
  shows "let total = SOMEIP_HEADER_LEN + length p in
    someip_encode t m out = Ret (Some total, someip_wire m @ drop total out) \<and>
    length (someip_wire m) = total \<and>
    someip_decode t (someip_wire m @ drop total out) = Ret (Some m) \<and>
    someip_payload m = Ret p"
  using assms someip_message_new_ok [OF assms(1)]
  by (simp add: Let_def someip_encode_eq length_someip_wire someip_decode_wire)

lemma someip_roundtrip_witness:
  "\<exists>m. someip_encode mcu_release m (replicate 20 7) = Ret (Some 18, someip_wire m @ [7, 7]) \<and>
     someip_decode mcu_release (someip_wire m @ [7, 7]) = Ret (Some m) \<and> someip_payload m = Ret [1, 2]"
proof -
  let ?h = "\<lparr>sh_message_id = \<lparr>mid_service = 0x1234, mid_method = 0x8001\<rparr>,
    sh_request_id = \<lparr>rid_client = 1, rid_session = 2\<rparr>, sh_interface_version = 1,
    sh_message_type = Request, sh_return_code = E_Ok\<rparr>"
  obtain m where "someip_message_new ?h [1, 2] = Ret (Some m)"
    by (simp add: someip_message_new_def SOMEIP_MAX_PAYLOAD_def)
  from someip_roundtrip [OF this, of mcu_release "replicate 20 7"] show ?thesis
    by (auto simp: Let_def mcu_release_def SOMEIP_HEADER_LEN_def numeral_eq_Suc)
qed

text \<open>The protocol version is looked at in requests only.\<close>

lemma header_decode_version [simp]: "header_decode (bytes[12 := v]) = header_decode bytes"
  by (simp add: header_decode_def cong: option.case_cong)

lemma decode_version:
  assumes "32 \<le> usize_bits t" "header_decode bytes = Some h"
    and "sh_message_type h = Request \<longrightarrow> bytes ! 12 = SOMEIP_PROTOCOL_VERSION"
  shows "someip_decode t (bytes[12 := SOMEIP_PROTOCOL_VERSION]) = someip_decode t bytes"
proof -
  have len: "12 < length bytes" using assms(2) by (auto simp: header_decode_def SOMEIP_HEADER_LEN_def split: if_splits)
  let ?b = "bytes[12 := SOMEIP_PROTOCOL_VERSION]"
  have "header_decode ?b = Some h" using assms(2) by simp
  note eqs = someip_decode_cases [OF assms(1) this] someip_decode_cases [OF assms(1,2)]
  have "drop SOMEIP_HEADER_LEN ?b = drop SOMEIP_HEADER_LEN bytes" "declared_length ?b = declared_length bytes"
    "?b ! 12 = SOMEIP_PROTOCOL_VERSION" using len by (simp_all add: declared_length_def SOMEIP_HEADER_LEN_def)
  then show ?thesis unfolding eqs using assms(3) by (auto simp: Let_def)
qed

lemma decoded_version:
  assumes "32 \<le> usize_bits t" "someip_decode t bytes = Ret (Some m)"
  shows "sh_message_type (sm_header m) = Request \<longrightarrow> bytes ! 12 = SOMEIP_PROTOCOL_VERSION"
proof -
  have "\<not> length bytes < SOMEIP_HEADER_LEN" using assms(2) by (auto simp: someip_decode_def)
  then obtain h where h: "header_decode bytes = Some h"
    using assms(2) by (cases "header_decode bytes") (auto simp: someip_decode_def)
  from assms(2) obtain p where "someip_message_new h p = Ret (Some m)"
    "sh_message_type h = Request \<longrightarrow> bytes ! 12 = SOMEIP_PROTOCOL_VERSION"
    unfolding someip_decode_cases [OF assms(1) h] by (auto simp: Let_def split: if_splits)
  with someip_message_new_ok show ?thesis by blast
qed

text \<open>C22: What \<open>decode\<close> accepts, and as which message: exactly the buffers that begin with the encoding of a
  well-formed message whose declared length is the true one, up to the protocol version, which only
  requests must carry correctly.\<close>
theorem someip_decode_sound:
  assumes "32 \<le> usize_bits t"
  shows "someip_decode t bytes = Ret (Some m) \<longleftrightarrow>
    someip_message_ok m \<and>
    declared_length bytes = 8 + unat (sm_payload_len m) \<and>
    SOMEIP_HEADER_LEN + unat (sm_payload_len m) \<le> length bytes \<and>
    someip_wire m = (take (SOMEIP_HEADER_LEN + unat (sm_payload_len m)) bytes)
      [12 := SOMEIP_PROTOCOL_VERSION] \<and>
    (sh_message_type (sm_header m) = Request \<longrightarrow> bytes ! 12 = SOMEIP_PROTOCOL_VERSION)"
proof
  assume "someip_decode t bytes = Ret (Some m)"
  with someip_decode_Some [OF assms this] decoded_version [OF assms this] show "someip_message_ok m \<and>
    declared_length bytes = 8 + unat (sm_payload_len m) \<and>
    SOMEIP_HEADER_LEN + unat (sm_payload_len m) \<le> length bytes \<and>
    someip_wire m = (take (SOMEIP_HEADER_LEN + unat (sm_payload_len m)) bytes)
      [12 := SOMEIP_PROTOCOL_VERSION] \<and>
    (sh_message_type (sm_header m) = Request \<longrightarrow> bytes ! 12 = SOMEIP_PROTOCOL_VERSION)" by blast
next
  let ?k = "SOMEIP_HEADER_LEN + unat (sm_payload_len m)"
  assume m: "someip_message_ok m \<and> declared_length bytes = 8 + unat (sm_payload_len m) \<and> ?k \<le> length bytes \<and>
    someip_wire m = (take ?k bytes)[12 := SOMEIP_PROTOCOL_VERSION] \<and>
    (sh_message_type (sm_header m) = Request \<longrightarrow> bytes ! 12 = SOMEIP_PROTOCOL_VERSION)"
  have "bytes[12 := v] = (take ?k bytes)[12 := v] @ drop ?k bytes" for v
    using list_update_append1 [of 12 "take ?k bytes" "drop ?k bytes" v] m
    by (simp add: SOMEIP_HEADER_LEN_def)
  then have w: "bytes[12 := SOMEIP_PROTOCOL_VERSION] = someip_wire m @ drop ?k bytes" using m by simp
  then have h: "header_decode bytes = Some (sm_header m)"
    using header_decode_version [of bytes SOMEIP_PROTOCOL_VERSION] by (simp add: header_decode_wire)
  have "someip_decode t (bytes[12 := SOMEIP_PROTOCOL_VERSION]) = Ret (Some m)"
    unfolding w by (rule someip_decode_wire [OF conjunct1 [OF m] assms])
  with decode_version [OF assms h] m show "someip_decode t bytes = Ret (Some m)" by simp
qed

lemma someip_decode_sound_witness:
  "\<exists>m. someip_decode host_debug (someip_wire m @ [43]) = Ret (Some m) \<and>
     someip_payload m = Ret [42] \<and> declared_length (someip_wire m @ [43]) = 9"
proof -
  let ?h = "\<lparr>sh_message_id = \<lparr>mid_service = 1, mid_method = 0x8002\<rparr>,
    sh_request_id = \<lparr>rid_client = 0, rid_session = 0\<rparr>, sh_interface_version = 1,
    sh_message_type = Notification, sh_return_code = E_Ok\<rparr>"
  obtain m where m: "someip_message_new ?h [42] = Ret (Some m)"
    by (simp add: someip_message_new_def SOMEIP_MAX_PAYLOAD_def)
  note ok = someip_message_new_ok [OF m]
  then have d: "someip_decode host_debug (someip_wire m @ [43]) = Ret (Some m)"
    by (simp add: someip_decode_wire host_debug_def)
  have "32 \<le> usize_bits host_debug" by (simp add: host_debug_def)
  from someip_decode_sound [OF this, of "someip_wire m @ [43]" m] d ok show ?thesis by auto
qed

text \<open>C35: When decoding panics: the header is acceptable and the declared length is so large that
  the end of the message is not a \<open>usize\<close>. With overflow checks the addition panics; without,
  the wrapped end lies before the payload and the slice panics, unless the version check comes
  first. On a 64-bit target no input panics.\<close>
theorem someip_decode_panics_iff:
  assumes "32 \<le> usize_bits t"
  shows "someip_decode t bytes = Panic \<longleftrightarrow>
    (\<exists>h. header_decode bytes = Some h \<and> 2 ^ usize_bits t \<le> declared_length bytes + 8 \<and>
      (overflow_checks t \<or>
       \<not> (sh_message_type h = Request \<and> bytes ! 12 \<noteq> SOMEIP_PROTOCOL_VERSION)))"
proof (cases "header_decode bytes")
  case None
  then show ?thesis by (simp add: someip_decode_def)
next
  case (Some h)
  define u :: nat where "u = 2 ^ usize_bits t"
  have u: "2 ^ 32 \<le> u" unfolding u_def using assms by (intro power_increasing) simp_all
  show ?thesis
    unfolding someip_decode_cases [OF assms Some] Let_def u_def [symmetric]
    using Some u
    by (cases "declared_length bytes < 8"; cases "declared_length bytes + 8 < u")
      (simp_all add: someip_message_new_returns)
qed

lemma someip_decode_panics_iff_witness:
  "someip_decode mcu_release
     [0, 1, 0x80, 2, 0xFF, 0xFF, 0xFF, 0xF8, 0, 0, 0, 0, 1, 1, 2, 0] = Panic \<and>
   someip_decode host_debug
     [0, 1, 0x80, 2, 0xFF, 0xFF, 0xFF, 0xF8, 0, 0, 0, 0, 1, 1, 2, 0] \<noteq> Panic"
proof -
  let ?b = "[0, 1, 0x80, 2, 0xFF, 0xFF, 0xFF, 0xF8, 0, 0, 0, 0, 1, 1, 2, 0] :: u8 list"
  have d: "declared_length ?b = 0xFFFFFFF8"
    unfolding declared_length_def from_be32_def by simp
  have "map_option sh_message_type (header_decode ?b) = Some Notification" by code_simp
  then obtain h where "header_decode ?b = Some h" "sh_message_type h = Notification" by auto
  then show ?thesis
    using someip_decode_panics_iff [of mcu_release ?b] someip_decode_panics_iff [of host_debug ?b]
    unfolding d by (simp add: mcu_release_def host_debug_def)
qed

end
