(* ===== verification/Autosar.thy ===== *)
theory Autosar
  imports Vehicle_Bus
begin

text \<open>
  \<open>core/src/autosar.rs\<close>: the digital I/O driver interface with its register-bank backend \<open>SimDio\<close>,
  and the COM signal layout. The locale \<open>dio_driver\<close> states what a driver promises to the
  application; the interpretation discharges it for \<open>SimDio\<close>.
\<close>


section \<open>Digital I/O\<close>

record dio_channel =
  ch_port :: u8
  ch_pin :: u8

definition dio_channel_new :: "u8 \<Rightarrow> u8 \<Rightarrow> dio_channel option" where
  "dio_channel_new port pin = (if pin < 32 then Some \<lparr>ch_port = port, ch_pin = pin\<rparr> else None)"

definition channel_bit :: "dio_channel \<Rightarrow> nat" where
  "channel_bit c = unat (ch_pin c)"

datatype dio_level = Low | High

fun level_as_bool :: "dio_level \<Rightarrow> bool" where
  "level_as_bool Low = False"
| "level_as_bool High = True"

definition level_from_bool :: "bool \<Rightarrow> dio_level" where
  "level_from_bool v = (if v then High else Low)"

record sim_dio =
  sd_ports :: "u32 list"

definition sim_dio_new :: sim_dio where
  "sim_dio_new = \<lparr>sd_ports = replicate 16 0\<rparr>"

definition port_word :: "sim_dio \<Rightarrow> u8 \<Rightarrow> u32" where
  "port_word d port = (case get_opt (sd_ports d) (unat port) of None \<Rightarrow> 0 | Some w \<Rightarrow> w)"

definition sim_read_channel :: "target \<Rightarrow> sim_dio \<Rightarrow> dio_channel \<Rightarrow> (error + dio_level) outcome" where
  "sim_read_channel t d c =
     (case ok_or (get_opt (sd_ports d) (unat (ch_port c))) InvalidArgument of
        Inl e \<Rightarrow> Ret (Inl e)
      | Inr w \<Rightarrow>
          outcome_bind (word_shl t 1 (channel_bit c)) (\<lambda>m.
          Ret (Inr (level_from_bool (w AND m \<noteq> 0)))))"

definition sim_write_channel ::
  "target \<Rightarrow> sim_dio \<Rightarrow> dio_channel \<Rightarrow> dio_level \<Rightarrow> ((error + unit) \<times> sim_dio) outcome" where
  "sim_write_channel t d c l =
     (case ok_or (get_opt (sd_ports d) (unat (ch_port c))) InvalidArgument of
        Inl e \<Rightarrow> Ret (Inl e, d)
      | Inr w \<Rightarrow>
          outcome_bind (word_shl t 1 (channel_bit c)) (\<lambda>m.
          let w' = (if level_as_bool l then w OR m else w AND NOT m) in
          Ret (Inr (), d\<lparr>sd_ports := (sd_ports d)[unat (ch_port c) := w']\<rparr>)))"

text \<open>Channels the bank has, and banks of the declared size.\<close>

definition dio_channel_ok :: "dio_channel \<Rightarrow> bool" where
  "dio_channel_ok c \<longleftrightarrow> ch_port c < 16 \<and> ch_pin c < 32"

definition sim_dio_ok :: "sim_dio \<Rightarrow> bool" where
  "sim_dio_ok d \<longleftrightarrow> length (sd_ports d) = 16"

lemma level_from_as_bool [simp]:
  "level_from_bool (level_as_bool l) = l" "level_as_bool (level_from_bool b) = b"
  by (cases l; simp add: level_from_bool_def) (simp add: level_from_bool_def)

lemma dio_channel_okD:
  assumes "dio_channel_ok c"
  shows "unat (ch_port c) < 16" "channel_bit c < 32"
  using assms by (simp_all add: dio_channel_ok_def channel_bit_def word_less_nat_alt)

lemma sim_read_channel_eq:
  assumes "sim_dio_ok d" "dio_channel_ok c"
  shows "sim_read_channel t d c =
    Ret (Inr (level_from_bool (bit (sd_ports d ! unat (ch_port c)) (channel_bit c))))"
  using assms dio_channel_okD [OF assms(2)]
  by (simp add: sim_read_channel_def sim_dio_ok_def get_opt_def and_exp_eq_0_iff_not_bit)

lemma sim_write_channel_ok:
  assumes "sim_dio_ok d" "dio_channel_ok c"
  shows "\<exists>d'. sim_write_channel t d c l = Ret (Inr (), d') \<and> sim_dio_ok d' \<and>
    (\<forall>p n. p < 16 \<and> n < 32 \<longrightarrow> bit (sd_ports d' ! p) n =
       (if p = unat (ch_port c) \<and> n = channel_bit c then level_as_bool l else bit (sd_ports d ! p) n))"
  using assms dio_channel_okD [OF assms(2)]
  by (cases l)
    (auto simp: sim_write_channel_def sim_dio_ok_def get_opt_def Let_def nth_list_update bit_simps)

text \<open>
  What an application relies on: on the channels a driver has, a write succeeds, reading the
  channel back gives the level written, and no other channel moves.
\<close>

locale dio_driver =
  fixes read_channel :: "'d \<Rightarrow> dio_channel \<Rightarrow> (error + dio_level) outcome"
    and write_channel :: "'d \<Rightarrow> dio_channel \<Rightarrow> dio_level \<Rightarrow> ((error + unit) \<times> 'd) outcome"
    and has_channel :: "dio_channel \<Rightarrow> bool"
    and driver_ok :: "'d \<Rightarrow> bool"
  assumes read_ok: "driver_ok d \<Longrightarrow> has_channel c \<Longrightarrow> \<exists>l. read_channel d c = Ret (Inr l)"
    and write_ok: "driver_ok d \<Longrightarrow> has_channel c \<Longrightarrow>
          \<exists>d'. write_channel d c l = Ret (Inr (), d') \<and> driver_ok d' \<and>
            (\<forall>c'. has_channel c' \<longrightarrow>
               read_channel d' c' = (if c' = c then Ret (Inr l) else read_channel d c'))"

text \<open>An application that writes a list of settings in order, stopping at the first error.\<close>

fun write_all ::
  "('d \<Rightarrow> dio_channel \<Rightarrow> dio_level \<Rightarrow> ((error + unit) \<times> 'd) outcome) \<Rightarrow>
   'd \<Rightarrow> (dio_channel \<times> dio_level) list \<Rightarrow> ((error + unit) \<times> 'd) outcome" where
  "write_all W d [] = Ret (Inr (), d)"
| "write_all W d ((c, l) # cls) =
     outcome_bind (W d c l) (\<lambda>(r, d').
       case r of Inl e \<Rightarrow> Ret (Inl e, d') | Inr _ \<Rightarrow> write_all W d' cls)"

context dio_driver
begin

text \<open>The last setting of a channel wins, the others stay as they were.\<close>

lemma write_all_reads:
  "driver_ok d \<Longrightarrow> (\<forall>(c, l) \<in> set cls. has_channel c) \<Longrightarrow>
   \<exists>d'. write_all write_channel d cls = Ret (Inr (), d') \<and> driver_ok d' \<and>
     (\<forall>c. has_channel c \<longrightarrow>
        read_channel d' c =
          (case map_of (rev cls) c of Some l \<Rightarrow> Ret (Inr l) | None \<Rightarrow> read_channel d c))"
proof (induction cls arbitrary: d)
  case Nil
  then show ?case by simp
next
  case (Cons cl cls)
  obtain c l where cl: "cl = (c, l)" by force
  with Cons.prems have "driver_ok d" "has_channel c" by simp_all
  from write_ok [OF this, of l] obtain d1 where d1: "write_channel d c l = Ret (Inr (), d1)" "driver_ok d1"
    "\<forall>c'. has_channel c' \<longrightarrow> read_channel d1 c' = (if c' = c then Ret (Inr l) else read_channel d c')"
    by blast
  moreover from Cons.IH [OF d1(2)] Cons.prems(2) obtain d2 where
    "write_all write_channel d1 cls = Ret (Inr (), d2)" "driver_ok d2"
    "\<forall>c. has_channel c \<longrightarrow>
        read_channel d2 c =
          (case map_of (rev cls) c of Some l \<Rightarrow> Ret (Inr l) | None \<Rightarrow> read_channel d1 c)"
    by auto
  ultimately show ?case
    by (auto simp: cl map_add_def split: option.splits)
qed

end

lemma dio_channel_cong:
  assumes "dio_channel_ok c" "dio_channel_ok c'"
    and "unat (ch_port c) = unat (ch_port c')" "channel_bit c = channel_bit c'"
  shows "c = c'"
  using assms by (cases c; cases c') (simp add: channel_bit_def word_unat_eq_iff)

interpretation sim_dio: dio_driver "sim_read_channel t" "sim_write_channel t" dio_channel_ok sim_dio_ok
proof (unfold_locales, goal_cases)
  case (1 d c)
  then show ?case by (simp add: sim_read_channel_eq)
next
  case (2 d c l)
  from sim_write_channel_ok [OF this, of t l] obtain d' where
    d': "sim_write_channel t d c l = Ret (Inr (), d')" "sim_dio_ok d'"
    "\<forall>p n. p < 16 \<and> n < 32 \<longrightarrow> bit (sd_ports d' ! p) n =
       (if p = unat (ch_port c) \<and> n = channel_bit c then level_as_bool l else bit (sd_ports d ! p) n)"
    by blast
  with 2 show ?case
    using dio_channel_cong [OF _ 2(2)]
    by (auto simp: sim_read_channel_eq dio_channel_okD)
qed


section \<open>Signals\<close>

record signal_layout =
  sig_start_bit :: u8
  sig_length :: u8

definition signal_new :: "u8 \<Rightarrow> u8 \<Rightarrow> signal_layout option" where
  "signal_new start_bit len =
     (if len = 0 \<or> len > 64 \<or> unat start_bit + unat len > 64 then None
      else Some \<lparr>sig_start_bit = start_bit, sig_length = len\<rparr>)"

definition signal_mask :: "target \<Rightarrow> signal_layout \<Rightarrow> u64 outcome" where
  "signal_mask t s =
     (if sig_length s \<ge> 64 then Ret (- 1)
      else outcome_bind (word_shl t 1 (unat (sig_length s))) (\<lambda>m. arith t (1 \<le> m) (m - 1)))"

definition signal_unpack :: "target \<Rightarrow> signal_layout \<Rightarrow> u64 \<Rightarrow> u64 outcome" where
  "signal_unpack t s payload =
     outcome_bind (signal_mask t s) (\<lambda>mask.
     outcome_bind (word_shr t payload (unat (sig_start_bit s))) (\<lambda>v.
     Ret (v AND mask)))"

definition signal_pack :: "target \<Rightarrow> signal_layout \<Rightarrow> u64 \<Rightarrow> u64 \<Rightarrow> u64 option outcome" where
  "signal_pack t s payload value =
     outcome_bind (signal_mask t s) (\<lambda>m.
     if value AND NOT m \<noteq> 0 then Ret None
     else
       outcome_bind (word_shl t m (unat (sig_start_bit s))) (\<lambda>placed.
       outcome_bind (word_shl t value (unat (sig_start_bit s))) (\<lambda>v.
       Ret (Some (payload AND NOT placed OR v)))))"

definition signal_ok :: "signal_layout \<Rightarrow> bool" where
  "signal_ok s \<longleftrightarrow> sig_length s \<noteq> 0 \<and> unat (sig_start_bit s) + unat (sig_length s) \<le> 64"

lemma signal_new_ok: "signal_new b n = Some s \<Longrightarrow> signal_ok s"
  by (auto simp: signal_new_def signal_ok_def split: if_splits)

text \<open>The bits a signal occupies.\<close>

definition signal_covers :: "signal_layout \<Rightarrow> nat \<Rightarrow> bool" where
  "signal_covers s n \<longleftrightarrow>
     unat (sig_start_bit s) \<le> n \<and> n < unat (sig_start_bit s) + unat (sig_length s)"

lemma signal_mask_eq: "signal_mask t s = Ret (mask (unat (sig_length s)))"
proof (cases "sig_length s \<ge> 64")
  case True
  then have "64 \<le> unat (sig_length s)" by (simp add: word_le_nat_alt)
  then have "mask (unat (sig_length s)) = (- 1 :: u64)"
    by (intro bit_word_eqI) (simp add: bit_simps)
  with True show ?thesis by (simp add: signal_mask_def)
next
  case False
  then have n: "unat (sig_length s) < 64" by (simp add: word_le_nat_alt)
  then have "(2 :: u64) ^ unat (sig_length s) \<noteq> 0" by simp
  then have "1 \<le> (2 :: u64) ^ unat (sig_length s)" by (simp add: word_le_nat_alt unat_gt_0 Suc_le_eq)
  with False n show ?thesis by (simp add: signal_mask_def mask_eq_exp_minus_1)
qed

lemma signal_okD:
  "signal_ok s \<Longrightarrow> unat (sig_start_bit s) < 64"
  "signal_ok s \<Longrightarrow> unat (sig_start_bit s) + unat (sig_length s) \<le> 64"
  by (auto simp: signal_ok_def unat_eq_zero [symmetric])

lemma signal_unpack_eq:
  assumes "signal_ok s"
  shows "signal_unpack t s p =
    Ret (take_bit (unat (sig_length s)) (drop_bit (unat (sig_start_bit s)) p))"
  using signal_okD [OF assms]
  by (simp add: signal_unpack_def signal_mask_eq take_bit_eq_mask)

lemma signal_pack_eq:
  assumes "signal_ok s"
  shows "signal_pack t s p v =
    Ret (if unat v < 2 ^ unat (sig_length s)
      then Some (p AND NOT (push_bit (unat (sig_start_bit s)) (mask (unat (sig_length s))))
                 OR push_bit (unat (sig_start_bit s)) v)
      else None)"
proof -
  have "v AND NOT (mask (unat (sig_length s))) = 0 \<longleftrightarrow> take_bit (unat (sig_length s)) v = v"
    by (auto simp: bit_eq_iff bit_simps)
  also have "\<dots> \<longleftrightarrow> unat v < 2 ^ unat (sig_length s)"
    by (simp add: word_unat_eq_iff unsigned_take_bit_eq take_bit_nat_eq_self_iff)
  finally show ?thesis
    using signal_okD [OF assms] by (simp add: signal_pack_def signal_mask_eq)
qed

lemma signal_pack_bits:
  assumes "signal_ok s" "signal_pack t s p v = Ret (Some q)" "n < 64"
  shows "bit q n = (if signal_covers s n then bit v (n - unat (sig_start_bit s)) else bit p n)"
proof -
  from assms(2) have v: "unat v < 2 ^ unat (sig_length s)" and
    q: "q = p AND NOT (push_bit (unat (sig_start_bit s)) (mask (unat (sig_length s))))
       OR push_bit (unat (sig_start_bit s)) v"
    unfolding signal_pack_eq [OF assms(1)] by (simp_all split: if_splits)
  have "\<not> bit v i" if "unat (sig_length s) \<le> i" for i
    using word_small_bits [OF v that] .
  then show ?thesis
    using assms(3) unfolding q signal_covers_def
    by (auto simp: bit_simps)
qed


section \<open>Properties\<close>

text \<open>After any sequence of writes to channels the bank has, every channel of a fresh \<open>SimDio\<close>
  reads as the last level written to it, or low if it was never written; no write fails and none
  panics, in any build.\<close>
theorem sim_dio_settings:
  assumes "\<forall>(c, l) \<in> set cls. dio_channel_ok c"
  shows "\<exists>d. write_all (sim_write_channel t) sim_dio_new cls = Ret (Inr (), d) \<and>
    (\<forall>c. dio_channel_ok c \<longrightarrow> sim_read_channel t d c =
       Ret (Inr (case map_of (rev cls) c of Some l \<Rightarrow> l | None \<Rightarrow> Low)))"
proof -
  have "sim_dio_ok sim_dio_new" by (simp add: sim_dio_ok_def sim_dio_new_def)
  moreover from this have "sim_read_channel t sim_dio_new c = Ret (Inr Low)" if "dio_channel_ok c" for c
    using that dio_channel_okD [OF that]
    by (simp add: sim_read_channel_eq) (simp add: sim_dio_new_def level_from_bool_def)
  ultimately show ?thesis
    using sim_dio.write_all_reads [of sim_dio_new cls t] assms
    by (fastforce split: option.splits)
qed

lemma sim_dio_settings_witness:
  "\<exists>d. write_all (sim_write_channel host_debug) sim_dio_new
      [(\<lparr>ch_port = 0, ch_pin = 5\<rparr>, High), (\<lparr>ch_port = 0, ch_pin = 6\<rparr>, High),
       (\<lparr>ch_port = 0, ch_pin = 6\<rparr>, Low)] = Ret (Inr (), d) \<and>
    sim_read_channel host_debug d \<lparr>ch_port = 0, ch_pin = 5\<rparr> = Ret (Inr High) \<and>
    sim_read_channel host_debug d \<lparr>ch_port = 0, ch_pin = 6\<rparr> = Ret (Inr Low)"
  using sim_dio_settings [of "[(\<lparr>ch_port = 0, ch_pin = 5\<rparr>, High), (\<lparr>ch_port = 0, ch_pin = 6\<rparr>, High),
       (\<lparr>ch_port = 0, ch_pin = 6\<rparr>, Low)]" host_debug]
  by (fastforce simp: dio_channel_ok_def)

text \<open>C9: A signal built by \<open>Signal::new\<close>, in any build: \<open>pack\<close> refuses exactly the values that do
  not fit its length; what it packs unpacks again, and every signal that shares no bit with it
  keeps its value. Neither operation panics.\<close>
theorem signal_pack_unpack:
  assumes "signal_new b n = Some s" "signal_new b' n' = Some s'"
    and "\<forall>i < 64. \<not> (signal_covers s i \<and> signal_covers s' i)"
  shows "if unat v < 2 ^ unat n
    then \<exists>q. signal_pack t s p v = Ret (Some q) \<and> signal_unpack t s q = Ret v \<and>
      signal_unpack t s' q = signal_unpack t s' p
    else signal_pack t s p v = Ret None"
proof -
  note ok = signal_new_ok [OF assms(1)] and ok' = signal_new_ok [OF assms(2)]
  have n: "sig_length s = n" using assms(1) by (auto simp: signal_new_def split: if_splits)
  show ?thesis
  proof (cases "unat v < 2 ^ unat n")
    case False
    then show ?thesis by (simp add: signal_pack_eq [OF ok] n)
  next
    case True
    then obtain q where q: "signal_pack t s p v = Ret (Some q)"
      by (simp add: signal_pack_eq [OF ok] n)
    note bits = signal_pack_bits [OF ok q]
    have "i < unat n" if "bit v i" for i
      using word_small_bits [OF True, of i] that by (meson not_le)
    then have "take_bit (unat (sig_length s)) (drop_bit (unat (sig_start_bit s)) q) = v"
      using bits signal_okD [OF ok]
      by (intro bit_word_eqI) (fastforce simp: bit_simps n signal_covers_def)
    moreover have "bit q (unat (sig_start_bit s') + i) = bit p (unat (sig_start_bit s') + i)"
      if "i < unat (sig_length s')" for i
    proof -
      have i: "unat (sig_start_bit s') + i < 64" "signal_covers s' (unat (sig_start_bit s') + i)"
        using that signal_okD(2) [OF ok'] by (simp_all add: signal_covers_def)
      with assms(3) have "\<not> signal_covers s (unat (sig_start_bit s') + i)" by blast
      with bits [OF i(1)] show ?thesis by simp
    qed
    then have "take_bit (unat (sig_length s')) (drop_bit (unat (sig_start_bit s')) q) =
      take_bit (unat (sig_length s')) (drop_bit (unat (sig_start_bit s')) p)"
      by (intro bit_word_eqI) (auto simp: bit_simps)
    ultimately show ?thesis
      using True q by (simp add: signal_unpack_eq ok ok')
  qed
qed

lemma signal_pack_unpack_witness:
  "\<exists>q. signal_pack host_debug \<lparr>sig_start_bit = 4, sig_length = 12\<rparr> 0xFFFF 0x123 = Ret (Some q) \<and>
    signal_unpack host_debug \<lparr>sig_start_bit = 4, sig_length = 12\<rparr> q = Ret 0x123 \<and>
    signal_unpack host_debug \<lparr>sig_start_bit = 0, sig_length = 4\<rparr> q =
      signal_unpack host_debug \<lparr>sig_start_bit = 0, sig_length = 4\<rparr> 0xFFFF"
  using signal_pack_unpack [of 4 12 "\<lparr>sig_start_bit = 4, sig_length = 12\<rparr>" 0 4
      "\<lparr>sig_start_bit = 0, sig_length = 4\<rparr>" "0x123" host_debug "0xFFFF"]
  by (simp add: signal_new_def signal_covers_def)

text \<open>The fields of a \<open>Signal\<close> are public, so a layout need not come from \<open>new\<close>: \<open>unpack\<close>
  panics exactly for a start bit of 64 or more in a build with overflow checks.\<close>
theorem signal_unpack_panics_iff:
  "signal_unpack t s p = Panic \<longleftrightarrow> overflow_checks t \<and> 64 \<le> unat (sig_start_bit s)"
  by (auto simp: signal_unpack_def signal_mask_eq word_shr_def arith_def)

end
