(* ===== verification/Uds.thy ===== *)
theory Uds
  imports Vehicle_Bus
begin

text \<open>
  \<open>core/src/uds.rs\<close>: the UDS server. Its data provider is a trait, modelled as a record of
  operations; the locale \<open>uds_provider\<close> states what the trait documents about them. The server's
  \<open>handle\<close> is refined to \<open>uds_answer\<close>, which says what a request is answered with and forgets the
  response buffer.
\<close>


section \<open>Services, negative response codes, sessions\<close>

definition UDS_MAX_PAYLOAD :: nat where "UDS_MAX_PAYLOAD = 7"
definition TESTER_PRESENT_TIMEOUT :: u8 where "TESTER_PRESENT_TIMEOUT = 5"

datatype uds_service =
    DiagnosticSessionControl | EcuReset | SecurityAccess
  | ReadDataByIdentifier | WriteDataByIdentifier | TesterPresent

fun uds_service_to_u8 :: "uds_service \<Rightarrow> u8" where
  "uds_service_to_u8 DiagnosticSessionControl = 0x10"
| "uds_service_to_u8 EcuReset = 0x11"
| "uds_service_to_u8 SecurityAccess = 0x27"
| "uds_service_to_u8 ReadDataByIdentifier = 0x22"
| "uds_service_to_u8 WriteDataByIdentifier = 0x2E"
| "uds_service_to_u8 TesterPresent = 0x3E"

definition uds_service_from_u8 :: "u8 \<Rightarrow> uds_service option" where
  "uds_service_from_u8 v =
     (if v = 0x10 then Some DiagnosticSessionControl
      else if v = 0x11 then Some EcuReset
      else if v = 0x27 then Some SecurityAccess
      else if v = 0x22 then Some ReadDataByIdentifier
      else if v = 0x2E then Some WriteDataByIdentifier
      else if v = 0x3E then Some TesterPresent
      else None)"

definition response_sid :: "uds_service \<Rightarrow> u8" where
  "response_sid s = uds_service_to_u8 s OR 0x40"

datatype uds_nrc =
    ServiceNotSupported | SubFunctionNotSupported | ConditionsNotCorrect | RequestOutOfRange
  | SecurityAccessDenied | InvalidKey | RequestCorrectlyReceivedResponsePending

fun uds_nrc_to_u8 :: "uds_nrc \<Rightarrow> u8" where
  "uds_nrc_to_u8 ServiceNotSupported = 0x11"
| "uds_nrc_to_u8 SubFunctionNotSupported = 0x12"
| "uds_nrc_to_u8 ConditionsNotCorrect = 0x22"
| "uds_nrc_to_u8 RequestOutOfRange = 0x31"
| "uds_nrc_to_u8 SecurityAccessDenied = 0x33"
| "uds_nrc_to_u8 InvalidKey = 0x35"
| "uds_nrc_to_u8 RequestCorrectlyReceivedResponsePending = 0x78"

datatype uds_session = DefaultSession | ExtendedSession

definition uds_session_from_u8 :: "u8 \<Rightarrow> uds_session option" where
  "uds_session_from_u8 v =
     (if v = 0x01 then Some DefaultSession else if v = 0x03 then Some ExtendedSession else None)"

datatype uds_security = Locked | Unlocked

definition did_reserved :: "u16 \<Rightarrow> bool" where
  "did_reserved did \<longleftrightarrow> 0xF100 \<le> did \<and> did \<le> 0xF1FF"


section \<open>The server\<close>

text \<open>\<open>did_read\<close> fills a mutable slice: it gets the bytes of the slice and returns the new ones.\<close>

record 'd uds_data_provider =
  dp_did_read_len :: "'d \<Rightarrow> u16 \<Rightarrow> nat option"
  dp_did_read :: "'d \<Rightarrow> u16 \<Rightarrow> u8 list \<Rightarrow> u8 list outcome"
  dp_did_write :: "'d \<Rightarrow> u16 \<Rightarrow> u8 list \<Rightarrow> (bool \<times> 'd) outcome"

record 'd uds_server =
  us_data :: 'd
  us_session :: uds_session
  us_security :: uds_security
  us_tester_present_pending :: "u8 option"

definition uds_server_new :: "'d \<Rightarrow> 'd uds_server" where
  "uds_server_new d =
     \<lparr>us_data = d, us_session = DefaultSession, us_security = Locked,
      us_tester_present_pending = None\<rparr>"

definition uds_is_held :: "'d uds_server \<Rightarrow> bool" where
  "uds_is_held s \<longleftrightarrow> us_tester_present_pending s \<noteq> None"

definition disarm :: "'d uds_server \<Rightarrow> 'd uds_server" where
  "disarm s =
     s\<lparr>us_session := DefaultSession, us_security := Locked, us_tester_present_pending := None\<rparr>"

definition uds_tick :: "'d uds_server \<Rightarrow> bool \<times> 'd uds_server" where
  "uds_tick s =
     (case us_tester_present_pending s of
        None \<Rightarrow> (False, s)
      | Some n \<Rightarrow>
          if n = 0 then (True, disarm s)
          else
            let next = n - 1 in
            if next = 0 then (True, disarm s)
            else (False, s\<lparr>us_tester_present_pending := Some next\<rparr>))"

text \<open>The assignments \<open>response[i] = b; response[i + 1] = b'; ...\<close> in order.\<close>

fun assign_bytes :: "u8 list \<Rightarrow> nat \<Rightarrow> u8 list \<Rightarrow> u8 list outcome" where
  "assign_bytes response i [] = Ret response"
| "assign_bytes response i (b # bs) =
     outcome_bind (store_at response i b) (\<lambda>response. assign_bytes response (i + 1) bs)"

definition respond :: "'d uds_server \<Rightarrow> u8 list \<Rightarrow> u8 list \<Rightarrow>
    (nat option \<times> u8 list \<times> 'd uds_server) outcome" where
  "respond s response bs =
     outcome_bind (assign_bytes response 0 bs) (\<lambda>response. Ret (Some (length bs), response, s))"

definition uds_nrc_response :: "'d uds_server \<Rightarrow> u8 list \<Rightarrow> u8 \<Rightarrow> uds_nrc \<Rightarrow>
    (nat option \<times> u8 list \<times> 'd uds_server) outcome" where
  "uds_nrc_response s response sid nrc =
     (if length response < 3 then Ret (None, response, s)
      else respond s response [0x7F, sid, uds_nrc_to_u8 nrc])"

definition send_nrc :: "'d uds_server \<Rightarrow> u8 list \<Rightarrow> uds_service \<Rightarrow> uds_nrc \<Rightarrow>
    (nat option \<times> u8 list \<times> 'd uds_server) outcome" where
  "send_nrc s response service nrc = uds_nrc_response s response (uds_service_to_u8 service) nrc"

text \<open>The arms of the \<open>match\<close> on the service. A \<open>?\<close> on a missing parameter returns \<open>None\<close>.\<close>

definition handle_tester_present :: "'d uds_server \<Rightarrow> u8 list \<Rightarrow> u8 list \<Rightarrow>
    (nat option \<times> u8 list \<times> 'd uds_server) outcome" where
  "handle_tester_present s params response =
     (if (case get_opt params 0 of None \<Rightarrow> 0 | Some b \<Rightarrow> b) AND 0x7F \<noteq> 0x00
      then send_nrc s response TesterPresent SubFunctionNotSupported
      else
        respond (s\<lparr>us_tester_present_pending := Some TESTER_PRESENT_TIMEOUT\<rparr>) response
          [uds_service_to_u8 TesterPresent + 0x40, 0x00])"

definition handle_session_control :: "'d uds_server \<Rightarrow> u8 list \<Rightarrow> u8 list \<Rightarrow>
    (nat option \<times> u8 list \<times> 'd uds_server) outcome" where
  "handle_session_control s params response =
     (case get_opt params 0 of
        None \<Rightarrow> Ret (None, response, s)
      | Some sub \<Rightarrow>
          (case uds_session_from_u8 sub of
             None \<Rightarrow> Ret (None, response, s)
           | Some next \<Rightarrow>
               respond (s\<lparr>us_session := next\<rparr>) response
                 [response_sid DiagnosticSessionControl, sub, 0x00, 0x32]))"

definition handle_ecu_reset :: "'d uds_server \<Rightarrow> u8 list \<Rightarrow> u8 list \<Rightarrow>
    (nat option \<times> u8 list \<times> 'd uds_server) outcome" where
  "handle_ecu_reset s params response =
     (case get_opt params 0 of
        None \<Rightarrow> Ret (None, response, s)
      | Some sub \<Rightarrow>
          if sub \<noteq> 0x01 then send_nrc s response EcuReset SubFunctionNotSupported
          else
            respond (s\<lparr>us_session := DefaultSession, us_security := Locked\<rparr>) response
              [response_sid EcuReset, sub])"

definition handle_security_access :: "'d uds_server \<Rightarrow> u8 list \<Rightarrow> u8 list \<Rightarrow>
    (nat option \<times> u8 list \<times> 'd uds_server) outcome" where
  "handle_security_access s params response =
     (case get_opt params 0 of
        None \<Rightarrow> Ret (None, response, s)
      | Some sub \<Rightarrow>
          if sub = 0x01 then respond s response [response_sid SecurityAccess, sub, 0xAA]
          else if sub = 0x02 then
            (case get_opt params 1 of
               None \<Rightarrow> Ret (None, response, s)
             | Some key \<Rightarrow>
                 if key = 0xAA XOR 0xFF then
                   respond (s\<lparr>us_security := Unlocked\<rparr>) response [response_sid SecurityAccess, sub]
                 else send_nrc s response SecurityAccess InvalidKey)
          else send_nrc s response SecurityAccess SubFunctionNotSupported)"

definition handle_read_did :: "'d uds_data_provider \<Rightarrow> 'd uds_server \<Rightarrow> u8 list \<Rightarrow> u8 list \<Rightarrow>
    (nat option \<times> u8 list \<times> 'd uds_server) outcome" where
  "handle_read_did D s params response =
     (case (get_opt params 0, get_opt params 1) of
        (Some p0, Some p1) \<Rightarrow>
          let did = from_be16 p0 p1 in
          (case dp_did_read_len D (us_data s) did of
             None \<Rightarrow> send_nrc s response ReadDataByIdentifier RequestOutOfRange
           | Some len \<Rightarrow>
               if len > UDS_MAX_PAYLOAD
               then send_nrc s response ReadDataByIdentifier RequestOutOfRange
               else if us_security s = Locked \<and> did_reserved did
               then send_nrc s response ReadDataByIdentifier SecurityAccessDenied
               else
                 outcome_bind (assign_bytes response 0 [response_sid ReadDataByIdentifier, p0, p1])
                   (\<lambda>response.
                 outcome_bind (subslice response 3 (3 + len)) (\<lambda>out.
                 outcome_bind (dp_did_read D (us_data s) did out) (\<lambda>out.
                 outcome_bind (copy_into response 3 (3 + len) out) (\<lambda>response.
                 Ret (Some (3 + len), response, s))))))
      | _ \<Rightarrow> Ret (None, response, s))"

definition handle_write_did :: "'d uds_data_provider \<Rightarrow> 'd uds_server \<Rightarrow> u8 list \<Rightarrow> u8 list \<Rightarrow>
    (nat option \<times> u8 list \<times> 'd uds_server) outcome" where
  "handle_write_did D s params response =
     (if us_security s = Locked
      then send_nrc s response WriteDataByIdentifier SecurityAccessDenied
      else
        (case (get_opt params 0, get_opt params 1) of
           (Some p0, Some p1) \<Rightarrow>
             outcome_bind (slice_from params 2) (\<lambda>data.
             outcome_bind (dp_did_write D (us_data s) (from_be16 p0 p1) data) (\<lambda>(ok, d).
             let s' = s\<lparr>us_data := d\<rparr> in
             if \<not> ok then send_nrc s' response WriteDataByIdentifier RequestOutOfRange
             else respond s' response [response_sid WriteDataByIdentifier, p0, p1]))
         | _ \<Rightarrow> Ret (None, response, s)))"

definition uds_handle :: "'d uds_data_provider \<Rightarrow> 'd uds_server \<Rightarrow> u8 list \<Rightarrow> u8 list \<Rightarrow>
    (nat option \<times> u8 list \<times> 'd uds_server) outcome" where
  "uds_handle D s request response =
     (case get_opt request 0 of
        None \<Rightarrow> Ret (None, response, s)
      | Some sid \<Rightarrow>
          (case uds_service_from_u8 sid of
             None \<Rightarrow> uds_nrc_response s response sid ServiceNotSupported
           | Some service \<Rightarrow>
               outcome_bind (slice_from request 1) (\<lambda>params.
               case service of
                 TesterPresent \<Rightarrow> handle_tester_present s params response
               | DiagnosticSessionControl \<Rightarrow> handle_session_control s params response
               | EcuReset \<Rightarrow> handle_ecu_reset s params response
               | SecurityAccess \<Rightarrow> handle_security_access s params response
               | ReadDataByIdentifier \<Rightarrow> handle_read_did D s params response
               | WriteDataByIdentifier \<Rightarrow> handle_write_did D s params response)))"


section \<open>The data provider of the diagnostics example\<close>

text \<open>\<open>MockData\<close>, the provider of the example \<open>uds_diagnostics\<close> and of the server's tests.\<close>

record mock_data =
  md_store :: "u8 list"

definition mock_did_read_len :: "mock_data \<Rightarrow> u16 \<Rightarrow> nat option" where
  "mock_did_read_len d did =
     (if did = 0x0001 then Some 2 else if did = 0xF190 then Some 4 else None)"

definition mock_did_read :: "mock_data \<Rightarrow> u16 \<Rightarrow> u8 list \<Rightarrow> u8 list outcome" where
  "mock_did_read d did out =
     outcome_bind (slice_to (md_store d) (length out)) (\<lambda>src. copy_into out 0 (length out) src)"

definition mock_did_write :: "mock_data \<Rightarrow> u16 \<Rightarrow> u8 list \<Rightarrow> (bool \<times> mock_data) outcome" where
  "mock_did_write d did data =
     (if length data > length (md_store d) then Ret (False, d)
      else outcome_bind (copy_into (md_store d) 0 (length data) data) (\<lambda>store.
        Ret (True, d\<lparr>md_store := store\<rparr>)))"

definition mock_provider :: "mock_data uds_data_provider" where
  "mock_provider =
     \<lparr>dp_did_read_len = mock_did_read_len, dp_did_read = mock_did_read,
      dp_did_write = mock_did_write\<rparr>"

definition mock_data_new :: mock_data where
  "mock_data_new = \<lparr>md_store = replicate 32 0\<rparr>"


section \<open>What a request is answered with\<close>

text \<open>\<open>Aborted\<close> is a request in which the provider's \<open>did_write\<close> panics.\<close>

datatype uds_answer = Silent | Positive "u8 list" | Negative u8 uds_nrc | Aborted

definition tester_present_answer :: "'d uds_server \<Rightarrow> u8 list \<Rightarrow> uds_answer \<times> 'd uds_server" where
  "tester_present_answer s params =
     (if params \<noteq> [] \<and> hd params AND 0x7F \<noteq> 0 then (Negative 0x3E SubFunctionNotSupported, s)
      else (Positive [0x7E, 0], s\<lparr>us_tester_present_pending := Some 5\<rparr>))"

fun session_control_answer :: "'d uds_server \<Rightarrow> u8 list \<Rightarrow> uds_answer \<times> 'd uds_server" where
  "session_control_answer s [] = (Silent, s)"
| "session_control_answer s (sub # _) =
     (if sub = 1 then (Positive [0x50, 1, 0, 0x32], s\<lparr>us_session := DefaultSession\<rparr>)
      else if sub = 3 then (Positive [0x50, 3, 0, 0x32], s\<lparr>us_session := ExtendedSession\<rparr>)
      else (Silent, s))"

fun ecu_reset_answer :: "'d uds_server \<Rightarrow> u8 list \<Rightarrow> uds_answer \<times> 'd uds_server" where
  "ecu_reset_answer s [] = (Silent, s)"
| "ecu_reset_answer s (sub # _) =
     (if sub = 1
      then (Positive [0x51, 1], s\<lparr>us_session := DefaultSession, us_security := Locked\<rparr>)
      else (Negative 0x11 SubFunctionNotSupported, s))"

fun security_access_answer :: "'d uds_server \<Rightarrow> u8 list \<Rightarrow> uds_answer \<times> 'd uds_server" where
  "security_access_answer s [] = (Silent, s)"
| "security_access_answer s (sub # ps) =
     (if sub = 1 then (Positive [0x67, 1, 0xAA], s)
      else if sub = 2 then
        (case ps of
           [] \<Rightarrow> (Silent, s)
         | key # _ \<Rightarrow>
             if key = 0x55 then (Positive [0x67, 2], s\<lparr>us_security := Unlocked\<rparr>)
             else (Negative 0x27 InvalidKey, s))
      else (Negative 0x27 SubFunctionNotSupported, s))"

fun read_did_answer :: "'d uds_data_provider \<Rightarrow> ('d \<Rightarrow> u16 \<Rightarrow> u8 list) \<Rightarrow> 'd uds_server \<Rightarrow>
    u8 list \<Rightarrow> uds_answer \<times> 'd uds_server" where
  "read_did_answer D val s (a # b # _) =
     (case dp_did_read_len D (us_data s) (from_be16 a b) of
        None \<Rightarrow> (Negative 0x22 RequestOutOfRange, s)
      | Some n \<Rightarrow>
          if n > 7 then (Negative 0x22 RequestOutOfRange, s)
          else if us_security s = Locked \<and> did_reserved (from_be16 a b)
            then (Negative 0x22 SecurityAccessDenied, s)
          else (Positive (0x62 # a # b # val (us_data s) (from_be16 a b)), s))"
| "read_did_answer D val s _ = (Silent, s)"

definition write_did_answer :: "'d uds_data_provider \<Rightarrow> 'd uds_server \<Rightarrow>
    u8 list \<Rightarrow> uds_answer \<times> 'd uds_server" where
  "write_did_answer D s params =
     (if us_security s = Locked then (Negative 0x2E SecurityAccessDenied, s)
      else
        case params of
          a # b # data \<Rightarrow>
            (case dp_did_write D (us_data s) (from_be16 a b) data of
               Panic \<Rightarrow> (Aborted, s)
             | Ret (ok, d) \<Rightarrow>
                 (if ok then Positive [0x6E, a, b] else Negative 0x2E RequestOutOfRange,
                  s\<lparr>us_data := d\<rparr>))
        | _ \<Rightarrow> (Silent, s))"

definition uds_answer :: "'d uds_data_provider \<Rightarrow> ('d \<Rightarrow> u16 \<Rightarrow> u8 list) \<Rightarrow> 'd uds_server \<Rightarrow>
    u8 list \<Rightarrow> uds_answer \<times> 'd uds_server" where
  "uds_answer D val s request =
     (case request of
        [] \<Rightarrow> (Silent, s)
      | sid # params \<Rightarrow>
          (case uds_service_from_u8 sid of
             None \<Rightarrow> (Negative sid ServiceNotSupported, s)
           | Some TesterPresent \<Rightarrow> tester_present_answer s params
           | Some DiagnosticSessionControl \<Rightarrow> session_control_answer s params
           | Some EcuReset \<Rightarrow> ecu_reset_answer s params
           | Some SecurityAccess \<Rightarrow> security_access_answer s params
           | Some ReadDataByIdentifier \<Rightarrow> read_did_answer D val s params
           | Some WriteDataByIdentifier \<Rightarrow> write_did_answer D s params))"

text \<open>How an answer goes into the response buffer: a negative one is dropped if it does not fit,
  a positive one panics.\<close>

fun deliver :: "uds_answer \<times> 'd uds_server \<Rightarrow> u8 list \<Rightarrow> (nat option \<times> u8 list \<times> 'd uds_server) outcome"
where
  "deliver (Silent, s) response = Ret (None, response, s)"
| "deliver (Aborted, s) response = Panic"
| "deliver (Negative sid nrc, s) response =
     Ret (if length response < 3 then (None, response, s)
          else (Some 3, [0x7F, sid, uds_nrc_to_u8 nrc] @ drop 3 response, s))"
| "deliver (Positive bs, s) response =
     (if length response < length bs then Panic
      else Ret (Some (length bs), bs @ drop (length bs) response, s))"

lemma assign_bytes_eq:
  "assign_bytes response i bs =
     (if bs = [] \<or> i + length bs \<le> length response
      then Ret (take i response @ bs @ drop (i + length bs) response) else Panic)"
  by (induction bs arbitrary: response i)
    (auto simp: store_at_def take_Suc_conv_app_nth add.commute Suc_le_eq)

lemma respond_eq:
  "respond s response bs =
     (if length response < length bs then Panic
      else Ret (Some (length bs), bs @ drop (length bs) response, s))"
  by (auto simp: respond_def assign_bytes_eq)

lemma uds_nrc_response_eq:
  "uds_nrc_response s response sid nrc = deliver (Negative sid nrc, s) response"
  by (simp add: uds_nrc_response_def respond_eq numeral_3_eq_3)

lemma get_opt_simps [simp]:
  "get_opt [] i = None" "get_opt (x # xs) 0 = Some x" "get_opt (x # xs) (Suc i) = get_opt xs i"
  by (simp_all add: get_opt_def)

lemmas uds_reply_simps = respond_eq send_nrc_def uds_nrc_response_eq response_sid_def

lemma handle_arms:
  "handle_tester_present s params response = deliver (tester_present_answer s params) response"
  "handle_session_control s params response = deliver (session_control_answer s params) response"
  "handle_ecu_reset s params response = deliver (ecu_reset_answer s params) response"
  "handle_security_access s params response = deliver (security_access_answer s params) response"
  "handle_write_did D s params response = deliver (write_did_answer D s params) response"
proof -
  show "handle_tester_present s params response = deliver (tester_present_answer s params) response"
    by (cases params)
      (simp_all add: handle_tester_present_def tester_present_answer_def uds_reply_simps
        TESTER_PRESENT_TIMEOUT_def)
  show "handle_session_control s params response = deliver (session_control_answer s params) response"
    by (cases params)
      (simp_all add: handle_session_control_def uds_session_from_u8_def uds_reply_simps)
  show "handle_ecu_reset s params response = deliver (ecu_reset_answer s params) response"
    by (cases params) (simp_all add: handle_ecu_reset_def uds_reply_simps)
  show "handle_security_access s params response = deliver (security_access_answer s params) response"
    by (cases params; cases "tl params")
      (simp_all add: handle_security_access_def uds_reply_simps)
  show "handle_write_did D s params response = deliver (write_did_answer D s params) response"
    by (cases params; cases "tl params")
      (simp_all add: handle_write_did_def write_did_answer_def uds_reply_simps Let_def
        split: prod.splits outcome.splits)
qed

text \<open>
  What \<open>UdsDataProvider\<close> documents: \<open>did_read\<close> fills the slice it is given, of the length
  \<open>did_read_len\<close> announced, with the value of the identifier; a write keeps the provider usable.
\<close>

locale uds_provider =
  fixes D :: "'d uds_data_provider"
    and val :: "'d \<Rightarrow> u16 \<Rightarrow> u8 list"
    and provider_ok :: "'d \<Rightarrow> bool"
  assumes read: "provider_ok d \<Longrightarrow> dp_did_read_len D d did = Some n \<Longrightarrow> n \<le> UDS_MAX_PAYLOAD \<Longrightarrow>
          length out = n \<Longrightarrow> dp_did_read D d did out = Ret (val d did)"
    and val_length: "provider_ok d \<Longrightarrow> dp_did_read_len D d did = Some n \<Longrightarrow> n \<le> UDS_MAX_PAYLOAD \<Longrightarrow>
          length (val d did) = n"
    and write_provider_ok: "provider_ok d \<Longrightarrow> dp_did_write D d did data = Ret (ok, d') \<Longrightarrow>
          provider_ok d'"

context uds_provider
begin

lemma handle_read_did_eq:
  assumes "provider_ok (us_data s)"
  shows "handle_read_did D s params response = deliver (read_did_answer D val s params) response"
proof (cases "\<exists>a b ps. params = a # b # ps")
  case False
  then show ?thesis
    by (cases params; cases "tl params") (auto simp: handle_read_did_def)
next
  case True
  then obtain a b ps where p: "params = a # b # ps" by blast
  note d = p handle_read_did_def Let_def uds_reply_simps UDS_MAX_PAYLOAD_def
  show ?thesis
  proof (cases "dp_did_read_len D (us_data s) (from_be16 a b)")
    case None
    then show ?thesis by (simp add: d)
  next
    case (Some n)
    consider "7 < n" | "n \<le> 7" "us_security s = Locked \<and> did_reserved (from_be16 a b)"
      | "n \<le> 7" "\<not> (us_security s = Locked \<and> did_reserved (from_be16 a b))"
      by linarith
    then show ?thesis
    proof cases
      case 3
      note v = read [OF assms Some] val_length [OF assms Some]
      have "drop (Suc (Suc (Suc n))) response = drop n (drop 3 response)"
        by (simp add: numeral_3_eq_3 add.commute)
      then show ?thesis
        using Some 3 v
        by (auto simp: p handle_read_did_def Let_def UDS_MAX_PAYLOAD_def assign_bytes_eq
            subslice_def response_sid_def numeral_3_eq_3 outcome_simps)
    qed (simp_all add: d Some)
  qed
qed

lemma handle_eq:
  assumes "provider_ok (us_data s)"
  shows "uds_handle D s request response = deliver (uds_answer D val s request) response"
  using assms
  by (cases request)
    (auto simp: uds_handle_def uds_answer_def handle_arms handle_read_did_eq uds_nrc_response_eq
      split: option.splits uds_service.splits)

lemma answer_length:
  assumes "provider_ok (us_data s)" "uds_answer D val s request = (Positive bs, s')"
  shows "length bs \<le> 3 + UDS_MAX_PAYLOAD"
proof (cases request)
  case Nil
  then show ?thesis using assms by (simp add: uds_answer_def)
next
  case (Cons sid params)
  show ?thesis
    using assms val_length [OF assms(1)] unfolding Cons
    by (cases params; cases "tl params")
      (auto simp: uds_answer_def tester_present_answer_def write_did_answer_def Let_def UDS_MAX_PAYLOAD_def
        split: option.splits uds_service.splits if_splits prod.splits outcome.splits)
qed

lemma answer_nonempty: "uds_answer D val s request = (Positive bs, s') \<Longrightarrow> bs \<noteq> []"
  by (cases request; cases "tl request"; cases "tl (tl request)")
    (auto simp: uds_answer_def tester_present_answer_def write_did_answer_def Let_def
      split: option.splits uds_service.splits if_splits prod.splits outcome.splits)

end

lemma mock_write:
  "mock_did_write d did data =
     Ret (if length data > length (md_store d) then (False, d)
          else (True, d\<lparr>md_store := data @ drop (length data) (md_store d)\<rparr>))"
  by (simp add: mock_did_write_def)

interpretation mock: uds_provider mock_provider
  "\<lambda>d did. take (case mock_did_read_len d did of Some n \<Rightarrow> n | None \<Rightarrow> 0) (md_store d)"
  "\<lambda>d. length (md_store d) = 32"
  by unfold_locales
    (auto simp: mock_provider_def mock_did_read_def mock_write mock_did_read_len_def
      split: if_splits)

section \<open>The server as a state machine\<close>

datatype uds_event = Req "u8 list" | Tick

inductive uds_step :: "'d uds_data_provider \<Rightarrow> 'd uds_server \<Rightarrow> uds_event \<Rightarrow> 'd uds_server \<Rightarrow> bool"
  for D :: "'d uds_data_provider"
where
  step_req: "uds_handle D s request response = Ret (r, response', s') \<Longrightarrow> uds_step D s (Req request) s'"
| step_tick: "uds_step D s Tick (snd (uds_tick s))"

inductive uds_trace :: "'d uds_data_provider \<Rightarrow> 'd uds_server \<Rightarrow> uds_event list \<Rightarrow> 'd uds_server \<Rightarrow> bool"
  for D :: "'d uds_data_provider" and s0 :: "'d uds_server"
where
  trace_nil: "uds_trace D s0 [] s0"
| trace_snoc: "uds_trace D s0 es s \<Longrightarrow> uds_step D s e s' \<Longrightarrow> uds_trace D s0 (es @ [e]) s'"

inductive_cases uds_step_reqE: "uds_step D s (Req request) s'"
inductive_cases uds_step_tickE: "uds_step D s Tick s'"

text \<open>The requests that unlock and that lock.\<close>

definition correct_key :: "u8 list \<Rightarrow> bool" where
  "correct_key request \<longleftrightarrow> take 3 request = [0x27, 0x02, 0x55]"

definition hard_reset :: "u8 list \<Rightarrow> bool" where
  "hard_reset request \<longleftrightarrow> take 2 request = [0x11, 0x01]"

lemma deliver_state: "deliver (a, s1) response = Ret (r, response', s') \<Longrightarrow> s' = s1"
  by (cases a) (auto split: if_splits)

lemma handle_read_did_state: "handle_read_did D s params response = Ret (r, response', s') \<Longrightarrow> s' = s"
  by (auto simp: handle_read_did_def Let_def send_nrc_def uds_nrc_response_def respond_def outcome_simps
      split: option.splits if_splits)

lemma uds_service_from_u8_eq: "uds_service_from_u8 v = Some x \<longleftrightarrow> uds_service_to_u8 x = v"
  by (cases x) (auto simp: uds_service_from_u8_def)

text \<open>The arm of a request, without the provider's laws: the state it leaves.\<close>

definition uds_effect :: "'d uds_data_provider \<Rightarrow> 'd uds_server \<Rightarrow> u8 list \<Rightarrow> 'd uds_server" where
  "uds_effect D s request = snd (uds_answer D (\<lambda>_ _. []) s request)"

lemma handle_effect:
  assumes "uds_handle D s request response = Ret (r, response', s')"
  shows "s' = uds_effect D s request"
proof (cases request)
  case Nil
  then show ?thesis using assms by (simp add: uds_handle_def uds_effect_def uds_answer_def)
next
  case (Cons sid params)
  show ?thesis
  proof (cases "uds_service_from_u8 sid")
    case None
    then show ?thesis
      using assms by (auto simp: Cons uds_handle_def uds_effect_def uds_answer_def uds_nrc_response_eq
          split: if_splits)
  next
    case (Some x)
    show ?thesis
    proof (cases "x = ReadDataByIdentifier")
      case True
      then have "s' = s" using assms Some by (auto simp: Cons uds_handle_def dest: handle_read_did_state)
      moreover have "snd (read_did_answer D (\<lambda>_ _. []) s params) = s"
        by (cases params; cases "tl params") (auto split: option.splits)
      ultimately show ?thesis using True Some by (simp add: Cons uds_effect_def uds_answer_def)
    next
      case False
      then have "uds_handle D s request response = deliver (uds_answer D (\<lambda>_ _. []) s request) response"
        using Some by (cases x) (simp_all add: Cons uds_handle_def uds_answer_def handle_arms)
      with assms show ?thesis
        unfolding uds_effect_def by (metis deliver_state prod.collapse)
    qed
  qed
qed

lemma effect_arms:
  "snd (tester_present_answer s params) = s \<or>
     snd (tester_present_answer s params) = s\<lparr>us_tester_present_pending := Some 5\<rparr>"
  "snd (session_control_answer s params) \<in> {s, s\<lparr>us_session := DefaultSession\<rparr>, s\<lparr>us_session := ExtendedSession\<rparr>}"
  "snd (ecu_reset_answer s params) =
     (if take 1 params = [1] then s\<lparr>us_session := DefaultSession, us_security := Locked\<rparr> else s)"
  "snd (security_access_answer s params) =
     (if take 2 params = [2, 0x55] then s\<lparr>us_security := Unlocked\<rparr> else s)"
  "snd (read_did_answer D val s params) = s"
  "us_security (snd (write_did_answer D s params)) = us_security s"
  "us_tester_present_pending (snd (write_did_answer D s params)) = us_tester_present_pending s"
  "us_security s = Locked \<Longrightarrow> snd (write_did_answer D s params) = s"
proof -
  show "snd (security_access_answer s params) =
     (if take 2 params = [2, 0x55] then s\<lparr>us_security := Unlocked\<rparr> else s)"
    by (cases params; cases "tl params") auto
  show "snd (read_did_answer D val s params) = s"
    by (cases params; cases "tl params") (auto split: option.splits)
  show "snd (session_control_answer s params) \<in> {s, s\<lparr>us_session := DefaultSession\<rparr>, s\<lparr>us_session := ExtendedSession\<rparr>}"
    "snd (ecu_reset_answer s params) =
     (if take 1 params = [1] then s\<lparr>us_session := DefaultSession, us_security := Locked\<rparr> else s)"
    by (cases params; simp)+
qed (auto simp: tester_present_answer_def write_did_answer_def Let_def
    split: list.splits prod.splits outcome.splits)

lemma effect_security:
  "us_security (uds_effect D s request) =
     (if correct_key request then Unlocked else if hard_reset request then Locked else us_security s)"
proof (cases request)
  case Nil
  then show ?thesis by (simp add: uds_effect_def uds_answer_def correct_key_def hard_reset_def)
next
  case (Cons sid params)
  have t: "take 3 (sid # params) = sid # take 2 params" "take 2 (sid # params) = sid # take 1 params"
    by (simp_all add: numeral_3_eq_3 numeral_2_eq_2)
  show ?thesis
  proof (cases "uds_service_from_u8 sid")
    case None
    then have "sid \<noteq> 0x27" "sid \<noteq> 0x11" by (auto simp: uds_service_from_u8_def)
    with None show ?thesis
      by (simp add: Cons uds_effect_def uds_answer_def correct_key_def hard_reset_def t)
  next
    case (Some x)
    then have "sid = uds_service_to_u8 x" by (simp add: uds_service_from_u8_eq)
    with Some show ?thesis
      using effect_arms(1) [of s params] effect_arms(2) [of s params]
      by (cases x)
        (auto simp: Cons uds_effect_def uds_answer_def correct_key_def hard_reset_def t effect_arms(3-6))
  qed
qed

lemma effect_data:
  assumes "us_security s = Locked"
  shows "us_data (uds_effect D s request) = us_data s"
proof (cases request)
  case Nil
  then show ?thesis by (simp add: uds_effect_def uds_answer_def)
next
  case (Cons sid params)
  show ?thesis
    using effect_arms(1) [of s params] effect_arms(2) [of s params] effect_arms(8) [OF assms, of D params]
    by (auto simp: Cons uds_effect_def uds_answer_def effect_arms(3,4,5) split: option.splits uds_service.splits)
qed

lemma effect_pending:
  "us_tester_present_pending (uds_effect D s request) \<in> {us_tester_present_pending s, Some 5}"
proof (cases request)
  case Nil
  then show ?thesis by (simp add: uds_effect_def uds_answer_def)
next
  case (Cons sid params)
  show ?thesis
    using effect_arms(1) [of s params] effect_arms(2) [of s params]
    by (auto simp: Cons uds_effect_def uds_answer_def effect_arms(3,4,5,7) split: option.splits uds_service.splits)
qed

lemma step_state: "uds_step D s e s' \<Longrightarrow>
   s' = (case e of Req request \<Rightarrow> uds_effect D s request | Tick \<Rightarrow> snd (uds_tick s))"
  by (erule uds_step.cases) (auto dest: handle_effect)

text \<open>The liveness window of a reachable server is closed or between 1 and 5.\<close>

definition window_ok :: "'d uds_server \<Rightarrow> bool" where
  "window_ok s \<longleftrightarrow> (\<forall>n. us_tester_present_pending s = Some n \<longrightarrow> 1 \<le> n \<and> n \<le> 5)"

lemma tick_window: "window_ok s \<Longrightarrow> window_ok (snd (uds_tick s))"
proof (cases "us_tester_present_pending s")
  case (Some n)
  assume "window_ok s"
  with Some have "1 \<le> n" "n \<le> 5" by (simp_all add: window_ok_def)
  then have "n - 1 \<le> 5" by (simp add: word_le_nat_alt unat_sub)
  moreover from \<open>1 \<le> n\<close> have "n - 1 \<noteq> 0 \<Longrightarrow> 1 \<le> n - 1"
    by (simp add: word_le_nat_alt unat_gt_0 Suc_le_eq)
  ultimately show ?thesis
    using Some by (simp add: uds_tick_def window_ok_def disarm_def Let_def)
qed (simp add: uds_tick_def)

lemma trace_window: "uds_trace D s0 es s \<Longrightarrow> window_ok s0 \<Longrightarrow> window_ok s"
proof (induction rule: uds_trace.induct)
  case (trace_snoc es s e s')
  then have s: "window_ok s" by simp
  show ?case
  proof (cases e)
    case (Req request)
    with step_state [OF trace_snoc.hyps(2)] have "s' = uds_effect D s request" by simp
    with s show ?thesis
      using effect_pending [of D s request] by (auto simp: window_ok_def)
  next
    case Tick
    with step_state [OF trace_snoc.hyps(2)] have "s' = snd (uds_tick s)" by simp
    with s show ?thesis by (simp add: tick_window)
  qed
qed

lemma tick_security: "us_security (snd (uds_tick s)) = Unlocked \<Longrightarrow> us_security s = Unlocked"
  by (auto simp: uds_tick_def disarm_def Let_def split: option.splits if_splits)

text \<open>Unlocked is earned: a correct key, and no reset since.\<close>

definition unlock_justified :: "uds_event list \<Rightarrow> bool" where
  "unlock_justified es \<longleftrightarrow>
     (\<exists>pre request post. es = pre @ Req request # post \<and> correct_key request \<and>
        (\<forall>request'. Req request' \<in> set post \<longrightarrow> \<not> hard_reset request'))"

lemma correct_key_no_reset: "correct_key request \<Longrightarrow> \<not> hard_reset request"
  using take_take [of 2 3 request] by (auto simp: correct_key_def hard_reset_def)

lemma unlock_justified_snoc:
  assumes "unlock_justified es" "\<And>request. e = Req request \<Longrightarrow> \<not> hard_reset request"
  shows "unlock_justified (es @ [e])"
proof -
  from assms(1) obtain pre request post where
    "es @ [e] = pre @ Req request # (post @ [e])" "correct_key request"
    "\<forall>request'. Req request' \<in> set post \<longrightarrow> \<not> hard_reset request'"
    unfolding unlock_justified_def by auto
  then show ?thesis
    using assms(2) unfolding unlock_justified_def
    by (intro exI [of _ pre] exI [of _ request] exI [of _ "post @ [e]"]) auto
qed

lemma trace_unlocked:
  "uds_trace D s0 es s \<Longrightarrow> us_security s0 = Locked \<Longrightarrow> us_security s = Unlocked \<Longrightarrow> unlock_justified es"
proof (induction rule: uds_trace.induct)
  case (trace_snoc es s e s')
  show ?case
  proof (cases e)
    case (Req request)
    with step_state [OF trace_snoc.hyps(2)] have "s' = uds_effect D s request" by simp
    with trace_snoc.prems have eff: "correct_key request \<or>
        (\<not> hard_reset request \<and> us_security s = Unlocked)"
      by (auto simp: effect_security split: if_splits)
    show ?thesis
    proof (cases "correct_key request")
      case True
      then show ?thesis unfolding Req unlock_justified_def
        by (intro exI [of _ es] exI [of _ request] exI [of _ "[]"]) simp
    next
      case False
      with eff trace_snoc show ?thesis using Req by (intro unlock_justified_snoc) auto
    qed
  next
    case Tick
    with step_state [OF trace_snoc.hyps(2)] have "s' = snd (uds_tick s)" by simp
    with trace_snoc show ?thesis
      using Tick by (intro unlock_justified_snoc) (auto dest: tick_security)
  qed
qed simp

text \<open>\<open>k\<close> ticks in a row.\<close>

definition ticks :: "nat \<Rightarrow> 'd uds_server \<Rightarrow> 'd uds_server" where
  "ticks k s = ((\<lambda>s. snd (uds_tick s)) ^^ k) s"

lemma ticks_not_held: "\<not> uds_is_held s \<Longrightarrow> ticks k s = s"
  by (induction k) (simp_all add: ticks_def uds_is_held_def uds_tick_def)

lemma ticks_add: "ticks (m + n) s = ticks m (ticks n s)"
  by (simp add: ticks_def funpow_add)

lemma ticks_Suc: "ticks (Suc k) s = snd (uds_tick (ticks k s))"
  by (simp add: ticks_def)

lemma ticks_small:
  assumes "us_tester_present_pending s = Some 5"
  shows "ticks 0 s = s"
    "ticks 1 s = s\<lparr>us_tester_present_pending := Some 4\<rparr>"
    "ticks 2 s = s\<lparr>us_tester_present_pending := Some 3\<rparr>"
    "ticks 3 s = s\<lparr>us_tester_present_pending := Some 2\<rparr>"
    "ticks 4 s = s\<lparr>us_tester_present_pending := Some 1\<rparr>"
    "ticks 5 s = disarm s"
proof -
  show 0: "ticks 0 s = s" by (simp add: ticks_def)
  show 1: "ticks 1 s = s\<lparr>us_tester_present_pending := Some 4\<rparr>"
    using ticks_Suc [of 0 s] assms by (simp add: 0 uds_tick_def)
  show 2: "ticks 2 s = s\<lparr>us_tester_present_pending := Some 3\<rparr>"
    using ticks_Suc [of 1 s] by (simp only: 1 Suc_1) (simp add: uds_tick_def)
  show 3: "ticks 3 s = s\<lparr>us_tester_present_pending := Some 2\<rparr>"
    using ticks_Suc [of 2 s] by (simp add: 2 uds_tick_def)
  show 4: "ticks 4 s = s\<lparr>us_tester_present_pending := Some 1\<rparr>"
    using ticks_Suc [of 3 s] by (simp add: 3 uds_tick_def)
  show "ticks 5 s = disarm s"
    using ticks_Suc [of 4 s] by (simp add: 4 uds_tick_def disarm_def)
qed

text \<open>The requests in which the provider panics.\<close>

lemma answer_aborted:
  "fst (uds_answer D val s request) = Aborted \<longleftrightarrow>
   (\<exists>a b data. request = 0x2E # a # b # data \<and> us_security s = Unlocked \<and>
     dp_did_write D (us_data s) (from_be16 a b) data = Panic)"
proof (cases request)
  case Nil
  then show ?thesis by (simp add: uds_answer_def)
next
  case (Cons sid params)
  have wr: "fst (write_did_answer D s params) = Aborted \<longleftrightarrow>
     (\<exists>a b data. params = a # b # data \<and> us_security s = Unlocked \<and>
       dp_did_write D (us_data s) (from_be16 a b) data = Panic)"
    by (cases params; cases "tl params"; cases "us_security s")
      (auto simp: write_did_answer_def split: outcome.split)
  have "fst (session_control_answer s params) \<noteq> Aborted" "fst (ecu_reset_answer s params) \<noteq> Aborted"
    "fst (tester_present_answer s params) \<noteq> Aborted"
    by (cases params; simp add: tester_present_answer_def)+
  moreover have "fst (security_access_answer s params) \<noteq> Aborted" "fst (read_did_answer D val s params) \<noteq> Aborted"
    by (cases params; cases "tl params"; simp split: option.split)+
  moreover have w: "uds_service_from_u8 sid = Some WriteDataByIdentifier \<longleftrightarrow> sid = 0x2E"
    by (auto simp: uds_service_from_u8_eq)
  ultimately have "fst (uds_answer D val s request) = Aborted \<longleftrightarrow>
    sid = 0x2E \<and> fst (write_did_answer D s params) = Aborted"
    unfolding Cons uds_answer_def
    by (cases "uds_service_from_u8 sid"; cases "the (uds_service_from_u8 sid)") simp_all
  with wr show ?thesis by (auto simp: Cons)
qed

lemma deliver_map:
  "deliver (a, s1) response = Ret (r, response', s') \<Longrightarrow>
   deliver (a, f s1) response = Ret (r, response', f s')"
  by (cases a) (auto split: if_splits)

text \<open>A locked server answers alike over providers that differ in reserved values only.\<close>

lemma locked_answer:
  assumes "us_security s = Locked"
    and "\<And>did. dp_did_read_len D d did = dp_did_read_len D (us_data s) did"
    and "\<And>did. \<not> did_reserved did \<Longrightarrow> val d did = val (us_data s) did"
  shows "uds_answer D val (s\<lparr>us_data := d\<rparr>) request =
    map_prod id (us_data_update (\<lambda>_. d)) (uds_answer D val s request)"
proof (cases request)
  case Nil
  then show ?thesis by (simp add: uds_answer_def)
next
  case (Cons sid params)
  let ?t = "s\<lparr>us_data := d\<rparr>" and ?f = "map_prod id (us_data_update (\<lambda>_. d))"
  have "read_did_answer D val ?t params = ?f (read_did_answer D val s params)"
    using assms by (cases params; cases "tl params") (auto split: option.splits)
  moreover have "tester_present_answer ?t params = ?f (tester_present_answer s params)"
    "write_did_answer D ?t params = ?f (write_did_answer D s params)"
    using assms(1) by (simp_all add: tester_present_answer_def write_did_answer_def)
  moreover have "session_control_answer ?t params = ?f (session_control_answer s params)"
    "ecu_reset_answer ?t params = ?f (ecu_reset_answer s params)"
    "security_access_answer ?t params = ?f (security_access_answer s params)"
    by (cases params; simp split: list.split)+
  ultimately show ?thesis
    by (simp add: Cons uds_answer_def split: option.split uds_service.split)
qed


section \<open>Properties\<close>

text \<open>C2: The server implements its abstract answer function over every provider that keeps the
  documented contract: the response bytes, the length and the next state are those of
  \<open>uds_answer\<close>. A negative response that does not fit is dropped with \<open>None\<close>; a positive response
  that does not fit panics, although the function documents \<open>None\<close> for it.\<close>
theorem uds_handle_refines:
  assumes "uds_provider D val provider_ok" "provider_ok (us_data s)"
  shows "uds_handle D s request response = deliver (uds_answer D val s request) response"
  using uds_provider.handle_eq [OF assms] .

lemma uds_handle_refines_witness:
  "uds_handle mock_provider (uds_server_new mock_data_new) [0x22, 0, 1] [9, 9, 9, 9] = Panic \<and>
   uds_handle mock_provider (uds_server_new mock_data_new) [0x22, 0, 2] [9, 9] =
     Ret (None, [9, 9], uds_server_new mock_data_new)"
proof -
  have "length (md_store (us_data (uds_server_new mock_data_new))) = 32"
    by (simp add: uds_server_new_def mock_data_new_def)
  note h = uds_handle_refines [OF mock.uds_provider_axioms this]
  have "from_be16 0 1 = 1" "from_be16 0 2 = 2" "\<not> did_reserved 1"
    by (simp_all add: from_be16_def did_reserved_def word_le_nat_alt)
  then show ?thesis
    unfolding h
    by (simp add: uds_answer_def uds_service_from_u8_def mock_provider_def mock_did_read_len_def
        uds_server_new_def mock_data_new_def)
qed

text \<open>C31: When the server returns. With a response buffer of 10 bytes or more a request panics only if the
  provider's own \<open>did_write\<close> panics on it, which takes an unlocked server. A request for an identifier that
  may be read panics exactly if the buffer is shorter than the identifier's length and three more
  bytes: so the 8 bytes of a CAN frame are not enough whenever an identifier of 6 or 7 bytes is
  readable.\<close>
theorem uds_handle_returns:
  assumes "uds_provider D val provider_ok" "provider_ok (us_data s)"
  shows "(10 \<le> length response \<longrightarrow>
      (if \<exists>a b data. request = 0x2E # a # b # data \<and> us_security s = Unlocked \<and>
         dp_did_write D (us_data s) (from_be16 a b) data = Panic
       then uds_handle D s request response = Panic
       else \<exists>r response' s'. uds_handle D s request response = Ret (r, response', s') \<and>
         length response' = length response)) \<and>
    (\<forall>a b rest n. request = 0x22 # a # b # rest \<longrightarrow>
      dp_did_read_len D (us_data s) (from_be16 a b) = Some n \<longrightarrow> n \<le> UDS_MAX_PAYLOAD \<longrightarrow>
      \<not> (us_security s = Locked \<and> did_reserved (from_be16 a b)) \<longrightarrow>
      (uds_handle D s request response = Panic \<longleftrightarrow> length response < 3 + n))"
proof (intro conjI impI allI)
  assume len: "10 \<le> length response"
  obtain a s' where Pair: "uds_answer D val s request = (a, s')" by force
  note h = uds_provider.handle_eq [OF assms, of request response]
  show "if \<exists>a b data. request = 0x2E # a # b # data \<and> us_security s = Unlocked \<and>
         dp_did_write D (us_data s) (from_be16 a b) data = Panic
       then uds_handle D s request response = Panic
       else \<exists>r response' s'. uds_handle D s request response = Ret (r, response', s') \<and>
         length response' = length response"
  proof (cases "a = Aborted")
    case True
    then show ?thesis using Pair h answer_aborted [of D val s request] by simp
  next
    case False
    then have "\<exists>r response' s'. uds_handle D s request response = Ret (r, response', s') \<and>
        length response' = length response"
      using Pair h len uds_provider.answer_length [OF assms, of request _ s']
      by (cases a) (fastforce simp: UDS_MAX_PAYLOAD_def)+
    then show ?thesis using False Pair answer_aborted [of D val s request] by auto
  qed
next
  fix a b rest n
  assume r: "request = 0x22 # a # b # rest" "dp_did_read_len D (us_data s) (from_be16 a b) = Some n"
    "n \<le> UDS_MAX_PAYLOAD" "\<not> (us_security s = Locked \<and> did_reserved (from_be16 a b))"
  note v = uds_provider.val_length [OF assms r(2,3)]
  have "uds_answer D val s request = (Positive (0x62 # a # b # val (us_data s) (from_be16 a b)), s)"
    using r by (auto simp: uds_answer_def uds_service_from_u8_def UDS_MAX_PAYLOAD_def)
  then show "uds_handle D s request response = Panic \<longleftrightarrow> length response < 3 + n"
    using uds_provider.handle_eq [OF assms, of request response] v by auto
qed

text \<open>Of the identifiers of the example none is as long as that; a provider with one of 7 bytes panics on
  a CAN frame.\<close>

definition vin_provider :: "unit uds_data_provider" where
  "vin_provider =
     \<lparr>dp_did_read_len = \<lambda>_ _. Some 7, dp_did_read = \<lambda>_ _ out. Ret (replicate (length out) 0),
      dp_did_write = \<lambda>d _ _. Ret (False, d)\<rparr>"

lemma uds_handle_returns_witness:
  "(\<exists>r response' s'. uds_handle mock_provider (uds_server_new mock_data_new) [0x2E] (replicate 10 0) =
     Ret (r, response', s') \<and> length response' = 10) \<and>
   uds_handle vin_provider (uds_server_new ()) [0x22, 0, 1] (replicate 8 0) = Panic"
proof
  show "\<exists>r response' s'. uds_handle mock_provider (uds_server_new mock_data_new) [0x2E] (replicate 10 0) =
     Ret (r, response', s') \<and> length response' = 10"
    using uds_handle_returns [OF mock.uds_provider_axioms,
        where s = "uds_server_new mock_data_new" and response = "replicate 10 0" and request = "[0x2E]"]
    by (simp add: uds_server_new_def mock_data_new_def)
  have vin: "uds_provider vin_provider (\<lambda>_ _. replicate 7 0) (\<lambda>_. True)"
    by unfold_locales (auto simp: vin_provider_def)
  have "\<not> did_reserved (from_be16 0 1)"
    by (simp add: from_be16_def did_reserved_def word_le_nat_alt)
  with uds_handle_returns [OF vin, where s = "uds_server_new ()" and response = "replicate 8 0" and request = "[0x22, 0, 1]"]
  show "uds_handle vin_provider (uds_server_new ()) [0x22, 0, 1] (replicate 8 0) = Panic"
    by (simp add: vin_provider_def UDS_MAX_PAYLOAD_def)
qed

text \<open>C8: Along every sequence of requests and ticks from a locked server, over any provider and
  any response buffers: when the server is unlocked, the correct key was sent and no reset was
  requested after it. (No seed need have been requested.)\<close>
theorem uds_unlock_justified:
  assumes "uds_trace D s0 es s" "us_security s0 = Locked" "us_security s = Unlocked"
  shows "unlock_justified es"
  using assms by (rule trace_unlocked)

lemma uds_unlock_justified_witness:
  "unlock_justified [Req [0x27, 0x02, 0x55]]"
proof -
  let ?s = "uds_server_new mock_data_new"
  have "uds_handle mock_provider ?s [0x27, 0x02, 0x55] [0, 0] =
    Ret (Some 2, [0x67, 2], ?s\<lparr>us_security := Unlocked\<rparr>)"
    by (simp add: uds_handle_def uds_service_from_u8_def handle_arms)
  then have "uds_trace mock_provider ?s ([] @ [Req [0x27, 0x02, 0x55]]) (?s\<lparr>us_security := Unlocked\<rparr>)"
    by (rule trace_snoc [OF trace_nil step_req])
  from uds_unlock_justified [OF this] show ?thesis
    by (simp add: uds_server_new_def)
qed

text \<open>C26: A locked server gives nothing away: whatever the request and the response buffer, the
  answer does not depend on the values of the reserved identifiers (0xF100 to 0xF1FF), and the
  data are not written.\<close>
theorem uds_locked_noninterference:
  assumes "uds_provider D val provider_ok" "provider_ok (us_data s)" "provider_ok d"
    and "us_security s = Locked"
    and "\<And>did. dp_did_read_len D d did = dp_did_read_len D (us_data s) did"
    and "\<And>did. \<not> did_reserved did \<Longrightarrow> val d did = val (us_data s) did"
    and "uds_handle D s request response = Ret (r, response', s')"
  shows "uds_handle D (s\<lparr>us_data := d\<rparr>) request response = Ret (r, response', s'\<lparr>us_data := d\<rparr>)
    \<and> us_data s' = us_data s"
proof
  obtain a s1 where a: "uds_answer D val s request = (a, s1)" by force
  have "uds_answer D val (s\<lparr>us_data := d\<rparr>) request = (a, s1\<lparr>us_data := d\<rparr>)"
    using locked_answer [of s D d val request, OF assms(4-6)] a by simp
  then show "uds_handle D (s\<lparr>us_data := d\<rparr>) request response = Ret (r, response', s'\<lparr>us_data := d\<rparr>)"
    using assms(7) a deliver_map [of a s1 response r response' s' "us_data_update (\<lambda>_. d)"]
      uds_provider.handle_eq [OF assms(1,2)]
      uds_provider.handle_eq [OF assms(1), of "s\<lparr>us_data := d\<rparr>"] assms(3)
    by simp
  show "us_data s' = us_data s"
    using handle_effect [OF assms(7)] effect_data [OF assms(4)] by simp
qed

lemma uds_locked_noninterference_witness:
  "\<exists>d. md_store d ! 2 = 7 \<and>
    uds_handle mock_provider \<lparr>us_data = d, us_session = DefaultSession, us_security = Locked,
      us_tester_present_pending = None\<rparr> [0x22, 0xF1, 0x90] [0, 0, 0] =
    Ret (Some 3, [0x7F, 0x22, 0x33], \<lparr>us_data = d, us_session = DefaultSession, us_security = Locked,
      us_tester_present_pending = None\<rparr>)"
proof -
  let ?s = "uds_server_new mock_data_new"
  let ?d = "\<lparr>md_store = (replicate 32 0)[2 := 7]\<rparr>"
  have len: "length (md_store (us_data ?s)) = 32" "length (md_store ?d) = 32" "us_security ?s = Locked"
    by (simp_all add: uds_server_new_def mock_data_new_def)
  have "from_be16 0xF1 0x90 = 0xF190" by (simp add: from_be16_def)
  then have h: "uds_handle mock_provider ?s [0x22, 0xF1, 0x90] [0, 0, 0] =
      Ret (Some 3, [0x7F, 0x22, 0x33], ?s)"
    unfolding mock.handle_eq [OF len(1)]
    by (simp add: uds_answer_def uds_service_from_u8_def mock_provider_def mock_did_read_len_def
        uds_server_new_def mock_data_new_def did_reserved_def)
  have l: "dp_did_read_len mock_provider ?d did = dp_did_read_len mock_provider (us_data ?s) did" for did
    by (simp add: mock_provider_def mock_did_read_len_def)
  have v: "take (case mock_did_read_len ?d did of Some n \<Rightarrow> n | None \<Rightarrow> 0) (md_store ?d) =
      take (case mock_did_read_len (us_data ?s) did of Some n \<Rightarrow> n | None \<Rightarrow> 0) (md_store (us_data ?s))"
    if "\<not> did_reserved did" for did
    using that by (auto simp: mock_did_read_len_def did_reserved_def uds_server_new_def mock_data_new_def)
  from uds_locked_noninterference [OF mock.uds_provider_axioms len l v h] show ?thesis
    by (intro exI [of _ ?d]) (simp add: uds_server_new_def)
qed

text \<open>A server whose window was just opened, tick by tick.\<close>

lemma ticks_from_5:
  assumes p: "us_tester_present_pending s' = Some 5"
  shows "k < 5 \<Longrightarrow> us_session (ticks k s') = us_session s' \<and> us_security (ticks k s') = us_security s' \<and>
      uds_is_held (ticks k s')"
    and "5 \<le> k \<Longrightarrow> ticks k s' = disarm s'"
proof -
  assume "k < 5"
  then consider "k = 0" | "k = 1" | "k = 2" | "k = 3" | "k = 4" by linarith
  then show "us_session (ticks k s') = us_session s' \<and> us_security (ticks k s') = us_security s' \<and>
      uds_is_held (ticks k s')"
    by cases (simp_all add: ticks_small [OF p] ticks_small(2) [OF p, unfolded One_nat_def] p uds_is_held_def)
next
  assume "5 \<le> k"
  then obtain m where "k = m + 5" using le_Suc_ex by (metis add.commute)
  then show "ticks k s' = disarm s'"
    by (simp add: ticks_add ticks_small(6) [OF p] ticks_not_held disarm_def uds_is_held_def)
qed

text \<open>C32: The liveness watchdog: a TesterPresent is accepted in every state, if the buffer has the two bytes of
  its answer; from then on the session and the security level are kept for four ticks, and from the fifth
  on the server is back in the default session, locked, with no window open.\<close>
theorem uds_watchdog:
  assumes "2 \<le> length response"
  shows "\<exists>response' s'. uds_handle D s (0x3E # 0x00 # rest) response = Ret (Some 2, response', s') \<and>
    (k < 5 \<longrightarrow> us_session (ticks k s') = us_session s \<and> us_security (ticks k s') = us_security s \<and>
      uds_is_held (ticks k s')) \<and>
    (5 \<le> k \<longrightarrow> ticks k s' = disarm s')"
proof -
  let ?s' = "s\<lparr>us_tester_present_pending := Some 5\<rparr>"
  obtain response' where "uds_handle D s (0x3E # 0x00 # rest) response = Ret (Some 2, response', ?s')"
    using that assms by (cases response; cases "tl response")
      (simp_all add: uds_handle_def uds_service_from_u8_def handle_arms tester_present_answer_def)
  moreover have "us_tester_present_pending ?s' = Some 5" by simp
  note t = ticks_from_5 [OF this, of k]
  have "(k < 5 \<longrightarrow> us_session (ticks k ?s') = us_session s \<and> us_security (ticks k ?s') = us_security s \<and>
      uds_is_held (ticks k ?s')) \<and> (5 \<le> k \<longrightarrow> ticks k ?s' = disarm ?s')"
    using t by simp
  ultimately show ?thesis by blast
qed

lemma uds_watchdog_witness:
  "\<exists>response' s'. uds_handle mock_provider (uds_server_new mock_data_new) [0x3E, 0x00] [0, 0] =
     Ret (Some 2, response', s') \<and> \<not> uds_is_held (ticks 5 s')"
  using uds_watchdog [of "[0, 0]" mock_provider "uds_server_new mock_data_new" "[]" 5]
  by (fastforce simp: disarm_def uds_is_held_def)

text \<open>The watchdog is armed by TesterPresent only. A tester that switches to the extended
  session and unlocks but never sends TesterPresent keeps the elevated session through any number
  of ticks, although a stalled tester is documented not to.\<close>
theorem uds_stalled_tester_keeps_session:
  "\<exists>s. uds_trace mock_provider (uds_server_new mock_data_new)
        [Req [0x10, 0x03], Req [0x27, 0x02, 0x55]] s \<and>
      (\<forall>k. us_session (ticks k s) = ExtendedSession \<and> us_security (ticks k s) = Unlocked)"
proof -
  let ?s0 = "uds_server_new mock_data_new"
  let ?s1 = "?s0\<lparr>us_session := ExtendedSession\<rparr>"
  let ?s2 = "?s1\<lparr>us_security := Unlocked\<rparr>"
  have "uds_handle mock_provider ?s0 [0x10, 0x03] [0, 0, 0, 0] = Ret (Some 4, [0x50, 3, 0, 0x32], ?s1)"
    "uds_handle mock_provider ?s1 [0x27, 0x02, 0x55] [0, 0] = Ret (Some 2, [0x67, 2], ?s2)"
    by (simp_all add: uds_handle_def uds_service_from_u8_def handle_arms)
  then have "uds_trace mock_provider ?s0 (([] @ [Req [0x10, 0x03]]) @ [Req [0x27, 0x02, 0x55]]) ?s2"
    by (rule trace_snoc [OF trace_snoc [OF trace_nil step_req] step_req])
  moreover have "ticks k ?s2 = ?s2" for k
    by (rule ticks_not_held) (simp add: uds_is_held_def uds_server_new_def)
  ultimately show ?thesis by (intro exI [of _ ?s2]) (simp add: uds_server_new_def)
qed

text \<open>In every state a new server can reach, the liveness window is closed or between 1 and 5:
  the \<open>Some(0)\<close> arm of \<open>tick\<close> is dead.\<close>
theorem uds_window_invariant:
  assumes "uds_trace D (uds_server_new d) es s"
  shows "window_ok s"
  by (rule trace_window [OF assms]) (simp add: window_ok_def uds_server_new_def)

lemma uds_window_invariant_witness: "window_ok (snd (uds_tick (uds_server_new mock_data_new)))"
proof -
  have "uds_trace mock_provider (uds_server_new mock_data_new) ([] @ [Tick])
    (snd (uds_tick (uds_server_new mock_data_new)))"
    by (rule trace_snoc [OF trace_nil step_tick])
  from uds_window_invariant [OF this] show ?thesis .
qed

end
