(* ===== verification/Ota.thy ===== *)
theory Ota
  imports Vehicle_Bus
begin

text \<open>
  \<open>core/src/ota.rs\<close>: the persistent slot state and its two-byte encoding, the package header, the
  demo signature scheme, and the update engine over a storage backend and a signature scheme,
  which are traits and here records of operations. The locale \<open>ota_storage\<close> states what a backend
  promises; the engine's operations, interrupted by power losses at any point, form a step relation,
  and the reachable states keep a trusted image to fall back to.
\<close>


section \<open>Errors and slot states\<close>

definition OTA_MAGIC :: "u8 list" where "OTA_MAGIC = [0x54, 0x50, 0x54, 0x31]"
definition OTA_FORMAT_VERSION :: u8 where "OTA_FORMAT_VERSION = 1"
definition OTA_MAX_PAYLOAD :: nat where "OTA_MAX_PAYLOAD = 4096"

text \<open>The argument is the feature \<open>crypto-ed25519\<close>.\<close>

definition OTA_SIGNATURE_LEN :: "bool \<Rightarrow> nat" where
  "OTA_SIGNATURE_LEN crypto_ed25519 = (if crypto_ed25519 then 64 else 32)"

datatype ota_error =
    OtaCore error
  | BadPackage
  | BadSignature
  | PayloadTooLarge
  | WriteFailed
  | NoCandidate
  | InvalidState
  | Storage

definition ota_error_from :: "error \<Rightarrow> ota_error" where
  "ota_error_from e = OtaCore e"

fun ota_error_display :: "ota_error \<Rightarrow> string" where
  "ota_error_display (OtaCore e) = ''ota: '' @ error_display e"
| "ota_error_display BadPackage = ''ota: unrecognized package''"
| "ota_error_display BadSignature = ''ota: signature verification failed''"
| "ota_error_display PayloadTooLarge = ''ota: payload too large''"
| "ota_error_display WriteFailed = ''ota: candidate write failed''"
| "ota_error_display NoCandidate = ''ota: no candidate image''"
| "ota_error_display InvalidState = ''ota: operation invalid in current state''"
| "ota_error_display Storage = ''ota: storage backend error''"

datatype slot_state =
    ActiveSlot0
  | ActiveSlot1
  | Pending u8
  | Testing u8 u8

fun active_slot :: "target \<Rightarrow> slot_state \<Rightarrow> u8 outcome" where
  "active_slot t ActiveSlot0 = Ret 0"
| "active_slot t ActiveSlot1 = Ret 1"
| "active_slot t (Pending c) = u8_sub t 1 c"
| "active_slot t (Testing a f) = Ret a"

fun slot_state_encode :: "target \<Rightarrow> slot_state \<Rightarrow> u8 list outcome" where
  "slot_state_encode t ActiveSlot0 = Ret [0x00, 0x00]"
| "slot_state_encode t ActiveSlot1 = Ret [0x00, 0x01]"
| "slot_state_encode t (Pending c) = Ret [0x01, c]"
| "slot_state_encode t (Testing a f) =
     outcome_bind (u8_mul t a 2) (\<lambda>a2.
     outcome_bind (u8_add t a2 f) (\<lambda>b. Ret [0x02, b]))"

definition slot_state_decode :: "u8 \<Rightarrow> u8 \<Rightarrow> slot_state option" where
  "slot_state_decode b0 b1 =
     (if b0 = 0x00 then
        (if b1 = 0 then Some ActiveSlot0 else if b1 = 1 then Some ActiveSlot1 else None)
      else if b0 = 0x01 then (if b1 \<le> 1 then Some (Pending b1) else None)
      else if b0 = 0x02 then
        (let a = b1 div 2; f = b1 mod 2 in
         if a \<le> 1 \<and> f \<le> 1 then Some (Testing a f) else None)
      else None)"


section \<open>Signatures\<close>

record 'v signature_scheme =
  ss_sign :: "'v \<Rightarrow> u8 list \<Rightarrow> u8 list \<Rightarrow> u8 list outcome"
  ss_verify :: "'v \<Rightarrow> u8 list \<Rightarrow> u8 list \<Rightarrow> bool"

record demo_signer =
  ds_key :: u32

definition demo_signer_new :: "u32 \<Rightarrow> demo_signer" where
  "demo_signer_new key = \<lparr>ds_key = key\<rparr>"

text \<open>The loop that spreads the hash over the \<open>n\<close> bytes of the signature.\<close>

fun demo_spread :: "nat \<Rightarrow> u32 \<Rightarrow> u8 list" where
  "demo_spread 0 state = []"
| "demo_spread (Suc n) state =
     ucast (state AND 0xFF) #
     demo_spread n (word_rotl 8 state XOR (drop_bit 24 state * 0x9E3779B9))"

definition demo_hash :: "nat \<Rightarrow> demo_signer \<Rightarrow> u8 list \<Rightarrow> u8 list" where
  "demo_hash n v data =
     demo_spread n (foldl (\<lambda>h b. (h XOR ucast b) * 0x01000193) (0x811C9DC5 XOR ds_key v) data)"

definition demo_sign :: "nat \<Rightarrow> demo_signer \<Rightarrow> u8 list \<Rightarrow> u8 list \<Rightarrow> u8 list" where
  "demo_sign n v data sig = demo_hash n v data"

definition demo_verify :: "nat \<Rightarrow> demo_signer \<Rightarrow> u8 list \<Rightarrow> u8 list \<Rightarrow> bool" where
  "demo_verify n v data sig \<longleftrightarrow> demo_hash n v data = sig"

definition demo_scheme :: "nat \<Rightarrow> demo_signer signature_scheme" where
  "demo_scheme n = \<lparr>ss_sign = \<lambda>v data sig. Ret (demo_sign n v data sig), ss_verify = demo_verify n\<rparr>"

text \<open>What the engine and the packager rely on: signing returns, and the signature has the fixed
  length and verifies.\<close>

locale signature_spec =
  fixes V :: "'v signature_scheme" and sig_len :: nat and signer_ok :: "'v \<Rightarrow> bool"
  assumes sign_verifies: "signer_ok v \<Longrightarrow> length buf = sig_len \<Longrightarrow>
    \<exists>sig. ss_sign V v data buf = Ret sig \<and> length sig = sig_len \<and> ss_verify V v data sig"

lemma length_demo_spread [simp]: "length (demo_spread n state) = n"
  by (induction n arbitrary: state) simp_all

interpretation demo: signature_spec "demo_scheme n" n "\<lambda>_. True"
  by unfold_locales (simp_all add: demo_scheme_def demo_sign_def demo_verify_def demo_hash_def)


section \<open>Packages\<close>

record update_package =
  up_slot :: u8
  up_payload_len :: u32

definition HEADER_LEN :: nat where "HEADER_LEN = 4 + 1 + 1 + 4"

definition encode_package_header :: "update_package \<Rightarrow> u8 list \<Rightarrow> u8 list outcome" where
  "encode_package_header p out =
     outcome_bind (copy_into out 0 4 OTA_MAGIC) (\<lambda>out.
     outcome_bind (store_at out 4 OTA_FORMAT_VERSION) (\<lambda>out.
     outcome_bind (store_at out 5 (up_slot p)) (\<lambda>out.
     copy_into out 6 10 (be_bytes32 (up_payload_len p)))))"

text \<open>The indices below are covered by the length check.\<close>

definition decode_package_header :: "u8 list \<Rightarrow> update_package option" where
  "decode_package_header bytes =
     (if length bytes < HEADER_LEN then None
      else if take 4 bytes \<noteq> OTA_MAGIC then None
      else if bytes ! 4 \<noteq> OTA_FORMAT_VERSION then None
      else
        let slot = bytes ! 5 in
        if slot > 1 then None
        else Some \<lparr>up_slot = slot,
                   up_payload_len = from_be32 (bytes ! 6) (bytes ! 7) (bytes ! 8) (bytes ! 9)\<rparr>)"


section \<open>The engine\<close>

record 's ota_storage_ops =
  os_write_slot :: "'s \<Rightarrow> u8 \<Rightarrow> nat \<Rightarrow> u8 list \<Rightarrow> ((ota_error + unit) \<times> 's) outcome"
  os_read_slot :: "'s \<Rightarrow> u8 \<Rightarrow> nat \<Rightarrow> u8 list \<Rightarrow> ((ota_error + unit) \<times> u8 list) outcome"
  os_slot_capacity :: "'s \<Rightarrow> nat"
  os_write_state :: "'s \<Rightarrow> slot_state \<Rightarrow> ((ota_error + unit) \<times> 's) outcome"
  os_read_state :: "'s \<Rightarrow> ota_error + slot_state"

record ('s, 'v) ota_engine =
  oe_storage :: 's
  oe_signer :: 'v

definition ota_engine_new :: "'s \<Rightarrow> 'v \<Rightarrow> ('s, 'v) ota_engine" where
  "ota_engine_new s v = \<lparr>oe_storage = s, oe_signer = v\<rparr>"

definition ota_state :: "'s ota_storage_ops \<Rightarrow> ('s, 'v) ota_engine \<Rightarrow> ota_error + slot_state" where
  "ota_state S e = os_read_state S (oe_storage e)"

text \<open>The last step of every operation: write the journal, and return a value if that worked.\<close>

definition write_journal :: "'s ota_storage_ops \<Rightarrow> (ota_error \<Rightarrow> ota_error) \<Rightarrow> slot_state \<Rightarrow> 'a \<Rightarrow>
    ('s, 'v) ota_engine \<Rightarrow> ((ota_error + 'a) \<times> ('s, 'v) ota_engine) outcome" where
  "write_journal S f st x e =
     outcome_bind (os_write_state S (oe_storage e) st) (\<lambda>(r, s).
       Ret (map_sum f (\<lambda>_. x) r, e\<lparr>oe_storage := s\<rparr>))"

definition ota_recover :: "target \<Rightarrow> 's ota_storage_ops \<Rightarrow> ('s, 'v) ota_engine \<Rightarrow>
    ((ota_error + u8) \<times> ('s, 'v) ota_engine) outcome" where
  "ota_recover t S e =
     (case os_read_state S (oe_storage e) of
        Inl err \<Rightarrow> Ret (Inl err, e)
      | Inr state \<Rightarrow>
          outcome_bind
            (case state of
               Pending c \<Rightarrow> outcome_bind (u8_sub t 1 c) (\<lambda>f. Ret (Testing c f))
             | Testing a f \<Rightarrow> Ret (if f = 0 then ActiveSlot0 else ActiveSlot1)
             | other \<Rightarrow> Ret other)
            (\<lambda>resolved.
          outcome_bind (active_slot t resolved) (\<lambda>a.
          write_journal S id resolved a e)))"

definition ota_stage :: "'s ota_storage_ops \<Rightarrow> 'v signature_scheme \<Rightarrow> ('s, 'v) ota_engine \<Rightarrow>
    update_package \<Rightarrow> u8 list \<Rightarrow> u8 list \<Rightarrow>
    ((ota_error + unit) \<times> ('s, 'v) ota_engine) outcome" where
  "ota_stage S V e package payload sig =
     (if length payload \<noteq> unat (up_payload_len package) then Ret (Inl BadPackage, e)
      else if length payload > os_slot_capacity S (oe_storage e) \<or> length payload > OTA_MAX_PAYLOAD
        then Ret (Inl PayloadTooLarge, e)
      else
        let signed = replicate (HEADER_LEN + OTA_MAX_PAYLOAD) 0 in
        outcome_bind (slice_to signed HEADER_LEN) (\<lambda>head.
        outcome_bind (encode_package_header package head) (\<lambda>head.
        outcome_bind (copy_into signed 0 HEADER_LEN head) (\<lambda>signed.
        outcome_bind (copy_into signed HEADER_LEN (HEADER_LEN + length payload) payload) (\<lambda>signed.
        outcome_bind (slice_to signed (HEADER_LEN + length payload)) (\<lambda>message.
        if \<not> ss_verify V (oe_signer e) message sig then Ret (Inl BadSignature, e)
        else
          outcome_bind (os_write_slot S (oe_storage e) (up_slot package) 0 payload) (\<lambda>(r, s).
          let e = e\<lparr>oe_storage := s\<rparr> in
          case map_err (\<lambda>_. WriteFailed) r of
            Inl err \<Rightarrow> Ret (Inl err, e)
          | Inr _ \<Rightarrow> write_journal S (\<lambda>_. Storage) (Pending (up_slot package)) () e)))))))"

definition ota_promote :: "target \<Rightarrow> 's ota_storage_ops \<Rightarrow> ('s, 'v) ota_engine \<Rightarrow>
    ((ota_error + u8) \<times> ('s, 'v) ota_engine) outcome" where
  "ota_promote t S e =
     (case os_read_state S (oe_storage e) of
        Inl err \<Rightarrow> Ret (Inl err, e)
      | Inr (Pending c) \<Rightarrow>
          outcome_bind (u8_sub t 1 c) (\<lambda>f. write_journal S (\<lambda>_. Storage) (Testing c f) c e)
      | Inr _ \<Rightarrow> Ret (Inl NoCandidate, e))"

definition ota_commit :: "'s ota_storage_ops \<Rightarrow> ('s, 'v) ota_engine \<Rightarrow>
    ((ota_error + u8) \<times> ('s, 'v) ota_engine) outcome" where
  "ota_commit S e =
     (case os_read_state S (oe_storage e) of
        Inl err \<Rightarrow> Ret (Inl err, e)
      | Inr (Testing a f) \<Rightarrow>
          write_journal S (\<lambda>_. Storage) (if a = 0 then ActiveSlot0 else ActiveSlot1) a e
      | Inr _ \<Rightarrow> Ret (Inl InvalidState, e))"

definition ota_rollback :: "'s ota_storage_ops \<Rightarrow> ('s, 'v) ota_engine \<Rightarrow>
    ((ota_error + u8) \<times> ('s, 'v) ota_engine) outcome" where
  "ota_rollback S e =
     (case os_read_state S (oe_storage e) of
        Inl err \<Rightarrow> Ret (Inl err, e)
      | Inr (Testing a f) \<Rightarrow>
          write_journal S (\<lambda>_. Storage) (if f = 0 then ActiveSlot0 else ActiveSlot1) a e
      | Inr _ \<Rightarrow> Ret (Inl InvalidState, e))"


section \<open>Storage in memory\<close>

text \<open>
  The two-slot array of bytes behind the storage of the example \<open>ota_update\<close>, of the engine's
  tests and of the Zephyr backend without the flash feature: the accesses of \<open>write_slot\<close> and
  \<open>read_slot\<close>, which are the same code in each.
\<close>

definition ram_write_slot :: "target \<Rightarrow> u8 list list \<Rightarrow> u8 \<Rightarrow> nat \<Rightarrow> u8 list \<Rightarrow>
    ((ota_error + unit) \<times> u8 list list) outcome" where
  "ram_write_slot t slots slot offset data =
     (case ok_or (get_opt slots (unat slot)) Storage of
        Inl err \<Rightarrow> Ret (Inl err, slots)
      | Inr s \<Rightarrow>
          outcome_bind (usize_add t offset (length data)) (\<lambda>stop.
          if stop > length s then Ret (Inl Storage, slots)
          else
            outcome_bind (copy_into s offset stop data) (\<lambda>s.
            Ret (Inr (), slots[unat slot := s]))))"

definition ram_read_slot :: "target \<Rightarrow> u8 list list \<Rightarrow> u8 \<Rightarrow> nat \<Rightarrow> u8 list \<Rightarrow>
    ((ota_error + unit) \<times> u8 list) outcome" where
  "ram_read_slot t slots slot offset buf =
     (case ok_or (get_opt slots (unat slot)) Storage of
        Inl err \<Rightarrow> Ret (Inl err, buf)
      | Inr s \<Rightarrow>
          outcome_bind (usize_add t offset (length buf)) (\<lambda>stop.
          if stop > length s then Ret (Inl Storage, buf)
          else
            outcome_bind (subslice s offset stop) (\<lambda>src.
            outcome_bind (copy_into buf 0 (length buf) src) (\<lambda>buf.
            Ret (Inr (), buf)))))"

definition SLOT_CAP :: nat where "SLOT_CAP = 256"

record mem_storage =
  ms_slots :: "u8 list list"
  ms_state :: slot_state

definition mem_storage_new :: mem_storage where
  "mem_storage_new = \<lparr>ms_slots = replicate 2 (replicate SLOT_CAP 0), ms_state = ActiveSlot0\<rparr>"

definition mem_write_slot :: "target \<Rightarrow> mem_storage \<Rightarrow> u8 \<Rightarrow> nat \<Rightarrow> u8 list \<Rightarrow>
    ((ota_error + unit) \<times> mem_storage) outcome" where
  "mem_write_slot t s slot offset data =
     outcome_bind (ram_write_slot t (ms_slots s) slot offset data) (\<lambda>(r, slots).
     Ret (r, s\<lparr>ms_slots := slots\<rparr>))"

definition mem_read_slot :: "target \<Rightarrow> mem_storage \<Rightarrow> u8 \<Rightarrow> nat \<Rightarrow> u8 list \<Rightarrow>
    ((ota_error + unit) \<times> u8 list) outcome" where
  "mem_read_slot t s slot offset buf = ram_read_slot t (ms_slots s) slot offset buf"

definition mem_slot_capacity :: "mem_storage \<Rightarrow> nat" where
  "mem_slot_capacity s = SLOT_CAP"

definition mem_write_state :: "mem_storage \<Rightarrow> slot_state \<Rightarrow> ((ota_error + unit) \<times> mem_storage) outcome"
where
  "mem_write_state s st = Ret (Inr (), s\<lparr>ms_state := st\<rparr>)"

definition mem_read_state :: "mem_storage \<Rightarrow> ota_error + slot_state" where
  "mem_read_state s = Inr (ms_state s)"

definition mem_ops :: "target \<Rightarrow> mem_storage ota_storage_ops" where
  "mem_ops t =
     \<lparr>os_write_slot = mem_write_slot t, os_read_slot = mem_read_slot t,
      os_slot_capacity = mem_slot_capacity, os_write_state = mem_write_state,
      os_read_state = mem_read_state\<rparr>"


section \<open>The two-byte journal\<close>

fun journal_ok :: "slot_state \<Rightarrow> bool" where
  "journal_ok (Pending c) \<longleftrightarrow> c \<le> 1"
| "journal_ok (Testing a f) \<longleftrightarrow> a \<le> 1 \<and> f \<le> 1"
| "journal_ok _ \<longleftrightarrow> True"

lemma slot_le_1: "(c :: u8) \<le> 1 \<longleftrightarrow> c = 0 \<or> c = 1"
proof
  assume "c \<le> 1"
  then have "unat c = 0 \<or> unat c = 1" by (auto simp: word_le_nat_alt)
  then show "c = 0 \<or> c = 1" by (auto simp: word_unat_eq_iff)
qed auto

lemma slot_state_encode_decode:
  assumes "journal_ok st"
  shows "\<exists>b0 b1. slot_state_encode t st = Ret [b0, b1] \<and> slot_state_decode b0 b1 = Some st"
  using assms
  by (cases st) (auto simp: slot_state_decode_def slot_le_1 u8_mul_def u8_add_def arith_def)

lemma slot_state_decode_encode:
  assumes "slot_state_decode b0 b1 = Some st"
  shows "journal_ok st \<and> slot_state_encode t st = Ret [b0, b1]"
proof -
  have *: "b1 = 2 * (b1 div 2) + b1 mod 2" by (simp only: mult_div_mod_eq)
  have "slot_state_encode t (Testing a f) = Ret [2, b1]" if "b1 div 2 = a" "b1 mod 2 = f" "a \<le> 1" "f \<le> 1" for a f
  proof -
    have "b1 = 2 * a + f" using * that by simp
    then show ?thesis using that(3,4) by (auto simp: slot_le_1 u8_mul_def u8_add_def arith_def)
  qed
  with assms show ?thesis
    by (auto simp: slot_state_decode_def Let_def split: if_splits)
qed


section \<open>Packages on the wire\<close>

definition package_header :: "update_package \<Rightarrow> u8 list" where
  "package_header p = OTA_MAGIC @ [OTA_FORMAT_VERSION, up_slot p] @ be_bytes32 (up_payload_len p)"

lemma length_package_header [simp]: "length (package_header p) = 10"
  by (simp add: package_header_def OTA_MAGIC_def)

lemma encode_package_header_eq:
  assumes "10 \<le> length out"
  shows "encode_package_header p out = Ret (package_header p @ drop 10 out)"
proof -
  obtain a b c d x y e f g h rest where "out = a # b # c # d # x # y # e # f # g # h # rest"
    using assms by (auto simp: numeral_eq_Suc Suc_le_length_iff)
  then show ?thesis
    by (simp add: encode_package_header_def package_header_def OTA_MAGIC_def)
qed

lemma decode_package_header_wire:
  "decode_package_header (package_header p @ rest) = (if up_slot p \<le> 1 then Some p else None)"
  by (cases p)
    (simp add: decode_package_header_def package_header_def OTA_MAGIC_def HEADER_LEN_def Let_def
      be_bytes32_def wire_simps not_le)

lemma decode_package_header_Some:
  assumes "decode_package_header bytes = Some p"
  shows "up_slot p \<le> 1 \<and> take 10 bytes = package_header p"
proof -
  from assms have "10 \<le> length bytes"
    by (auto simp: decode_package_header_def HEADER_LEN_def split: if_splits)
  then obtain a b c d x y e f g h rest where b: "bytes = a # b # c # d # x # y # e # f # g # h # rest"
    by (auto simp: numeral_eq_Suc Suc_le_length_iff)
  show ?thesis
    using assms unfolding b
    by (auto simp: decode_package_header_def package_header_def OTA_MAGIC_def HEADER_LEN_def Let_def
        be_bytes32_from_be32 not_less split: if_splits)
qed

text \<open>The message a package's signature covers.\<close>

definition package_message :: "update_package \<Rightarrow> u8 list \<Rightarrow> u8 list" where
  "package_message p payload = package_header p @ payload"

lemma ota_stage_eq:
  "ota_stage S V e p payload sig =
     (if length payload \<noteq> unat (up_payload_len p) then Ret (Inl BadPackage, e)
      else if length payload > os_slot_capacity S (oe_storage e) \<or> length payload > OTA_MAX_PAYLOAD
        then Ret (Inl PayloadTooLarge, e)
      else if \<not> ss_verify V (oe_signer e) (package_message p payload) sig then Ret (Inl BadSignature, e)
      else
        outcome_bind (os_write_slot S (oe_storage e) (up_slot p) 0 payload) (\<lambda>(r, s).
        let e = e\<lparr>oe_storage := s\<rparr> in
        case r of
          Inl _ \<Rightarrow> Ret (Inl WriteFailed, e)
        | Inr _ \<Rightarrow> write_journal S (\<lambda>_. Storage) (Pending (up_slot p)) () e))"
proof (cases "length payload \<le> OTA_MAX_PAYLOAD")
  case True
  have "take (10 + length payload) (package_header p @ payload @ rest) = package_header p @ payload" for rest
    by simp
  then show ?thesis
    using True by (cases "os_write_slot S (oe_storage e) (up_slot p) 0 payload")
      (auto simp: ota_stage_def encode_package_header_eq package_message_def HEADER_LEN_def
        OTA_MAX_PAYLOAD_def Let_def split: sum.split)
qed (auto simp: ota_stage_def)


text \<open>A package signed with a scheme that keeps its contract passes the checks of \<open>stage\<close>.\<close>

definition stage_verified ::
  "'s ota_storage_ops \<Rightarrow> 'v signature_scheme \<Rightarrow> ('s, 'v) ota_engine \<Rightarrow> update_package \<Rightarrow>
   u8 list \<Rightarrow> u8 list \<Rightarrow> bool" where
  "stage_verified S V e p payload sig \<longleftrightarrow>
     length payload = unat (up_payload_len p) \<and> length payload \<le> os_slot_capacity S (oe_storage e) \<and>
     length payload \<le> OTA_MAX_PAYLOAD \<and> ss_verify V (oe_signer e) (package_message p payload) sig"

context signature_spec
begin

lemma signed_package_verified:
  assumes "signer_ok v" "length buf = sig_len" "length payload \<le> OTA_MAX_PAYLOAD"
    and "p = \<lparr>up_slot = slot, up_payload_len = of_nat (length payload)\<rparr>"
    and "length payload \<le> os_slot_capacity S s"
  shows "\<exists>sig. ss_sign V v (package_message p payload) buf = Ret sig \<and> length sig = sig_len \<and>
    stage_verified S V \<lparr>oe_storage = s, oe_signer = v\<rparr> p payload sig"
  using sign_verifies [OF assms(1,2), of "package_message p payload"] assms(3-5)
  by (auto simp: stage_verified_def OTA_MAX_PAYLOAD_def)

end


section \<open>What a storage backend promises\<close>

text \<open>
  How a specification sees a storage: the bytes of a slot, the journal, and the states in which the
  promises hold. A journal write is atomic: it happens or it fails and changes nothing. A slot
  write may fail and leave the slot in any state, but touches neither the other slot nor the
  journal.
\<close>

record 's storage_view =
  sv_image :: "'s \<Rightarrow> u8 \<Rightarrow> u8 list"
  sv_journal :: "'s \<Rightarrow> slot_state"
  sv_ok :: "'s \<Rightarrow> bool"

locale ota_storage =
  fixes S :: "'s ota_storage_ops" and W :: "'s storage_view"
  assumes read_state: "sv_ok W s \<Longrightarrow> os_read_state S s = Inr (sv_journal W s)"
    and write_state: "sv_ok W s \<Longrightarrow> journal_ok st \<Longrightarrow>
          \<exists>r s'. os_write_state S s st = Ret (r, s') \<and> sv_ok W s' \<and>
            sv_image W s' = sv_image W s \<and>
            sv_journal W s' = (if r = Inr () then st else sv_journal W s)"
    and write_slot: "sv_ok W s \<Longrightarrow> k \<le> 1 \<Longrightarrow> length data \<le> os_slot_capacity S s \<Longrightarrow>
          \<exists>r s'. os_write_slot S s k 0 data = Ret (r, s') \<and> sv_ok W s' \<and>
            sv_journal W s' = sv_journal W s \<and>
            sv_image W s' (1 - k) = sv_image W s (1 - k) \<and>
            (r = Inr () \<longrightarrow> take (length data) (sv_image W s' k) = data)"
    and journal: "sv_ok W s \<Longrightarrow> journal_ok (sv_journal W s)"


section \<open>The engine under power loss\<close>

text \<open>
  \<open>StageTorn\<close> is a staging that loses power between the signature check and the journal write: the
  candidate slot then holds anything, and nobody sees a result (\<open>Inl WriteFailed\<close> stands for that). The
  other operations write nothing but the journal, so a power loss in them is one before or after
  them. A step shows what the call returned: an error, or the slot it reported, if any.
\<close>

datatype ota_event =
    Stage update_package "u8 list" "u8 list"
  | StageTorn update_package "u8 list" "u8 list"
  | Promote | Commit | Rollback | Reboot

inductive ota_step ::
  "target \<Rightarrow> 's ota_storage_ops \<Rightarrow> 's storage_view \<Rightarrow> 'v signature_scheme \<Rightarrow>
   ('s, 'v) ota_engine \<Rightarrow> ota_event \<Rightarrow> ota_error + u8 option \<Rightarrow> ('s, 'v) ota_engine \<Rightarrow> bool"
  for t :: target and S :: "'s ota_storage_ops" and W :: "'s storage_view"
    and V :: "'v signature_scheme"
where
  step_stage: "ota_stage S V e p payload sig = Ret (r, e') \<Longrightarrow>
     ota_step t S W V e (Stage p payload sig) (map_sum id (\<lambda>_. None) r) e'"
| step_torn: "stage_verified S V e p payload sig \<Longrightarrow> sv_ok W s' \<Longrightarrow>
     sv_journal W s' = sv_journal W (oe_storage e) \<Longrightarrow>
     sv_image W s' (1 - up_slot p) = sv_image W (oe_storage e) (1 - up_slot p) \<Longrightarrow>
     ota_step t S W V e (StageTorn p payload sig) (Inl WriteFailed) (e\<lparr>oe_storage := s'\<rparr>)"
| step_promote: "ota_promote t S e = Ret (r, e') \<Longrightarrow> ota_step t S W V e Promote (map_sum id Some r) e'"
| step_commit: "ota_commit S e = Ret (r, e') \<Longrightarrow> ota_step t S W V e Commit (map_sum id Some r) e'"
| step_rollback: "ota_rollback S e = Ret (r, e') \<Longrightarrow> ota_step t S W V e Rollback (map_sum id Some r) e'"
| step_reboot: "ota_recover t S e = Ret (r, e') \<Longrightarrow> ota_step t S W V e Reboot (map_sum id Some r) e'"

text \<open>
  The discipline under which the promise holds. The documentation of \<open>stage\<close> asks for the candidate
  (inactive) slot only; that an image is committed, so that no candidate is pending or on trial, is
  asked for nowhere and enforced nowhere, but needed (\<open>ota_torn_restaging_boots_scrap\<close>).
\<close>

fun stage_allowed :: "slot_state \<Rightarrow> ota_event \<Rightarrow> bool" where
  "stage_allowed st (Stage p _ _) \<longleftrightarrow>
     st = ActiveSlot0 \<and> up_slot p = 1 \<or> st = ActiveSlot1 \<and> up_slot p = 0"
| "stage_allowed st (StageTorn p _ _) \<longleftrightarrow>
     st = ActiveSlot0 \<and> up_slot p = 1 \<or> st = ActiveSlot1 \<and> up_slot p = 0"
| "stage_allowed st _ \<longleftrightarrow> True"

text \<open>
  Where the bytes of a slot are from: the vehicle was delivered with them, they are what the last staging
  into the slot wrote to the end, or that staging broke off. \<open>origins_after\<close> keeps the account from
  what happened: a failed slot write is reported as \<open>WriteFailed\<close>, a failed journal write after a
  complete slot write as \<open>Storage\<close>; every other error comes before the first write.
\<close>

datatype origin = Factory | Installed update_package "u8 list" "u8 list" | Scrap

definition origin_staged :: "(u8 \<Rightarrow> origin) \<Rightarrow> update_package \<Rightarrow> u8 list \<Rightarrow> u8 list \<Rightarrow> ota_error + 'x \<Rightarrow> u8 \<Rightarrow> origin" where
  "origin_staged os p payload sig r =
     (if r = Inl WriteFailed then os(up_slot p := Scrap)
      else if r = Inl Storage \<or> \<not> isl r then os(up_slot p := Installed p payload sig)
      else os)"

lemma origin_staged_map [simp]: "origin_staged os p payload sig (map_sum id f r) = origin_staged os p payload sig r"
  by (cases r) (simp_all add: origin_staged_def)

fun origins_after :: "(u8 \<Rightarrow> origin) \<Rightarrow> ota_event \<Rightarrow> ota_error + 'x \<Rightarrow> u8 \<Rightarrow> origin" where
  "origins_after os (Stage p payload sig) r = origin_staged os p payload sig r"
| "origins_after os (StageTorn p payload sig) r = os(up_slot p := Scrap)"
| "origins_after os _ r = os"

inductive ota_reach ::
  "target \<Rightarrow> 's ota_storage_ops \<Rightarrow> 's storage_view \<Rightarrow> 'v signature_scheme \<Rightarrow>
   (u8 \<Rightarrow> origin) \<Rightarrow> ('s, 'v) ota_engine \<Rightarrow> (u8 \<Rightarrow> origin) \<Rightarrow> ('s, 'v) ota_engine \<Rightarrow> bool"
  for t :: target and S :: "'s ota_storage_ops" and W :: "'s storage_view"
    and V :: "'v signature_scheme" and os0 :: "u8 \<Rightarrow> origin" and e0 :: "('s, 'v) ota_engine"
where
  reach_init: "ota_reach t S W V os0 e0 os0 e0"
| reach_step: "ota_reach t S W V os0 e0 os e \<Longrightarrow> ota_step t S W V e ev r e' \<Longrightarrow>
     stage_allowed (sv_journal W (oe_storage e)) ev \<Longrightarrow>
     ota_reach t S W V os0 e0 (origins_after os ev r) e'"

text \<open>A slot can be trusted if it holds the image the vehicle was delivered with, or if it begins with the
  payload of the package that was last staged into it, a package for this slot whose signature verifies.\<close>

fun trusted :: "'v signature_scheme \<Rightarrow> 'v \<Rightarrow> u8 list \<Rightarrow> u8 \<Rightarrow> origin \<Rightarrow> u8 list \<Rightarrow> bool" where
  "trusted V v factory k Factory img \<longleftrightarrow> img = factory"
| "trusted V v factory k (Installed p payload sig) img \<longleftrightarrow>
     up_slot p = k \<and> length payload = unat (up_payload_len p) \<and>
     ss_verify V v (package_message p payload) sig \<and> take (length payload) img = payload"
| "trusted V v factory k Scrap img \<longleftrightarrow> False"

text \<open>A journal is safe if the slots it can lead to are good.\<close>

fun slots_safe :: "(u8 \<Rightarrow> bool) \<Rightarrow> slot_state \<Rightarrow> bool" where
  "slots_safe good ActiveSlot0 \<longleftrightarrow> good 0"
| "slots_safe good ActiveSlot1 \<longleftrightarrow> good 1"
| "slots_safe good (Pending c) \<longleftrightarrow> c \<le> 1 \<and> good c \<and> good (1 - c)"
| "slots_safe good (Testing a f) \<longleftrightarrow> a \<le> 1 \<and> f = 1 - a \<and> good a \<and> good f"

definition slots_trusted ::
  "'v signature_scheme \<Rightarrow> 'v \<Rightarrow> u8 list \<Rightarrow> (u8 \<Rightarrow> origin) \<Rightarrow> (u8 \<Rightarrow> u8 list) \<Rightarrow> u8 \<Rightarrow> bool" where
  "slots_trusted V v factory os img k = trusted V v factory k (os k) (img k)"

definition ota_safe ::
  "'s storage_view \<Rightarrow> 'v signature_scheme \<Rightarrow> 'v \<Rightarrow> u8 list \<Rightarrow> (u8 \<Rightarrow> origin) \<Rightarrow> ('s, 'v) ota_engine \<Rightarrow> bool" where
  "ota_safe W V v factory os e \<longleftrightarrow>
     sv_ok W (oe_storage e) \<and> oe_signer e = v \<and>
     slots_safe (slots_trusted V v factory os (sv_image W (oe_storage e))) (sv_journal W (oe_storage e))"

text \<open>What a staging does to the two slots, as the account has it.\<close>

lemma write_journal_result:
  assumes "write_journal S (\<lambda>_. Storage) st x e = Ret (q, e')"
  shows "q = Inl Storage \<or> q = Inr x"
proof (cases "os_write_state S (oe_storage e) st")
  case (Ret p)
  with assms show ?thesis by (cases p; cases "fst p") (auto simp: write_journal_def)
qed (use assms in \<open>simp add: write_journal_def\<close>)

lemma slots_trusted_other:
  "k \<noteq> c \<Longrightarrow> img' k = img k \<Longrightarrow> slots_trusted V v factory (os(c := x)) img' k = slots_trusted V v factory os img k"
  by (simp add: slots_trusted_def)

lemma slots_trusted_installed:
  "stage_verified S V e p payload sig \<Longrightarrow> take (length payload) (img (up_slot p)) = payload \<Longrightarrow>
   slots_trusted V (oe_signer e) factory (os(up_slot p := Installed p payload sig)) img (up_slot p)"
  by (simp add: slots_trusted_def stage_verified_def)

text \<open>The journal after a reboot, and the slot it runs.\<close>

fun resolved_state :: "slot_state \<Rightarrow> slot_state" where
  "resolved_state (Pending c) = Testing c (1 - c)"
| "resolved_state (Testing a f) = (if f = 0 then ActiveSlot0 else ActiveSlot1)"
| "resolved_state st = st"

fun running_slot :: "slot_state \<Rightarrow> u8" where
  "running_slot ActiveSlot0 = 0"
| "running_slot ActiveSlot1 = 1"
| "running_slot (Pending c) = 1 - c"
| "running_slot (Testing a f) = a"

lemma slots_safe_running: "slots_safe good st \<Longrightarrow> running_slot st \<le> 1 \<and> good (running_slot st)"
  by (cases st) (auto simp: slot_le_1)

lemma active_slot_running: "journal_ok st \<Longrightarrow> active_slot t st = Ret (running_slot st)"
  by (cases st) simp_all

lemma resolved_journal_ok: "journal_ok st \<Longrightarrow> journal_ok (resolved_state st)"
  by (cases st) (auto simp: slot_le_1)

lemma ota_recover_eq:
  assumes "os_read_state S (oe_storage e) = Inr st" "journal_ok st"
  shows "ota_recover t S e =
    write_journal S id (resolved_state st) (running_slot (resolved_state st)) e"
  using assms active_slot_running [OF resolved_journal_ok [OF assms(2)], of t]
  by (cases st) (simp_all add: ota_recover_def)

lemma resolved_safe:
  assumes "slots_safe good st"
  shows "slots_safe good (resolved_state st)" "journal_ok (resolved_state st)"
    "good (running_slot (resolved_state st))"
  using assms by (cases st; auto simp: slot_le_1)+

context ota_storage
begin

text \<open>Every operation but staging ends in \<open>write_journal\<close>: if the new journal describes the slots
  safely, so does the storage after the call, whether the write worked or not.\<close>

lemma write_journal_safe:
  assumes "ota_safe W V v factory os e" "journal_ok st"
    and "slots_safe (slots_trusted V v factory os (sv_image W (oe_storage e))) st"
  shows "\<exists>r e'. write_journal S f st x e = Ret (r, e') \<and> ota_safe W V v factory os e' \<and>
    (\<forall>y. r = Inr y \<longrightarrow> y = x \<and> sv_journal W (oe_storage e') = st)"
proof -
  have "sv_ok W (oe_storage e)" using assms(1) by (simp add: ota_safe_def)
  from write_state [OF this assms(2)] obtain r s' where
    "os_write_state S (oe_storage e) st = Ret (r, s')" "sv_ok W s'"
    "sv_image W s' = sv_image W (oe_storage e)"
    "sv_journal W s' = (if r = Inr () then st else sv_journal W (oe_storage e))"
    by blast
  with assms show ?thesis
    by (cases r) (simp_all add: write_journal_def ota_safe_def)
qed

lemma recover_safe:
  assumes "ota_safe W V v factory os e"
  shows "\<exists>r e'. ota_recover t S e = Ret (r, e') \<and> ota_safe W V v factory os e' \<and>
    (\<forall>a. r = Inr a \<longrightarrow> trusted V v factory a (os a) (sv_image W (oe_storage e') a) \<and>
       sv_journal W (oe_storage e') = resolved_state (sv_journal W (oe_storage e)) \<and>
       a = running_slot (resolved_state (sv_journal W (oe_storage e))))"
proof -
  let ?st = "resolved_state (sv_journal W (oe_storage e))"
  have ok: "sv_ok W (oe_storage e)" using assms by (simp add: ota_safe_def)
  note res = resolved_safe [of "slots_trusted V v factory os (sv_image W (oe_storage e))" "sv_journal W (oe_storage e)"]
  have safe: "slots_safe (slots_trusted V v factory os (sv_image W (oe_storage e))) (sv_journal W (oe_storage e))"
    using assms by (simp add: ota_safe_def)
  have rec: "ota_recover t S e = write_journal S id ?st (running_slot ?st) e"
    by (rule ota_recover_eq [OF read_state [OF ok] journal [OF ok]])
  from write_state [OF ok res(2) [OF safe]] obtain r s' where
    w: "os_write_state S (oe_storage e) ?st = Ret (r, s')" "sv_ok W s'"
    "sv_image W s' = sv_image W (oe_storage e)"
    "sv_journal W s' = (if r = Inr () then ?st else sv_journal W (oe_storage e))"
    by blast
  then show ?thesis
    unfolding rec using assms res(1,3) [OF safe]
    by (cases r) (simp_all add: write_journal_def ota_safe_def slots_trusted_def)
qed

lemma promote_safe:
  assumes "ota_safe W V v factory os e"
  shows "\<exists>r e'. ota_promote t S e = Ret (r, e') \<and> ota_safe W V v factory os e'"
proof (cases "sv_journal W (oe_storage e)")
  case (Pending c)
  then have "journal_ok (Testing c (1 - c))"
    "slots_safe (slots_trusted V v factory os (sv_image W (oe_storage e))) (Testing c (1 - c))" "c \<le> 1"
    using assms by (auto simp: ota_safe_def slot_le_1)
  then show ?thesis
    using write_journal_safe [OF assms, of "Testing c (1 - c)" "\<lambda>_. Storage" c]
      read_state [of "oe_storage e"] assms Pending
    by (auto simp: ota_promote_def ota_safe_def)
qed (use assms read_state [of "oe_storage e"] in \<open>auto simp: ota_promote_def ota_safe_def\<close>)

lemma commit_safe:
  assumes "ota_safe W V v factory os e"
  shows "\<exists>r e'. ota_commit S e = Ret (r, e') \<and> ota_safe W V v factory os e'"
proof (cases "sv_journal W (oe_storage e)")
  case (Testing a f)
  let ?st = "if a = 0 then ActiveSlot0 else ActiveSlot1"
  have "journal_ok ?st" "slots_safe (slots_trusted V v factory os (sv_image W (oe_storage e))) ?st"
    using assms Testing by (auto simp: ota_safe_def slot_le_1)
  then show ?thesis
    using write_journal_safe [OF assms, of ?st "\<lambda>_. Storage" a]
      read_state [of "oe_storage e"] assms Testing
    by (fastforce simp: ota_commit_def ota_safe_def)
qed (use assms read_state [of "oe_storage e"] in \<open>auto simp: ota_commit_def ota_safe_def\<close>)

lemma rollback_safe:
  assumes "ota_safe W V v factory os e"
  shows "\<exists>r e'. ota_rollback S e = Ret (r, e') \<and> ota_safe W V v factory os e'"
proof (cases "sv_journal W (oe_storage e)")
  case (Testing a f)
  let ?st = "if f = 0 then ActiveSlot0 else ActiveSlot1"
  have "journal_ok ?st" "slots_safe (slots_trusted V v factory os (sv_image W (oe_storage e))) ?st"
    using assms Testing by (auto simp: ota_safe_def slot_le_1)
  then show ?thesis
    using write_journal_safe [OF assms, of ?st "\<lambda>_. Storage" a]
      read_state [of "oe_storage e"] assms Testing
    by (fastforce simp: ota_rollback_def ota_safe_def)
qed (use assms read_state [of "oe_storage e"] in \<open>auto simp: ota_rollback_def ota_safe_def\<close>)

lemma stage_safe:
  assumes "ota_safe W V v factory os e" "stage_allowed (sv_journal W (oe_storage e)) (Stage p payload sig)"
  shows "\<exists>r e'. ota_stage S V e p payload sig = Ret (r, e') \<and>
    ota_safe W V v factory (origin_staged os p payload sig r) e'"
proof (cases "stage_verified S V e p payload sig")
  case False
  then show ?thesis using assms(1) by (auto simp: ota_stage_eq stage_verified_def origin_staged_def)
next
  case True
  let ?s = "oe_storage e"
  let ?installed = "os(up_slot p := Installed p payload sig)"
  have ok: "sv_ok W ?s" "oe_signer e = v"
    and safe: "slots_safe (slots_trusted V v factory os (sv_image W ?s)) (sv_journal W ?s)"
    using assms(1) by (simp_all add: ota_safe_def)
  from assms(2) have slot: "up_slot p \<le> 1" "1 - up_slot p \<noteq> up_slot p"
    "sv_journal W ?s = (if up_slot p = 1 then ActiveSlot0 else ActiveSlot1)"
    "slots_trusted V v factory os (sv_image W ?s) (1 - up_slot p)"
    using safe by auto
  from True have len: "length payload \<le> os_slot_capacity S ?s" by (simp add: stage_verified_def)
  from write_slot [OF ok(1) slot(1) len] obtain r s' where
    w: "os_write_slot S ?s (up_slot p) 0 payload = Ret (r, s')" "sv_ok W s'"
    "sv_journal W s' = sv_journal W ?s"
    "sv_image W s' (1 - up_slot p) = sv_image W ?s (1 - up_slot p)"
    "r = Inr () \<longrightarrow> take (length payload) (sv_image W s' (up_slot p)) = payload" by blast
  let ?e = "e\<lparr>oe_storage := s'\<rparr>"
  have other: "slots_trusted V v factory (os(up_slot p := x)) (sv_image W s') (1 - up_slot p)" for x
    using slot(4) slots_trusted_other [OF slot(2), of "sv_image W s'" "sv_image W ?s" V] w(4) by simp
  have e: "ota_safe W V v factory (os(up_slot p := x)) ?e" for x
    using w slot ok other [of x] by (auto simp: ota_safe_def slot_le_1)
  have stage: "ota_stage S V e p payload sig =
    (case r of Inl _ \<Rightarrow> Ret (Inl WriteFailed, ?e)
     | Inr _ \<Rightarrow> write_journal S (\<lambda>_. Storage) (Pending (up_slot p)) () ?e)"
    using True w(1) by (simp add: ota_stage_eq stage_verified_def Let_def)
  show ?thesis
  proof (cases r)
    case (Inl err)
    with stage e show ?thesis by (simp add: origin_staged_def)
  next
    case (Inr u)
    then have "slots_trusted V v factory ?installed (sv_image W s') (up_slot p)"
      using slots_trusted_installed [OF True] w(5) ok(2) by simp
    then have "slots_safe (slots_trusted V v factory ?installed (sv_image W (oe_storage ?e))) (Pending (up_slot p))"
      using slot(1) other by simp
    moreover have "origin_staged os p payload sig q = ?installed"
      if "write_journal S (\<lambda>_. Storage) (Pending (up_slot p)) () ?e = Ret (q, e')" for q e'
      using write_journal_result [OF that] by (auto simp: origin_staged_def)
    ultimately show ?thesis
      using write_journal_safe [OF e, of "Pending (up_slot p)" "Installed p payload sig" "\<lambda>_. Storage" "()"]
        slot(1) stage Inr by fastforce
  qed
qed

lemma torn_safe:
  assumes "ota_safe W V v factory os e" "stage_allowed (sv_journal W (oe_storage e)) (StageTorn p payload sig)"
    and "sv_ok W s'" "sv_journal W s' = sv_journal W (oe_storage e)"
    and "sv_image W s' (1 - up_slot p) = sv_image W (oe_storage e) (1 - up_slot p)"
  shows "ota_safe W V v factory (os(up_slot p := Scrap)) (e\<lparr>oe_storage := s'\<rparr>)"
  using assms by (auto simp: ota_safe_def slots_trusted_def)

lemma step_safe:
  assumes "ota_step t S W V e ev r e'" "ota_safe W V v factory os e"
    and "stage_allowed (sv_journal W (oe_storage e)) ev"
  shows "ota_safe W V v factory (origins_after os ev r) e'"
  using assms(1)
proof cases
  case (step_stage p payload sig q)
  with stage_safe [OF assms(2), of p payload sig] assms(3) show ?thesis by auto
next
  case (step_torn p payload sig s')
  with torn_safe [OF assms(2)] assms(3) show ?thesis by simp
next
  case (step_promote q)
  with promote_safe [OF assms(2), of t] show ?thesis by auto
next
  case (step_commit q)
  with commit_safe [OF assms(2)] show ?thesis by auto
next
  case (step_rollback q)
  with rollback_safe [OF assms(2)] show ?thesis by auto
next
  case (step_reboot q)
  with recover_safe [OF assms(2), of t] show ?thesis by auto
qed

text \<open>A reboot that reports a slot, in any state.\<close>

lemma recovered_by:
  assumes "sv_ok W (oe_storage e)" "ota_recover t S e = Ret (Inr a, e')"
  shows "sv_ok W (oe_storage e')" "sv_image W (oe_storage e') = sv_image W (oe_storage e)"
    "sv_journal W (oe_storage e') = resolved_state (sv_journal W (oe_storage e))"
    "a = running_slot (resolved_state (sv_journal W (oe_storage e)))"
proof -
  let ?st = "resolved_state (sv_journal W (oe_storage e))"
  note j = journal [OF assms(1)]
  from write_state [OF assms(1) resolved_journal_ok [OF j]] obtain r s' where
    "os_write_state S (oe_storage e) ?st = Ret (r, s')" "sv_ok W s'" "sv_image W s' = sv_image W (oe_storage e)"
    "r = Inr () \<Longrightarrow> sv_journal W s' = ?st" by auto
  with assms(2) show "sv_ok W (oe_storage e')" "sv_image W (oe_storage e') = sv_image W (oe_storage e)"
    "sv_journal W (oe_storage e') = ?st" "a = running_slot ?st"
    unfolding ota_recover_eq [OF read_state [OF assms(1)] j] by (cases r; auto simp: write_journal_def)+
qed

text \<open>A staging whose slot write fails leaves the journal as it was.\<close>

lemma failed_write:
  assumes "sv_ok W (oe_storage e)" "up_slot p \<le> 1" "ota_stage S V e p payload sig = Ret (Inl WriteFailed, e')"
  shows "sv_ok W (oe_storage e') \<and> sv_journal W (oe_storage e') = sv_journal W (oe_storage e)"
proof (cases "stage_verified S V e p payload sig")
  case True
  then have len: "length payload \<le> os_slot_capacity S (oe_storage e)" by (simp add: stage_verified_def)
  from write_slot [OF assms(1,2) len] obtain r s' where
    w: "os_write_slot S (oe_storage e) (up_slot p) 0 payload = Ret (r, s')" "sv_ok W s'"
    "sv_journal W s' = sv_journal W (oe_storage e)" by blast
  let ?e = "e\<lparr>oe_storage := s'\<rparr>"
  have "(case r of Inl _ \<Rightarrow> Ret (Inl WriteFailed, ?e)
     | Inr _ \<Rightarrow> write_journal S (\<lambda>_. Storage) (Pending (up_slot p)) () ?e) = Ret (Inl WriteFailed, e')"
    using True w(1) assms(3) by (simp add: ota_stage_eq stage_verified_def Let_def)
  with w write_journal_result [of S "Pending (up_slot p)" "()" ?e "Inl WriteFailed" e'] show ?thesis
    by (cases r) auto
qed (use assms(3) in \<open>auto simp: ota_stage_eq stage_verified_def split: if_splits\<close>)

lemma reach_safe:
  "ota_reach t S W V os0 e0 os e \<Longrightarrow> ota_safe W V v factory os0 e0 \<Longrightarrow> ota_safe W V v factory os e"
  by (induction rule: ota_reach.induct) (auto intro: step_safe)

end


section \<open>Storage in memory keeps the promise\<close>

definition slots_ok :: "nat \<Rightarrow> u8 list list \<Rightarrow> bool" where
  "slots_ok cap slots \<longleftrightarrow> length slots = 2 \<and> (\<forall>xs \<in> set slots. length xs = cap)"

lemma slots_ok_nth: "slots_ok cap slots \<Longrightarrow> k \<le> 1 \<Longrightarrow> unat k < length slots \<and> length (slots ! unat (k :: u8)) = cap"
  by (auto simp: slots_ok_def slot_le_1)

lemma usize_cap: "32 \<le> usize_bits t \<Longrightarrow> n < 2 ^ 32 \<Longrightarrow> n < 2 ^ usize_bits t" for n :: nat
  using power_increasing [of 32 "usize_bits t" "2 :: nat"] by simp

text \<open>A write at offset 0 that fits: it returns, and it is what the view of a storage asks for.\<close>

lemma ram_write_slot_0:
  assumes "slots_ok cap slots" "k \<le> 1" "length data \<le> cap" "cap < 2 ^ usize_bits t"
  shows "\<exists>slots'. ram_write_slot t slots k 0 data = Ret (Inr (), slots') \<and> slots_ok cap slots' \<and>
    slots' ! unat (1 - k) = slots ! unat (1 - k) \<and> take (length data) (slots' ! unat k) = data"
proof -
  let ?new = "data @ drop (length data) (slots ! unat k)"
  note k = slots_ok_nth [OF assms(1,2)]
  have new: "length ?new = cap" using k assms(3) by simp
  have "ram_write_slot t slots k 0 data = Ret (Inr (), slots[unat k := ?new])"
    using k assms(3,4) by (simp add: ram_write_slot_def get_opt_def)
  moreover have "slots_ok cap (slots[unat k := ?new])"
    using assms(1) new set_update_subset_insert [of slots "unat k" ?new]
    unfolding slots_ok_def by fastforce
  moreover have "unat (1 - k) \<noteq> unat k" using assms(2) unfolding slot_le_1 by (elim disjE) simp_all
  ultimately show ?thesis using k by (intro exI [of _ "slots[unat k := ?new]"]) simp
qed

lemma ram_read_slot_eq:
  assumes "slots_ok cap slots" "k \<le> 1" "offset + length buf \<le> cap" "cap < 2 ^ usize_bits t"
  shows "ram_read_slot t slots k offset buf =
    Ret (Inr (), take (length buf) (drop offset (slots ! unat k)))"
  using slots_ok_nth [OF assms(1,2)] assms(3,4)
  by (simp add: ram_read_slot_def get_opt_def)

definition mem_view :: "mem_storage storage_view" where
  "mem_view =
     \<lparr>sv_image = \<lambda>s k. ms_slots s ! unat k, sv_journal = ms_state,
      sv_ok = \<lambda>s. slots_ok SLOT_CAP (ms_slots s) \<and> journal_ok (ms_state s)\<rparr>"

lemma mem_storage_spec:
  assumes "32 \<le> usize_bits t"
  shows "ota_storage (mem_ops t) mem_view"
proof (unfold_locales, goal_cases)
  case (3 s k data)
  with ram_write_slot_0 [of SLOT_CAP "ms_slots s" k data t] usize_cap [OF assms, of SLOT_CAP]
  show ?case
    by (auto simp: mem_ops_def mem_view_def mem_write_slot_def mem_slot_capacity_def SLOT_CAP_def)
qed (auto simp: mem_ops_def mem_view_def mem_read_state_def mem_write_state_def)

interpretation mem: ota_storage "mem_ops host_debug" mem_view
  by (rule mem_storage_spec) (simp add: host_debug_def)


section \<open>The packager of the example\<close>

definition make_package :: "nat \<Rightarrow> demo_signer \<Rightarrow> u8 \<Rightarrow> u8 list \<Rightarrow> (u8 list \<times> update_package) outcome" where
  "make_package n signer slot payload =
     (let pkg = \<lparr>up_slot = slot, up_payload_len = of_nat (length payload)\<rparr>;
          signed = replicate (HEADER_LEN + OTA_MAX_PAYLOAD) 0 in
      outcome_bind (slice_to signed HEADER_LEN) (\<lambda>head.
      outcome_bind (encode_package_header pkg head) (\<lambda>head.
      outcome_bind (copy_into signed 0 HEADER_LEN head) (\<lambda>signed.
      outcome_bind (copy_into signed HEADER_LEN (HEADER_LEN + length payload) payload) (\<lambda>signed.
      outcome_bind (slice_to signed (HEADER_LEN + length payload)) (\<lambda>message.
      Ret (demo_sign n signer message (replicate n 0), pkg)))))))"

lemma make_package_eq:
  assumes "length payload \<le> OTA_MAX_PAYLOAD"
  shows "make_package n signer slot payload =
    (let pkg = \<lparr>up_slot = slot, up_payload_len = of_nat (length payload)\<rparr> in
     Ret (demo_hash n signer (package_message pkg payload), pkg))"
  using assms
  by (simp add: make_package_def encode_package_header_eq package_message_def HEADER_LEN_def
      OTA_MAX_PAYLOAD_def Let_def demo_sign_def)

lemma make_package_verified:
  assumes "length payload \<le> SLOT_CAP" "make_package n signer slot payload = Ret (sig, pkg)"
  shows "stage_verified (mem_ops t) (demo_scheme n) (ota_engine_new s signer) pkg payload sig \<and>
    up_slot pkg = slot"
proof -
  have len: "length payload \<le> OTA_MAX_PAYLOAD" "length payload \<le> os_slot_capacity (mem_ops t) s"
    using assms(1) by (simp_all add: SLOT_CAP_def OTA_MAX_PAYLOAD_def mem_ops_def mem_slot_capacity_def)
  have pkg: "pkg = \<lparr>up_slot = slot, up_payload_len = of_nat (length payload)\<rparr>"
    "sig = demo_hash n signer (package_message pkg payload)"
    using assms(2) by (auto simp: make_package_eq [OF len(1)] Let_def)
  with demo.signed_package_verified [where buf = "replicate n 0" and v = signer, OF _ _ len(1) pkg(1) len(2), of n]
  show ?thesis by (auto simp: demo_scheme_def demo_sign_def ota_engine_new_def)
qed

text \<open>Storage in memory never fails: the operations on it as equations.\<close>

lemma mem_stage:
  assumes "stage_verified (mem_ops t) V \<lparr>oe_storage = s, oe_signer = v\<rparr> p payload sig"
    and "slots_ok SLOT_CAP (ms_slots s)" "up_slot p \<le> 1" "32 \<le> usize_bits t"
  shows "\<exists>slots. ota_stage (mem_ops t) V \<lparr>oe_storage = s, oe_signer = v\<rparr> p payload sig =
      Ret (Inr (), \<lparr>oe_storage = s\<lparr>ms_slots := slots, ms_state := Pending (up_slot p)\<rparr>, oe_signer = v\<rparr>) \<and>
    slots_ok SLOT_CAP slots \<and> slots ! unat (1 - up_slot p) = ms_slots s ! unat (1 - up_slot p) \<and>
    take (length payload) (slots ! unat (up_slot p)) = payload"
proof -
  have len: "length payload \<le> SLOT_CAP"
    using assms(1) by (simp add: stage_verified_def mem_ops_def mem_slot_capacity_def)
  from ram_write_slot_0 [OF assms(2,3) len usize_cap [OF assms(4)]] obtain slots where
    "ram_write_slot t (ms_slots s) (up_slot p) 0 payload = Ret (Inr (), slots)" "slots_ok SLOT_CAP slots"
    "slots ! unat (1 - up_slot p) = ms_slots s ! unat (1 - up_slot p)"
    "take (length payload) (slots ! unat (up_slot p)) = payload"
    by (auto simp: SLOT_CAP_def)
  then show ?thesis
    using assms(1)
    by (intro exI [of _ slots]) (simp add: ota_stage_eq stage_verified_def mem_ops_def
        mem_write_slot_def write_journal_def mem_write_state_def)
qed

lemma mem_journal_ops:
  assumes "ms_state s = Pending c" "c \<le> 1"
  shows "ota_promote t (mem_ops t') \<lparr>oe_storage = s, oe_signer = v\<rparr> =
      Ret (Inr c, \<lparr>oe_storage = s\<lparr>ms_state := Testing c (1 - c)\<rparr>, oe_signer = v\<rparr>)"
  using assms by (simp add: ota_promote_def mem_ops_def mem_read_state_def write_journal_def mem_write_state_def)

lemma mem_commit:
  assumes "ms_state s = Testing a f"
  shows "ota_commit (mem_ops t') \<lparr>oe_storage = s, oe_signer = v\<rparr> =
      Ret (Inr a, \<lparr>oe_storage = s\<lparr>ms_state := if a = 0 then ActiveSlot0 else ActiveSlot1\<rparr>, oe_signer = v\<rparr>)"
  using assms by (simp add: ota_commit_def mem_ops_def mem_read_state_def write_journal_def mem_write_state_def)

lemma mem_rollback:
  assumes "ms_state s = Testing a f"
  shows "ota_rollback (mem_ops t') \<lparr>oe_storage = s, oe_signer = v\<rparr> =
      Ret (Inr a, \<lparr>oe_storage = s\<lparr>ms_state := if f = 0 then ActiveSlot0 else ActiveSlot1\<rparr>, oe_signer = v\<rparr>)"
  using assms by (simp add: ota_rollback_def mem_ops_def mem_read_state_def write_journal_def mem_write_state_def)

lemma mem_recover:
  assumes "journal_ok (ms_state s)"
  shows "ota_recover t (mem_ops t') \<lparr>oe_storage = s, oe_signer = v\<rparr> =
      Ret (Inr (running_slot (resolved_state (ms_state s))),
           \<lparr>oe_storage = s\<lparr>ms_state := resolved_state (ms_state s)\<rparr>, oe_signer = v\<rparr>)"
  using assms ota_recover_eq [of "mem_ops t'" "\<lparr>oe_storage = s, oe_signer = v\<rparr>" "ms_state s" t]
  by (simp add: mem_ops_def mem_read_state_def write_journal_def mem_write_state_def)

lemma mem_state: "ota_state (mem_ops t) \<lparr>oe_storage = s, oe_signer = v\<rparr> = Inr (ms_state s)"
  by (simp add: ota_state_def mem_ops_def mem_read_state_def)

text \<open>From a verified package to the committed image.\<close>

lemma mem_lifecycle:
  assumes "stage_verified (mem_ops t) V \<lparr>oe_storage = s, oe_signer = v\<rparr> p payload sig"
    and "slots_ok SLOT_CAP (ms_slots s)" "up_slot p \<le> 1" "32 \<le> usize_bits t"
  shows "\<exists>e1 e2 e3.
    ota_stage (mem_ops t) V \<lparr>oe_storage = s, oe_signer = v\<rparr> p payload sig = Ret (Inr (), e1) \<and>
    ota_promote t (mem_ops t) e1 = Ret (Inr (up_slot p), e2) \<and>
    ota_commit (mem_ops t) e2 = Ret (Inr (up_slot p), e3) \<and>
    ota_state (mem_ops t) e3 = Inr (if up_slot p = 0 then ActiveSlot0 else ActiveSlot1) \<and>
    take (length payload) (ms_slots (oe_storage e3) ! unat (up_slot p)) = payload \<and>
    ms_slots (oe_storage e3) ! unat (1 - up_slot p) = ms_slots s ! unat (1 - up_slot p)"
proof -
  from mem_stage [OF assms] obtain slots where
    "ota_stage (mem_ops t) V \<lparr>oe_storage = s, oe_signer = v\<rparr> p payload sig =
      Ret (Inr (), \<lparr>oe_storage = s\<lparr>ms_slots := slots, ms_state := Pending (up_slot p)\<rparr>, oe_signer = v\<rparr>)"
    "slots ! unat (1 - up_slot p) = ms_slots s ! unat (1 - up_slot p)"
    "take (length payload) (slots ! unat (up_slot p)) = payload" by blast
  with assms(3) show ?thesis
    by (simp add: mem_journal_ops mem_commit mem_state)
qed

lemma mem_new_ok: "slots_ok SLOT_CAP (ms_slots mem_storage_new)"
  by (simp add: slots_ok_def mem_storage_new_def)


section \<open>Properties\<close>

text \<open>C1: No brick, for a vehicle that stages with discipline: only while the journal says that an image is committed,
  and into the other slot. Over any storage that keeps its contract (the journal can be read and is
  written atomically, a slot write may fail and leave anything in its slot), from any state in which the
  slots the journal leads to can be trusted, and after any sequence of such stagings, torn ones
  included, promotions, commits, rollbacks and reboots, with writes failing at will: a reboot returns
  without a panic, and the slot it reports is the one the journal then says is running and holds the
  factory image or, at its beginning, the payload of the package last staged into that slot, whose
  signature verifies. The slots the journal leads to after the reboot, the one to fall back to
  included, can be trusted in the same sense. (Of an empty payload, which the engine accepts, this says
  nothing: \<open>ota_empty_package_installs_nothing\<close>.)\<close>
theorem ota_never_bricks:
  assumes "ota_storage S W" "ota_reach t S W V os0 e0 os e" "ota_safe W V v factory os0 e0"
  shows "\<exists>r e'. ota_recover t S e = Ret (r, e') \<and> ota_safe W V v factory os e' \<and>
    (\<forall>a. r = Inr a \<longrightarrow> a = running_slot (sv_journal W (oe_storage e')) \<and>
       trusted V v factory a (os a) (sv_image W (oe_storage e') a))"
  using ota_storage.recover_safe [OF assms(1) ota_storage.reach_safe [OF assms(1,2,3)], of t]
  by fastforce

text \<open>A run for the witness: a staged package is started by a reboot.\<close>

lemma mem_delivered_safe:
  "ota_safe mem_view V v (replicate SLOT_CAP 0) (\<lambda>_. Factory) (ota_engine_new mem_storage_new v)"
  using mem_new_ok
  by (simp add: ota_safe_def ota_engine_new_def mem_view_def mem_storage_new_def slots_trusted_def)

lemma mem_staged_reach:
  assumes "make_package n v 1 [0xAB] = Ret (sig, pkg)"
  shows "\<exists>e. ota_reach host_debug (mem_ops host_debug) mem_view (demo_scheme n) (\<lambda>_. Factory)
      (ota_engine_new mem_storage_new v) ((\<lambda>_. Factory)(1 := Installed pkg [0xAB] sig)) e \<and>
    ms_state (oe_storage e) = Pending 1 \<and> oe_signer e = v"
proof -
  have len: "length [0xAB :: u8] \<le> SLOT_CAP" by (simp add: SLOT_CAP_def)
  note ver = make_package_verified [OF len assms, of host_debug mem_storage_new]
  then obtain slots where st: "ota_stage (mem_ops host_debug) (demo_scheme n) (ota_engine_new mem_storage_new v) pkg [0xAB] sig =
      Ret (Inr (), \<lparr>oe_storage = mem_storage_new\<lparr>ms_slots := slots, ms_state := Pending 1\<rparr>, oe_signer = v\<rparr>)"
    using mem_stage [of host_debug "demo_scheme n" mem_storage_new v pkg "[0xAB]" sig] mem_new_ok
    by (auto simp: ota_engine_new_def host_debug_def)
  have "stage_allowed (sv_journal mem_view (oe_storage (ota_engine_new mem_storage_new v))) (Stage pkg [0xAB] sig)"
    using ver by (simp add: mem_view_def ota_engine_new_def mem_storage_new_def)
  from reach_step [OF reach_init step_stage [OF st] this, of host_debug "\<lambda>_. Factory"] ver show ?thesis
    by (intro exI [of _ "\<lparr>oe_storage = mem_storage_new\<lparr>ms_slots := slots, ms_state := Pending 1\<rparr>, oe_signer = v\<rparr>"])
      (simp add: origin_staged_def)
qed

lemma ota_never_bricks_witness:
  "\<exists>sig pkg (e :: (mem_storage, demo_signer) ota_engine) e'.
   make_package 32 (demo_signer_new 7) 1 [0xAB] = Ret (sig, pkg) \<and>
   ms_state (oe_storage e) = Pending 1 \<and>
   ota_recover host_debug (mem_ops host_debug) e = Ret (Inr 1, e') \<and>
   trusted (demo_scheme 32) (demo_signer_new 7) (replicate SLOT_CAP 0) 1 (Installed pkg [0xAB] sig)
     (ms_slots (oe_storage e') ! 1)"
proof -
  obtain sig pkg where pkg: "make_package 32 (demo_signer_new 7) 1 [0xAB] = Ret (sig, pkg)"
    by (simp add: make_package_eq OTA_MAX_PAYLOAD_def Let_def)
  from mem_staged_reach [OF this] obtain e where
    run: "ota_reach host_debug (mem_ops host_debug) mem_view (demo_scheme 32) (\<lambda>_. Factory)
      (ota_engine_new mem_storage_new (demo_signer_new 7)) ((\<lambda>_. Factory)(1 := Installed pkg [0xAB] sig)) e"
    and e: "ms_state (oe_storage e) = Pending 1" by blast
  have "\<exists>e'. ota_recover host_debug (mem_ops host_debug) e = Ret (Inr 1, e')"
    using mem_recover [of "oe_storage e" host_debug host_debug "oe_signer e"] e by (cases e) simp
  then obtain e' where e': "ota_recover host_debug (mem_ops host_debug) e = Ret (Inr 1, e')" ..
  with ota_never_bricks [OF mem.ota_storage_axioms run mem_delivered_safe]
  have "trusted (demo_scheme 32) (demo_signer_new 7) (replicate SLOT_CAP 0) 1 (Installed pkg [0xAB] sig)
     (ms_slots (oe_storage e') ! 1)"
    by (simp add: mem_view_def del: trusted.simps One_nat_def)
  with pkg e e' show ?thesis by blast
qed



text \<open>Only authentic updates touch the storage: unless the declared length, the capacity and
  the signature over header and payload check out, \<open>stage\<close> returns an error and the engine and its
  storage are as before; if they do, it writes the payload to the slot named in the package and then
  the journal.\<close>
theorem ota_stage_authentic:
  "if stage_verified S V e p payload sig
   then ota_stage S V e p payload sig =
     outcome_bind (os_write_slot S (oe_storage e) (up_slot p) 0 payload) (\<lambda>(r, s).
       case r of
         Inl _ \<Rightarrow> Ret (Inl WriteFailed, e\<lparr>oe_storage := s\<rparr>)
       | Inr _ \<Rightarrow> write_journal S (\<lambda>_. Storage) (Pending (up_slot p)) () (e\<lparr>oe_storage := s\<rparr>))
   else \<exists>err. ota_stage S V e p payload sig = Ret (Inl err, e)"
  by (auto simp: ota_stage_eq stage_verified_def Let_def)

text \<open>The update life cycle on the storage of the example, whose writes do not fail: a payload
  that fits, packaged and signed for the inactive slot, is staged, promoted and committed; then its
  slot is the active one and holds the payload, and the other slot still holds the old image.\<close>
theorem ota_lifecycle:
  assumes "length payload \<le> SLOT_CAP" "32 \<le> usize_bits t" "slots_ok SLOT_CAP (ms_slots s)"
    and "ms_state s = (if slot = 0 then ActiveSlot1 else ActiveSlot0)" "slot \<le> 1"
  shows "\<exists>sig pkg e1 e2 e3. make_package n v slot payload = Ret (sig, pkg) \<and>
    ota_stage (mem_ops t) (demo_scheme n) (ota_engine_new s v) pkg payload sig = Ret (Inr (), e1) \<and>
    ota_promote t (mem_ops t) e1 = Ret (Inr slot, e2) \<and>
    ota_commit (mem_ops t) e2 = Ret (Inr slot, e3) \<and>
    ota_state (mem_ops t) e3 = Inr (if slot = 0 then ActiveSlot0 else ActiveSlot1) \<and>
    take (length payload) (ms_slots (oe_storage e3) ! unat slot) = payload \<and>
    ms_slots (oe_storage e3) ! unat (1 - slot) = ms_slots s ! unat (1 - slot)"
proof -
  have "length payload \<le> OTA_MAX_PAYLOAD" using assms(1) by (simp add: SLOT_CAP_def OTA_MAX_PAYLOAD_def)
  from make_package_eq [OF this] obtain sig pkg where pkg: "make_package n v slot payload = Ret (sig, pkg)"
    by (simp add: Let_def)
  from make_package_verified [OF assms(1) pkg, of t s] show ?thesis
    using mem_lifecycle [of t "demo_scheme n" s v pkg payload sig] pkg assms(2,3,5)
    by (auto simp: ota_engine_new_def)
qed

lemma ota_lifecycle_witness:
  "\<exists>sig pkg e1 e2 e3. make_package 32 (demo_signer_new 0xCAFE) 1 [0xAB] = Ret (sig, pkg) \<and>
    ota_stage (mem_ops mcu_debug) (demo_scheme 32) (ota_engine_new mem_storage_new (demo_signer_new 0xCAFE))
      pkg [0xAB] sig = Ret (Inr (), e1) \<and>
    ota_promote mcu_debug (mem_ops mcu_debug) e1 = Ret (Inr 1, e2) \<and>
    ota_commit (mem_ops mcu_debug) e2 = Ret (Inr 1, e3) \<and>
    ota_state (mem_ops mcu_debug) e3 = Inr ActiveSlot1 \<and>
    take 1 (ms_slots (oe_storage e3) ! 1) = [0xAB]"
  using ota_lifecycle [of "[0xAB]" mcu_debug mem_storage_new 1 32 "demo_signer_new 0xCAFE"] mem_new_ok
  by (auto simp: mcu_debug_def SLOT_CAP_def mem_storage_new_def)

text \<open>The journal survives a power cycle: encoding a state and decoding the two bytes gives the
  state back exactly for the states that name slots 0 and 1, in debug and release builds, and only
  encodings of such states decode.\<close>
theorem slot_state_codec:
  "((\<exists>b0 b1. slot_state_encode t st = Ret [b0, b1] \<and> slot_state_decode b0 b1 = Some st)
     \<longleftrightarrow> journal_ok st) \<and>
   (slot_state_decode c0 c1 = Some st' \<longrightarrow> journal_ok st' \<and> slot_state_encode t st' = Ret [c0, c1])"
  using slot_state_encode_decode [of st t] slot_state_decode_encode [of _ _ st t]
    slot_state_decode_encode [of c0 c1 st' t]
  by blast

lemma slot_state_codec_witness:
  "slot_state_decode 2 2 = Some (Testing 1 0) \<and>
   slot_state_encode mcu_release (Testing 1 0) = Ret [2, 2]"
proof -
  have "slot_state_decode 2 2 = Some (Testing 1 0)" by code_simp
  with slot_state_codec [of mcu_release "Testing 1 0" 2 2 "Testing 1 0"] show ?thesis by blast
qed

text \<open>Package headers: a header written into a buffer of 10 bytes or more decodes to the package
  again exactly if the slot is 0 or 1; and whatever decodes is the encoding of the package found.\<close>
theorem package_header_codec:
  assumes "10 \<le> length out"
  shows "encode_package_header p out = Ret (package_header p @ drop 10 out) \<and>
    decode_package_header (package_header p @ drop 10 out) = (if up_slot p \<le> 1 then Some p else None) \<and>
    (decode_package_header bytes = Some q \<longrightarrow> up_slot q \<le> 1 \<and> take 10 bytes = package_header q)"
  using assms decode_package_header_Some [of bytes q]
  by (simp add: encode_package_header_eq decode_package_header_wire)

lemma package_header_codec_witness:
  "decode_package_header [0x54, 0x50, 0x54, 0x31, 1, 1, 0, 0, 0, 16] = Some \<lparr>up_slot = 1, up_payload_len = 16\<rparr> \<and>
   package_header \<lparr>up_slot = 1, up_payload_len = 16\<rparr> =
     [0x54, 0x50, 0x54, 0x31, 1, 1, 0, 0, 0, 16]"
proof -
  have "decode_package_header [0x54, 0x50, 0x54, 0x31, 1, 1, 0, 0, 0, 16] =
      Some \<lparr>up_slot = 1, up_payload_len = 16\<rparr>" by code_simp
  with package_header_codec [of "replicate 10 0" "\<lparr>up_slot = 1, up_payload_len = 16\<rparr>"
      "[0x54, 0x50, 0x54, 0x31, 1, 1, 0, 0, 0, 16]" "\<lparr>up_slot = 1, up_payload_len = 16\<rparr>"]
  show ?thesis by simp
qed

text \<open>\<open>recover\<close> is documented as idempotent and safe at every start. Two recoveries that succeed
  in a row report the same slot and leave the same journal if and only if no candidate was pending:
  the second one rolls a pending update back, whose image nobody had the time to confirm.\<close>
theorem ota_recover_twice:
  assumes "ota_storage S W" "sv_ok W (oe_storage e)"
    and "ota_recover t S e = Ret (Inr a, e1)" "ota_recover t S e1 = Ret (Inr b, e2)"
  shows "(a = b \<and> sv_journal W (oe_storage e1) = sv_journal W (oe_storage e2) \<or>
      (\<exists>c. sv_journal W (oe_storage e) = Pending c \<and> a = c \<and> b = 1 - c)) \<and>
    sv_journal W (oe_storage e2) = (if b = 0 then ActiveSlot0 else ActiveSlot1)"
proof -
  have step: "sv_ok W (oe_storage e') \<and>
      sv_journal W (oe_storage e') = resolved_state (sv_journal W (oe_storage e)) \<and>
      x = running_slot (resolved_state (sv_journal W (oe_storage e)))"
    if "sv_ok W (oe_storage e)" "ota_recover t S e = Ret (Inr x, e')" for e e' x
    using ota_storage.recovered_by [OF assms(1) that] by simp
  note s1 = step [OF assms(2,3)]
  with step [OF _ assms(4)] have s2: "sv_journal W (oe_storage e2) =
      resolved_state (resolved_state (sv_journal W (oe_storage e)))"
    "b = running_slot (resolved_state (resolved_state (sv_journal W (oe_storage e))))" by simp_all
  have "journal_ok (sv_journal W (oe_storage e))"
    by (rule ota_storage.journal [OF assms(1,2)])
  then show ?thesis
    using s1 s2 by (cases "sv_journal W (oe_storage e)") (auto simp: slot_le_1)
qed

lemma ota_recover_twice_witness:
  "\<exists>e1 e2. let e = ota_engine_new (mem_storage_new\<lparr>ms_state := Pending 1\<rparr>) (demo_signer_new 7) in
    ota_recover host_debug (mem_ops host_debug) e = Ret (Inr 1, e1) \<and>
    ota_recover host_debug (mem_ops host_debug) e1 = Ret (Inr 0, e2) \<and>
    sv_journal mem_view (oe_storage e2) = ActiveSlot0"
proof -
  let ?s = "\<lambda>st. \<lparr>oe_storage = mem_storage_new\<lparr>ms_state := st\<rparr>, oe_signer = demo_signer_new 7\<rparr>"
  have r: "ota_recover host_debug (mem_ops host_debug) (?s (Pending 1)) = Ret (Inr 1, ?s (Testing 1 0))"
    "ota_recover host_debug (mem_ops host_debug) (?s (Testing 1 0)) = Ret (Inr 0, ?s ActiveSlot0)"
    by (simp_all add: mem_recover)
  have "sv_ok mem_view (oe_storage (?s (Pending 1)))"
    using mem_new_ok by (simp add: mem_view_def)
  from ota_recover_twice [OF mem.ota_storage_axioms this r] r show ?thesis
    by (simp add: ota_engine_new_def Let_def)
qed

text \<open>An empty payload is accepted: a signed package without one changes no slot, but makes whatever its slot
  holds the candidate, which the next reboot starts.\<close>
theorem ota_empty_package_installs_nothing:
  assumes "ss_verify V v (package_message p []) sig" "up_payload_len p = 0" "up_slot p \<le> 1"
    and "slots_ok SLOT_CAP (ms_slots s)" "32 \<le> usize_bits t"
  shows "ota_stage (mem_ops t) V \<lparr>oe_storage = s, oe_signer = v\<rparr> p [] sig =
      Ret (Inr (), \<lparr>oe_storage = s\<lparr>ms_state := Pending (up_slot p)\<rparr>, oe_signer = v\<rparr>) \<and>
    ota_recover t (mem_ops t) \<lparr>oe_storage = s\<lparr>ms_state := Pending (up_slot p)\<rparr>, oe_signer = v\<rparr> =
      Ret (Inr (up_slot p), \<lparr>oe_storage = s\<lparr>ms_state := Testing (up_slot p) (1 - up_slot p)\<rparr>, oe_signer = v\<rparr>)"
proof
  have "ram_write_slot t (ms_slots s) (up_slot p) 0 [] = Ret (Inr (), ms_slots s)"
    using slots_ok_nth [OF assms(4,3)] by (simp add: ram_write_slot_def get_opt_def)
  then show "ota_stage (mem_ops t) V \<lparr>oe_storage = s, oe_signer = v\<rparr> p [] sig =
      Ret (Inr (), \<lparr>oe_storage = s\<lparr>ms_state := Pending (up_slot p)\<rparr>, oe_signer = v\<rparr>)"
    using assms(1,2) by (simp add: ota_stage_eq mem_ops_def mem_write_slot_def write_journal_def mem_write_state_def)
  show "ota_recover t (mem_ops t) \<lparr>oe_storage = s\<lparr>ms_state := Pending (up_slot p)\<rparr>, oe_signer = v\<rparr> =
      Ret (Inr (up_slot p), \<lparr>oe_storage = s\<lparr>ms_state := Testing (up_slot p) (1 - up_slot p)\<rparr>, oe_signer = v\<rparr>)"
    using assms(3) by (subst mem_recover) (auto simp: slot_le_1)
qed

text \<open>Nothing keeps a caller from staging into the running slot. A signed package that names
  slot 0 is accepted while slot 0 is active and overwrites the running image; after two reboots the
  vehicle is on slot 1, which was never written.\<close>
theorem ota_stage_overwrites_running_slot:
  "\<exists>sig pkg e1 e2 e3. make_package n v 0 [0xAB] = Ret (sig, pkg) \<and>
    ota_stage (mem_ops host_debug) (demo_scheme n) (ota_engine_new mem_storage_new v) pkg [0xAB] sig =
      Ret (Inr (), e1) \<and>
    take 1 (ms_slots (oe_storage e1) ! 0) = [0xAB] \<and>
    ota_recover host_debug (mem_ops host_debug) e1 = Ret (Inr 0, e2) \<and>
    ota_recover host_debug (mem_ops host_debug) e2 = Ret (Inr 1, e3) \<and>
    ota_state (mem_ops host_debug) e3 = Inr ActiveSlot1 \<and>
    ms_slots (oe_storage e3) ! 1 = replicate SLOT_CAP 0"
proof -
  obtain sig pkg where pkg: "make_package n v 0 [0xAB] = Ret (sig, pkg)"
    by (simp add: make_package_eq OTA_MAX_PAYLOAD_def Let_def)
  have len: "length [0xAB :: u8] \<le> SLOT_CAP" by (simp add: SLOT_CAP_def)
  note ver = make_package_verified [OF len pkg, of host_debug mem_storage_new]
  obtain slots where
    "ota_stage (mem_ops host_debug) (demo_scheme n) (ota_engine_new mem_storage_new v) pkg [0xAB] sig =
      Ret (Inr (), \<lparr>oe_storage = mem_storage_new\<lparr>ms_slots := slots, ms_state := Pending 0\<rparr>, oe_signer = v\<rparr>)"
    "slots ! 1 = replicate SLOT_CAP 0" "take 1 (slots ! 0) = [0xAB]"
    using mem_stage [of host_debug "demo_scheme n" mem_storage_new v pkg "[0xAB]" sig] ver mem_new_ok
    by (auto simp: ota_engine_new_def host_debug_def mem_storage_new_def)
  with pkg show ?thesis
    by (simp add: mem_recover mem_state)
qed
end
