(* ===== verification/Autonomy.thy ===== *)
theory Autonomy
  imports Vehicle_Bus
begin

text \<open>
  \<open>core/src/autonomy.rs\<close>: control commands, the \<open>AutonomyStack\<close> trait as a record of operations, the
  reference lane keeper, and the demo stack of the example \<open>custom_stack\<close>. The locale
  \<open>autonomy_contract\<close> states what the vehicle relies on, whatever the stack: commands within the
  actuator bounds, and none from a stack that does not hold control.

  An \<open>i16\<close> or \<open>i32\<close> is a word read with \<open>sint\<close>; a cast \<open>as i16\<close> keeps the low 16 bits.
\<close>


section \<open>Samples and commands\<close>

datatype sensor_kind = Camera | Lidar | Radar | Gps | Odometry

record sensor_sample =
  sample_kind :: sensor_kind
  sample_timestamp :: u32
  sample_value :: i32

record control_command =
  steer_deci_deg :: i16
  throttle_pct :: u8
  brake_pct :: u8
  cmd_timestamp :: u32

definition MAX_STEER :: i16 where "MAX_STEER = 300"

text \<open>\<open>Ord::clamp\<close> and \<open>saturating_mul\<close> on \<open>i16\<close>.\<close>

definition i16_clamp :: "i16 \<Rightarrow> i16 \<Rightarrow> i16 \<Rightarrow> i16" where
  "i16_clamp x lo hi = (if sint x < sint lo then lo else if sint x > sint hi then hi else x)"

definition i16_saturating_mul :: "i16 \<Rightarrow> i16 \<Rightarrow> i16" where
  "i16_saturating_mul x y = word_of_int (max (- 32768) (min 32767 (sint x * sint y)))"

definition clamp_steer :: "i16 \<Rightarrow> i16" where
  "clamp_steer steer = i16_clamp steer (- MAX_STEER) MAX_STEER"

definition control_command_new :: "i16 \<Rightarrow> u8 \<Rightarrow> u8 \<Rightarrow> u32 \<Rightarrow> control_command" where
  "control_command_new steer throttle brake timestamp =
     \<lparr>steer_deci_deg = clamp_steer steer, throttle_pct = min throttle 100,
      brake_pct = min brake 100, cmd_timestamp = timestamp\<rparr>"

record vehicle_state =
  speed_cmps :: u32
  vs_timestamp :: u32

datatype autonomy_error = AutonomyCore error | InputFull | InvalidSample | NotReady

definition autonomy_error_from :: "error \<Rightarrow> autonomy_error" where
  "autonomy_error_from e = AutonomyCore e"

definition command_ok :: "control_command \<Rightarrow> bool" where
  "command_ok c \<longleftrightarrow>
     - 300 \<le> sint (steer_deci_deg c) \<and> sint (steer_deci_deg c) \<le> 300 \<and>
     throttle_pct c \<le> 100 \<and> brake_pct c \<le> 100"

lemma sint_max_steer [simp]: "sint MAX_STEER = 300" "sint (- MAX_STEER) = - 300"
  by (simp_all add: MAX_STEER_def)

lemma sint_clamp_steer: "sint (clamp_steer x) = max (- 300) (min 300 (sint x))"
  by (simp add: clamp_steer_def i16_clamp_def)

lemma control_command_new_ok: "command_ok (control_command_new s th b ts)"
  by (simp add: control_command_new_def command_ok_def sint_clamp_steer)


section \<open>The plugin contract\<close>

record 'a autonomy_stack =
  as_ingest :: "'a \<Rightarrow> sensor_sample \<Rightarrow> (autonomy_error + unit) \<times> 'a"
  as_next_command :: "'a \<Rightarrow> vehicle_state \<Rightarrow>
    ((autonomy_error + control_command option) \<times> 'a) outcome"
  as_has_control :: "'a \<Rightarrow> bool"

locale autonomy_contract =
  fixes A :: "'a autonomy_stack"
  assumes bounded: "as_next_command A s vs = Ret (Inr (Some c), s') \<Longrightarrow> command_ok c"
    and no_control: "\<not> as_has_control A s \<Longrightarrow> as_next_command A s vs = Ret (r, s') \<Longrightarrow>
          r \<noteq> Inr (Some c)"

text \<open>A drive loop: per cycle some samples, then one command; it collects the commands.\<close>

fun ingest_all :: "'a autonomy_stack \<Rightarrow> 'a \<Rightarrow> sensor_sample list \<Rightarrow> 'a" where
  "ingest_all A s [] = s"
| "ingest_all A s (x # xs) = ingest_all A (snd (as_ingest A s x)) xs"

fun drive :: "'a autonomy_stack \<Rightarrow> 'a \<Rightarrow> (sensor_sample list \<times> vehicle_state) list \<Rightarrow>
    (control_command list \<times> 'a) outcome" where
  "drive A s [] = Ret ([], s)"
| "drive A s ((xs, vs) # cycles) =
     outcome_bind (as_next_command A (ingest_all A s xs) vs) (\<lambda>(r, s).
     outcome_bind (drive A s cycles) (\<lambda>(cs, s).
     Ret (case r of Inr (Some c) \<Rightarrow> (c # cs, s) | _ \<Rightarrow> (cs, s))))"

context autonomy_contract
begin

lemma drive_bounded: "drive A s cycles = Ret (cs, s') \<Longrightarrow> c \<in> set cs \<Longrightarrow> command_ok c"
proof (induction cycles arbitrary: s cs s')
  case (Cons cycle cycles)
  obtain xs vs where cycle: "cycle = (xs, vs)" by force
  with Cons.prems obtain r s1 ds s2 where
    "as_next_command A (ingest_all A s xs) vs = Ret (r, s1)" "drive A s1 cycles = Ret (ds, s2)"
    "(case r of Inr (Some c) \<Rightarrow> (c # ds, s2) | _ \<Rightarrow> (ds, s2)) = (cs, s')"
    by (auto simp: outcome_simps)
  with Cons show ?case
    by (auto split: sum.splits option.splits dest: bounded)
qed simp

end


section \<open>The lane keeper\<close>

definition AUTONOMY_SAMPLE_BUFFER :: nat where "AUTONOMY_SAMPLE_BUFFER = 16"

record lane_keeping_stack =
  lk_last_offset_cm :: "i32 option"
  lk_last_timestamp :: u32
  lk_ready :: bool
  lk_gain :: i16
  lk_cruise_cmps :: u32

definition lane_keeping_new :: "i16 \<Rightarrow> u32 \<Rightarrow> lane_keeping_stack" where
  "lane_keeping_new gain cruise =
     \<lparr>lk_last_offset_cm = None, lk_last_timestamp = 0, lk_ready = False, lk_gain = gain,
      lk_cruise_cmps = cruise\<rparr>"

definition lk_ingest ::
  "lane_keeping_stack \<Rightarrow> sensor_sample \<Rightarrow> (autonomy_error + unit) \<times> lane_keeping_stack" where
  "lk_ingest s x =
     (if sample_kind x \<noteq> Camera \<and> sample_kind x \<noteq> Lidar then (Inr (), s)
      else
        (Inr (), s\<lparr>lk_last_offset_cm := Some (sample_value x),
                   lk_last_timestamp := sample_timestamp x, lk_ready := True\<rparr>))"

definition lk_throttle :: "target \<Rightarrow> lane_keeping_stack \<Rightarrow> u32 \<Rightarrow> u8 outcome" where
  "lk_throttle t s speed =
     (if speed < lk_cruise_cmps s then
        outcome_bind (u32_sub t (lk_cruise_cmps s) speed) (\<lambda>d.
        outcome_bind (u32_mul t d 100) (\<lambda>p.
        Ret (ucast (p div max (lk_cruise_cmps s) 1))))
      else Ret 0)"

definition lk_next_command :: "target \<Rightarrow> lane_keeping_stack \<Rightarrow> vehicle_state \<Rightarrow>
    ((autonomy_error + control_command option) \<times> lane_keeping_stack) outcome" where
  "lk_next_command t s vs =
     (case lk_last_offset_cm s of
        None \<Rightarrow> Ret (Inr None, s)
      | Some offset \<Rightarrow>
          if \<not> lk_ready s then Ret (Inr None, s)
          else
            let steer = clamp_steer (i16_saturating_mul (ucast offset) (lk_gain s)) in
            outcome_bind (lk_throttle t s (speed_cmps vs)) (\<lambda>throttle.
            Ret (Inr (Some (control_command_new steer throttle 0 (lk_last_timestamp s))), s)))"

definition lk_has_control :: "lane_keeping_stack \<Rightarrow> bool" where
  "lk_has_control s \<longleftrightarrow> lk_ready s \<and> lk_last_offset_cm s \<noteq> None"

definition lane_keeping :: "target \<Rightarrow> lane_keeping_stack autonomy_stack" where
  "lane_keeping t =
     \<lparr>as_ingest = lk_ingest, as_next_command = lk_next_command t, as_has_control = lk_has_control\<rparr>"

interpretation lk: autonomy_contract "lane_keeping t"
  by unfold_locales
    (auto simp: lane_keeping_def lk_next_command_def lk_has_control_def Let_def control_command_new_ok
      outcome_simps split: option.splits if_splits)


section \<open>The demo stack of the integration example\<close>

record demo_stack =
  dm_latest_steering_cm :: i32
  dm_ready :: bool

definition demo_stack_new :: demo_stack where
  "demo_stack_new = \<lparr>dm_latest_steering_cm = 0, dm_ready = False\<rparr>"

definition dm_ingest :: "demo_stack \<Rightarrow> sensor_sample \<Rightarrow> (autonomy_error + unit) \<times> demo_stack" where
  "dm_ingest s x =
     (if sample_kind x = Camera \<or> sample_kind x = Lidar
      then (Inr (), s\<lparr>dm_latest_steering_cm := sample_value x, dm_ready := True\<rparr>)
      else (Inr (), s))"

definition i16_mul :: "target \<Rightarrow> i16 \<Rightarrow> i16 \<Rightarrow> i16 outcome" where
  "i16_mul t x y = arith t (- 32768 \<le> sint x * sint y \<and> sint x * sint y \<le> 32767) (x * y)"

definition dm_next_command :: "target \<Rightarrow> demo_stack \<Rightarrow> vehicle_state \<Rightarrow>
    ((autonomy_error + control_command option) \<times> demo_stack) outcome" where
  "dm_next_command t s vs =
     (if \<not> dm_ready s then Ret (Inr None, s)
      else
        outcome_bind (i16_mul t (ucast (dm_latest_steering_cm s)) 10) (\<lambda>m.
        let steer = clamp_steer m;
            throttle = (if speed_cmps vs < 500 then 30 else 0) in
        Ret (Inr (Some (control_command_new steer throttle 0 (vs_timestamp vs))), s)))"

definition dm_has_control :: "demo_stack \<Rightarrow> bool" where
  "dm_has_control s \<longleftrightarrow> dm_ready s"

definition demo_stack_ops :: "target \<Rightarrow> demo_stack autonomy_stack" where
  "demo_stack_ops t =
     \<lparr>as_ingest = dm_ingest, as_next_command = dm_next_command t, as_has_control = dm_has_control\<rparr>"

interpretation dm: autonomy_contract "demo_stack_ops t"
  by unfold_locales
    (auto simp: demo_stack_ops_def dm_next_command_def dm_has_control_def Let_def
      control_command_new_ok outcome_simps split: if_splits)


section \<open>What the lane keeper computes\<close>

lemma sint_saturating_mul:
  "sint (i16_saturating_mul x y) = max (- 32768) (min 32767 (sint x * sint y))"
proof -
  define z where "z = max (- 32768) (min 32767 (sint x * sint y))"
  have "- (2 ^ 15) \<le> z" "z < 2 ^ 15" by (simp_all add: z_def)
  then have "sint (word_of_int z :: i16) = z"
    using signed_take_bit_int_eq_self [of 15 z] by (simp add: sint_sbintrunc')
  then show ?thesis by (simp add: i16_saturating_mul_def z_def)
qed

lemma sint_low_half:
  assumes "- 32768 \<le> sint (x :: i32)" "sint x \<le> 32767"
  shows "sint (ucast x :: i16) = sint x"
proof -
  have "sint (ucast x :: i16) = signed_take_bit 15 (uint x)"
    by (simp add: sint_uint unsigned_ucast_eq signed_take_bit_take_bit)
  also have "\<dots> = signed_take_bit 15 (sint x)"
    by (simp add: sint_uint)
  also have "\<dots> = sint x"
    using assms by (simp add: signed_take_bit_int_eq_self)
  finally show ?thesis .
qed

text \<open>The reference throttle: the percentage by which the vehicle is too slow.\<close>

definition throttle_percent :: "nat \<Rightarrow> nat \<Rightarrow> nat" where
  "throttle_percent cruise speed = (if speed < cruise then (cruise - speed) * 100 div cruise else 0)"

lemma throttle_percent_le: "throttle_percent cruise speed \<le> 100"
proof -
  have "(cruise - speed) * 100 div cruise \<le> cruise * 100 div cruise" by (intro div_le_mono) simp
  then show ?thesis by (auto simp: throttle_percent_def)
qed

lemma lk_throttle_eq:
  assumes "(unat (lk_cruise_cmps s) - unat speed) * 100 < 2 ^ 32"
  shows "\<exists>w. lk_throttle t s speed = Ret w \<and>
    unat w = throttle_percent (unat (lk_cruise_cmps s)) (unat speed)"
proof (cases "speed < lk_cruise_cmps s")
  case False
  then show ?thesis by (simp add: lk_throttle_def throttle_percent_def word_less_nat_alt)
next
  case True
  let ?c = "lk_cruise_cmps s"
  obtain w where w: "?c - speed = w" by simp
  have d: "unat w = unat ?c - unat speed" "unat speed < unat ?c"
    using True by (simp_all add: w [symmetric] unat_sub word_less_nat_alt less_imp_le)
  have m: "max ?c 1 = ?c"
    using d(2) by (auto simp: max_def word_le_nat_alt word_unat_eq_iff)
  have p: "unat (w * 100) = (unat ?c - unat speed) * 100"
    using assms by (simp add: unat_word_ariths d(1))
  have "lk_throttle t s speed = Ret (ucast (w * 100 div ?c))"
    using True assms m by (simp add: lk_throttle_def u32_sub_def u32_mul_def less_imp_le w d(1))
  moreover have "unat (ucast (w * 100 div ?c) :: u8) = throttle_percent (unat ?c) (unat speed)"
    using throttle_percent_le [of "unat ?c" "unat speed"] d(2)
    by (simp add: unsigned_ucast_eq unat_div p throttle_percent_def take_bit_nat_eq_self)
  ultimately show ?thesis by simp
qed


section \<open>Properties\<close>

text \<open>C24: The command of the lane keeper, for an offset in the range of an \<open>i16\<close> and speeds whose
  difference in percent fits 32 bits: steering is the offset times the gain, cut off at 30 degrees
  to either side; the throttle is the percentage by which the vehicle is too slow; no brake; the
  time stamp is the sample's. The stack is unchanged and nothing panics, in any build.\<close>
theorem lane_keeper_command:
  assumes "lk_last_offset_cm s = Some offset" "lk_ready s"
    and "- 32768 \<le> sint offset" "sint offset \<le> 32767"
    and "(unat (lk_cruise_cmps s) - unat (speed_cmps vs)) * 100 < 2 ^ 32"
  shows "\<exists>c. lk_next_command t s vs = Ret (Inr (Some c), s) \<and>
    sint (steer_deci_deg c) = max (- 300) (min 300 (sint offset * sint (lk_gain s))) \<and>
    unat (throttle_pct c) = throttle_percent (unat (lk_cruise_cmps s)) (unat (speed_cmps vs)) \<and>
    brake_pct c = 0 \<and> cmd_timestamp c = lk_last_timestamp s"
proof -
  obtain w where w: "lk_throttle t s (speed_cmps vs) = Ret w"
    "unat w = throttle_percent (unat (lk_cruise_cmps s)) (unat (speed_cmps vs))"
    using lk_throttle_eq [OF assms(5)] by blast
  then have "w \<le> 100" using throttle_percent_le by (simp add: word_le_nat_alt)
  then have "min w 100 = w" by simp
  moreover have "max (- 300) (min 300 (max (- 300) (min 300 (max (- 32768) (min 32767 z))))) =
      max (- 300) (min 300 z)" for z :: int
    by linarith
  ultimately show ?thesis
    using assms(1,2) w
    by (simp add: lk_next_command_def Let_def control_command_new_def sint_clamp_steer
        sint_saturating_mul sint_low_half [OF assms(3,4)])
qed

lemma lane_keeper_command_witness:
  "\<exists>c. lk_next_command mcu_debug (snd (lk_ingest (lane_keeping_new 10 1000)
      \<lparr>sample_kind = Camera, sample_timestamp = 1, sample_value = 20\<rparr>))
      \<lparr>speed_cmps = 250, vs_timestamp = 1\<rparr> =
    Ret (Inr (Some c), snd (lk_ingest (lane_keeping_new 10 1000)
      \<lparr>sample_kind = Camera, sample_timestamp = 1, sample_value = 20\<rparr>)) \<and>
    sint (steer_deci_deg c) = 200 \<and> unat (throttle_pct c) = 75"
proof -
  let ?s = "snd (lk_ingest (lane_keeping_new 10 1000)
      \<lparr>sample_kind = Camera, sample_timestamp = 1, sample_value = 20\<rparr>)"
  have "lk_last_offset_cm ?s = Some 20" "lk_ready ?s" "lk_gain ?s = 10" "lk_cruise_cmps ?s = 1000"
    by (simp_all add: lk_ingest_def lane_keeping_new_def)
  with lane_keeper_command [of ?s 20 "\<lparr>speed_cmps = 250, vs_timestamp = 1\<rparr>" mcu_debug] show ?thesis
    by (auto simp: throttle_percent_def)
qed

text \<open>Every command that a drive loop of any length takes from the lane keeper is within the
  bounds of the actuators, whatever the samples, gain, cruise speed and build.\<close>
theorem lane_keeper_drive_bounded:
  assumes "drive (lane_keeping t) s cycles = Ret (cs, s')" "c \<in> set cs"
  shows "command_ok c"
  by (rule lk.drive_bounded [OF assms])

lemma lane_keeper_drive_bounded_witness:
  "\<exists>c s'. drive (lane_keeping mcu_debug) (lane_keeping_new 10 0)
      [([\<lparr>sample_kind = Lidar, sample_timestamp = 1, sample_value = 20\<rparr>],
        \<lparr>speed_cmps = 250, vs_timestamp = 1\<rparr>)] = Ret ([c], s') \<and> command_ok c"
proof -
  have "\<exists>c s'. drive (lane_keeping mcu_debug) (lane_keeping_new 10 0)
      [([\<lparr>sample_kind = Lidar, sample_timestamp = 1, sample_value = 20\<rparr>],
        \<lparr>speed_cmps = 250, vs_timestamp = 1\<rparr>)] = Ret ([c], s')"
    by (simp add: lane_keeping_def lk_ingest_def lane_keeping_new_def lk_next_command_def
        lk_throttle_def Let_def)
  then obtain c s' where d: "drive (lane_keeping mcu_debug) (lane_keeping_new 10 0)
      [([\<lparr>sample_kind = Lidar, sample_timestamp = 1, sample_value = 20\<rparr>],
        \<lparr>speed_cmps = 250, vs_timestamp = 1\<rparr>)] = Ret ([c], s')" by blast
  from lane_keeper_drive_bounded [OF d] d show ?thesis by simp
qed

lemma sint_numeral_10: "sint (10 :: i16) = 10"
  by simp

text \<open>When the stacks panic: the lane keeper in a build with overflow checks on a vehicle that is so much too
  slow that the hundredfold difference leaves 32 bits; the stack of the example on an offset
  whose low sixteen bits, times ten, leave an \<open>i16\<close>. In a release build neither ever does.\<close>
theorem stacks_panic_iff:
  "lk_next_command t s vs = Panic \<longleftrightarrow>
     overflow_checks t \<and> lk_has_control s \<and>
     2 ^ 32 \<le> (unat (lk_cruise_cmps s) - unat (speed_cmps vs)) * 100"
  "dm_next_command t d vs = Panic \<longleftrightarrow>
     overflow_checks t \<and> dm_ready d \<and> sint (ucast (dm_latest_steering_cm d) :: i16) * 10 \<notin> {- 32768..32767}"
proof -
  have "lk_throttle t s v = Panic \<longleftrightarrow>
      overflow_checks t \<and> 2 ^ 32 \<le> (unat (lk_cruise_cmps s) - unat v) * 100" for v
  proof (cases "v < lk_cruise_cmps s")
    case True
    then have "unat (lk_cruise_cmps s - v) = unat (lk_cruise_cmps s) - unat v"
      by (simp add: unat_sub less_imp_le)
    with True show ?thesis
      by (auto simp: lk_throttle_def u32_sub_def u32_mul_def arith_def less_imp_le not_less)
  next
    case False
    then have "unat (lk_cruise_cmps s) \<le> unat v" by (simp add: not_less word_le_nat_alt)
    with False show ?thesis by (simp add: lk_throttle_def)
  qed
  then show "lk_next_command t s vs = Panic \<longleftrightarrow>
     overflow_checks t \<and> lk_has_control s \<and>
     2 ^ 32 \<le> (unat (lk_cruise_cmps s) - unat (speed_cmps vs)) * 100"
    by (auto simp: lk_next_command_def lk_has_control_def Let_def outcome_inversions split: option.split)
  show "dm_next_command t d vs = Panic \<longleftrightarrow>
     overflow_checks t \<and> dm_ready d \<and> sint (ucast (dm_latest_steering_cm d) :: i16) * 10 \<notin> {- 32768..32767}"
    by (auto simp: dm_next_command_def i16_mul_def arith_def sint_numeral_10)
qed

text \<open>Outside the range of an \<open>i16\<close> the cast keeps the low bits of the offset: for every offset
  from 32768 to 65535 centimetres to the right and a gain of 10 the command steers to the left, up
  to the stop.\<close>
theorem lane_keeper_steers_the_wrong_way:
  assumes "lk_last_offset_cm s = Some offset" "lk_ready s" "lk_gain s = 10"
    and "32768 \<le> sint offset" "sint offset \<le> 65535" "lk_cruise_cmps s \<le> speed_cmps vs"
  shows "\<exists>c. lk_next_command t s vs = Ret (Inr (Some c), s) \<and>
    sint (steer_deci_deg c) = max (- 300) (10 * (sint offset - 65536)) \<and> sint (steer_deci_deg c) < 0"
proof -
  have "sint (ucast offset :: i16) = signed_take_bit 15 (sint offset)"
    by (simp add: sint_uint unsigned_ucast_eq signed_take_bit_take_bit)
  also have "\<dots> = signed_take_bit 15 (sint offset - 65536)"
    using mod_add_self2 [of "sint offset - 65536" 65536]
    by (simp add: signed_take_bit_eq_iff_take_bit_eq take_bit_eq_mod)
  also have "\<dots> = sint offset - 65536"
    using assms(4,5) by (simp add: signed_take_bit_int_eq_self)
  finally have off: "sint (ucast offset :: i16) = sint offset - 65536" .
  have "max (- 300) (min 300 (max (- 300) (min 300 (max (- 32768) (min 32767 z))))) = max (- 300) z"
    if "z < 0" for z :: int
    using that by auto
  from this [of "(sint offset - 65536) * 10"] have
    "max (- 300) (min 300 (max (- 300) (min 300 (max (- 32768) (min 32767 ((sint offset - 65536) * 10)))))) =
      max (- 300) (10 * (sint offset - 65536))"
    using assms(5) by (simp add: mult.commute)
  then have st: "sint (clamp_steer (clamp_steer (i16_saturating_mul (ucast offset) 10))) =
      max (- 300) (10 * (sint offset - 65536))"
    by (simp only: sint_clamp_steer sint_saturating_mul off sint_numeral_10)
  have th: "lk_throttle t s (speed_cmps vs) = Ret 0"
    using assms(6) by (simp add: lk_throttle_def leD)
  have "lk_next_command t s vs = Ret (Inr (Some (control_command_new
      (clamp_steer (i16_saturating_mul (ucast offset) 10)) 0 0 (lk_last_timestamp s))), s)"
    using assms(1-3) th by (simp add: lk_next_command_def Let_def)
  moreover have "max (- 300) (10 * (sint offset - 65536)) < 0" using assms(5) by simp
  ultimately show ?thesis
    using st by (simp only: control_command_new_def) (simp del: right_diff_distrib_numeral)
qed

lemma lane_keeper_steers_the_wrong_way_witness:
  "\<exists>c. lk_next_command host_debug (snd (lk_ingest (lane_keeping_new 10 0)
      \<lparr>sample_kind = Camera, sample_timestamp = 1, sample_value = 40000\<rparr>))
      \<lparr>speed_cmps = 0, vs_timestamp = 1\<rparr> =
    Ret (Inr (Some c), snd (lk_ingest (lane_keeping_new 10 0)
      \<lparr>sample_kind = Camera, sample_timestamp = 1, sample_value = 40000\<rparr>)) \<and>
    sint (steer_deci_deg c) = - 300"
proof -
  let ?s = "snd (lk_ingest (lane_keeping_new 10 0)
      \<lparr>sample_kind = Camera, sample_timestamp = 1, sample_value = 40000\<rparr>)"
  have "lk_last_offset_cm ?s = Some 40000" "lk_ready ?s" "lk_gain ?s = 10" "lk_cruise_cmps ?s = 0"
    by (simp_all add: lk_ingest_def lane_keeping_new_def)
  with lane_keeper_steers_the_wrong_way [of ?s 40000 "\<lparr>speed_cmps = 0, vs_timestamp = 1\<rparr>" host_debug]
  show ?thesis by auto
qed

end
