(* ===== verification/Safety.thy ===== *)
theory Safety
  imports Autonomy
begin

text \<open>
  \<open>core/src/safety.rs\<close>: the telemetry ring buffer, refined to the list of its last records, and the
  interlock around an autonomy stack, itself an autonomy stack that keeps the contract of the stack
  inside.
\<close>


section \<open>The telemetry ring\<close>

record telemetry_record =
  tr_timestamp :: u32
  tr_code :: u16
  tr_value :: u32

record telemetry_ring =
  ring_buf :: "telemetry_record list"
  ring_head :: nat
  ring_len :: nat

definition telemetry_ring_new :: "nat \<Rightarrow> telemetry_ring" where
  "telemetry_ring_new n =
     \<lparr>ring_buf = replicate n \<lparr>tr_timestamp = 0, tr_code = 0, tr_value = 0\<rparr>, ring_head = 0,
      ring_len = 0\<rparr>"

text \<open>\<open>N\<close> is the length of the buffer. With \<open>N = 0\<close> the first access already panics.\<close>

definition ring_push :: "telemetry_ring \<Rightarrow> telemetry_record \<Rightarrow> telemetry_ring outcome" where
  "ring_push r x =
     outcome_bind (store_at (ring_buf r) (ring_head r) x) (\<lambda>buf.
     let n = length buf in
     Ret (r\<lparr>ring_buf := buf, ring_head := (ring_head r + 1) mod n,
            ring_len := (if ring_len r < n then ring_len r + 1 else ring_len r)\<rparr>))"

definition ring_is_empty :: "telemetry_ring \<Rightarrow> bool" where
  "ring_is_empty r \<longleftrightarrow> ring_len r = 0"

definition ring_iter :: "telemetry_ring \<Rightarrow> telemetry_record list" where
  "ring_iter r =
     (let n = length (ring_buf r); start = (if ring_len r = n then ring_head r else 0) in
      map (\<lambda>i. ring_buf r ! ((start + i) mod n)) [0..<ring_len r])"

definition ring_ok :: "nat \<Rightarrow> telemetry_ring \<Rightarrow> bool" where
  "ring_ok n r \<longleftrightarrow>
     length (ring_buf r) = n \<and> ring_head r < n \<and> ring_len r \<le> n \<and>
     (ring_len r < n \<longrightarrow> ring_head r = ring_len r)"

lemma ring_new_ok: "0 < n \<Longrightarrow> ring_ok n (telemetry_ring_new n)"
  by (simp add: ring_ok_def telemetry_ring_new_def)

lemma ring_new_iter: "ring_iter (telemetry_ring_new n) = []"
  by (simp add: ring_iter_def telemetry_ring_new_def)

lemma length_ring_iter: "length (ring_iter r) = ring_len r"
  by (simp add: ring_iter_def Let_def)

text \<open>The last \<open>n\<close> elements of a list.\<close>

definition last_n :: "nat \<Rightarrow> 'a list \<Rightarrow> 'a list" where
  "last_n n xs = drop (length xs - n) xs"

lemma last_n_snoc: "0 < n \<Longrightarrow> last_n n (last_n n xs @ [x]) = last_n n (xs @ [x])"
  by (cases "n \<le> length xs") (auto simp: last_n_def Suc_diff_le)

lemma mod_wrap:
  assumes "h < n" "i < n"
  shows "(Suc (h + i) mod n = h) \<longleftrightarrow> Suc i = n"
proof (cases "Suc (h + i) < n")
  case True
  then show ?thesis by auto
next
  case False
  then have "Suc (h + i) mod n = Suc (h + i) - n"
    using assms by (simp add: mod_if)
  then show ?thesis using assms False by auto
qed

lemma ring_iter_shift:
  assumes "length (ring_buf r) = n" "ring_head r < n" "ring_len r = n"
  shows "ring_iter (r\<lparr>ring_buf := (ring_buf r)[ring_head r := x], ring_head := (ring_head r + 1) mod n,
      ring_len := n\<rparr>) = last_n n (ring_iter r @ [x])" (is "ring_iter ?r' = _")
proof (rule nth_equalityI)
  show "length (ring_iter ?r') = length (last_n n (ring_iter r @ [x]))"
    using assms(3) by (simp add: length_ring_iter last_n_def)
next
  fix i
  assume "i < length (ring_iter ?r')"
  then have i: "i < n" using assms(3) by (simp add: length_ring_iter)
  have "(Suc (ring_head r) mod n + i) mod n = Suc (ring_head r + i) mod n"
    by (simp add: mod_simps)
  then have "ring_iter ?r' ! i = (ring_buf r)[ring_head r := x] ! (Suc (ring_head r + i) mod n)"
    using assms(1,3) i by (simp add: ring_iter_def Let_def)
  also have "\<dots> = (if Suc i = n then x else ring_buf r ! (Suc (ring_head r + i) mod n))"
    using mod_wrap [OF assms(2) i] assms(1,2) i by (auto simp: nth_list_update)
  also have "\<dots> = last_n n (ring_iter r @ [x]) ! i"
    using assms(1,3) i by (auto simp: last_n_def length_ring_iter nth_append)
      (auto simp: ring_iter_def Let_def)
  finally show "ring_iter ?r' ! i = last_n n (ring_iter r @ [x]) ! i" .
qed

lemma ring_push_ok:
  assumes "ring_ok n r"
  shows "\<exists>r'. ring_push r x = Ret r' \<and> ring_ok n r' \<and> ring_iter r' = last_n n (ring_iter r @ [x])"
proof -
  let ?r' = "r\<lparr>ring_buf := (ring_buf r)[ring_head r := x], ring_head := (ring_head r + 1) mod n,
            ring_len := (if ring_len r < n then ring_len r + 1 else ring_len r)\<rparr>"
  have ok: "length (ring_buf r) = n" "ring_head r < n" "ring_len r \<le> n"
    "ring_len r < n \<Longrightarrow> ring_head r = ring_len r"
    using assms by (simp_all add: ring_ok_def)
  have "ring_push r x = Ret ?r'"
    using ok by (simp add: ring_push_def Let_def)
  moreover have "ring_ok n ?r'"
  proof -
    have "0 < n" using ok(2) by simp
    moreover have "ring_len r + 1 < n \<Longrightarrow> (ring_head r + 1) mod n = ring_len r + 1" using ok(4) by simp
    ultimately show ?thesis using ok by (auto simp: ring_ok_def)
  qed
  moreover have "ring_iter ?r' = last_n n (ring_iter r @ [x])"
  proof (cases "ring_len r < n")
    case True
    then have h: "ring_head r = ring_len r" by (rule ok(4))
    have "ring_iter ?r' = map (\<lambda>i. (ring_buf r)[ring_len r := x] ! i) [0..<Suc (ring_len r)]"
      using True h ok(1) by (auto simp: ring_iter_def Let_def)
    also have "\<dots> = ring_iter r @ [x]"
      using True h ok(1) by (auto simp: ring_iter_def Let_def)
    finally show ?thesis using True by (simp add: last_n_def length_ring_iter)
  next
    case False
    then show ?thesis using ring_iter_shift [OF ok(1,2), of x] ok(3) by simp
  qed
  ultimately show ?thesis by blast
qed

text \<open>A sequence of records pushed in order.\<close>

fun ring_push_all :: "telemetry_ring \<Rightarrow> telemetry_record list \<Rightarrow> telemetry_ring outcome" where
  "ring_push_all r [] = Ret r"
| "ring_push_all r (x # xs) = outcome_bind (ring_push r x) (\<lambda>r. ring_push_all r xs)"

lemma ring_push_all_ok:
  assumes "ring_ok n r" "ring_iter r = last_n n ys"
  shows "\<exists>r'. ring_push_all r xs = Ret r' \<and> ring_ok n r' \<and> ring_iter r' = last_n n (ys @ xs)"
  using assms
proof (induction xs arbitrary: r ys)
  case (Cons x xs)
  then have "0 < n" by (simp add: ring_ok_def)
  from ring_push_ok [OF Cons.prems(1), of x] obtain r1 where r1: "ring_push r x = Ret r1" "ring_ok n r1"
    "ring_iter r1 = last_n n (ring_iter r @ [x])" by blast
  then have "ring_iter r1 = last_n n (ys @ [x])"
    using Cons.prems(2) \<open>0 < n\<close> by (simp add: last_n_snoc)
  from Cons.IH [OF r1(2) this] r1(1) show ?case by simp
qed simp


section \<open>The interlock\<close>

datatype interlock_state = Armed | Disarmed

record 'a interlock =
  ilk_stack :: 'a
  ilk_state :: interlock_state
  ilk_events :: telemetry_ring

definition TELEMETRY_ARM :: u16 where "TELEMETRY_ARM = 0xA001"
definition TELEMETRY_DISARM :: u16 where "TELEMETRY_DISARM = 0xA002"

definition interlock_new :: "'a \<Rightarrow> 'a interlock" where
  "interlock_new s = \<lparr>ilk_stack = s, ilk_state = Disarmed, ilk_events = telemetry_ring_new 8\<rparr>"

definition interlock_arm :: "'a interlock \<Rightarrow> 'a interlock outcome" where
  "interlock_arm i =
     outcome_bind
       (ring_push (ilk_events i) \<lparr>tr_timestamp = 0, tr_code = TELEMETRY_ARM, tr_value = 1\<rparr>) (\<lambda>ev.
     Ret (i\<lparr>ilk_state := Armed, ilk_events := ev\<rparr>))"

definition interlock_disarm :: "'a interlock \<Rightarrow> 'a interlock outcome" where
  "interlock_disarm i =
     outcome_bind
       (ring_push (ilk_events i) \<lparr>tr_timestamp = 0, tr_code = TELEMETRY_DISARM, tr_value = 1\<rparr>) (\<lambda>ev.
     Ret (i\<lparr>ilk_state := Disarmed, ilk_events := ev\<rparr>))"

definition interlock_has_control :: "'a autonomy_stack \<Rightarrow> 'a interlock \<Rightarrow> bool" where
  "interlock_has_control A i \<longleftrightarrow> ilk_state i = Armed \<and> as_has_control A (ilk_stack i)"

definition interlock_ingest ::
  "'a autonomy_stack \<Rightarrow> 'a interlock \<Rightarrow> sensor_sample \<Rightarrow> (autonomy_error + unit) \<times> 'a interlock" where
  "interlock_ingest A i x = (let (r, s) = as_ingest A (ilk_stack i) x in (r, i\<lparr>ilk_stack := s\<rparr>))"

definition interlock_next_command :: "'a autonomy_stack \<Rightarrow> 'a interlock \<Rightarrow> vehicle_state \<Rightarrow>
    ((autonomy_error + control_command option) \<times> 'a interlock) outcome" where
  "interlock_next_command A i vs =
     (if ilk_state i \<noteq> Armed then Ret (Inr None, i)
      else
        outcome_bind (as_next_command A (ilk_stack i) vs) (\<lambda>(r, s). Ret (r, i\<lparr>ilk_stack := s\<rparr>)))"

text \<open>\<open>impl AutonomyStack for Interlock\<close>.\<close>

definition interlock_stack :: "'a autonomy_stack \<Rightarrow> 'a interlock autonomy_stack" where
  "interlock_stack A =
     \<lparr>as_ingest = interlock_ingest A, as_next_command = interlock_next_command A,
      as_has_control = interlock_has_control A\<rparr>"

text \<open>An interlocked stack keeps the contract of the stack inside.\<close>

context autonomy_contract
begin

lemma interlock_contract: "autonomy_contract (interlock_stack A)"
proof (unfold_locales, goal_cases)
  case (1 s vs c s')
  then show ?case
    by (auto simp: interlock_stack_def interlock_next_command_def outcome_simps
        split: if_splits dest: bounded)
next
  case (2 s vs r s' c)
  then show ?case
    using no_control [of "ilk_stack s" vs r]
    by (auto simp: interlock_stack_def interlock_next_command_def interlock_has_control_def
        outcome_simps split: if_splits)
qed

end

interpretation gated_lk: autonomy_contract "interlock_stack (lane_keeping t)"
  by (rule lk.interlock_contract)

interpretation gated_dm: autonomy_contract "interlock_stack (demo_stack_ops t)"
  by (rule dm.interlock_contract)

text \<open>What the vehicle does with an interlock: arming, disarming, samples, commands.\<close>

datatype interlock_event = Arm | Disarm | Sample sensor_sample | Command vehicle_state

fun interlock_step :: "'a autonomy_stack \<Rightarrow> 'a interlock \<Rightarrow> interlock_event \<Rightarrow>
    (control_command option \<times> 'a interlock) outcome" where
  "interlock_step A i Arm = outcome_bind (interlock_arm i) (\<lambda>i. Ret (None, i))"
| "interlock_step A i Disarm = outcome_bind (interlock_disarm i) (\<lambda>i. Ret (None, i))"
| "interlock_step A i (Sample x) = Ret (None, snd (interlock_ingest A i x))"
| "interlock_step A i (Command vs) =
     outcome_bind (interlock_next_command A i vs) (\<lambda>(r, i).
     Ret (case r of Inr c \<Rightarrow> c | Inl _ \<Rightarrow> None, i))"

fun interlock_run :: "'a autonomy_stack \<Rightarrow> 'a interlock \<Rightarrow> interlock_event list \<Rightarrow>
    (control_command option list \<times> 'a interlock) outcome" where
  "interlock_run A i [] = Ret ([], i)"
| "interlock_run A i (e # es) =
     outcome_bind (interlock_step A i e) (\<lambda>(c, i).
     outcome_bind (interlock_run A i es) (\<lambda>(cs, i). Ret (c # cs, i)))"

text \<open>The state a sequence of events asks for, and the records it leaves.\<close>

fun armed_after :: "bool \<Rightarrow> interlock_event list \<Rightarrow> bool" where
  "armed_after b [] = b"
| "armed_after b (Arm # es) = armed_after True es"
| "armed_after b (Disarm # es) = armed_after False es"
| "armed_after b (_ # es) = armed_after b es"

fun audit_records :: "interlock_event list \<Rightarrow> telemetry_record list" where
  "audit_records [] = []"
| "audit_records (Arm # es) =
     \<lparr>tr_timestamp = 0, tr_code = TELEMETRY_ARM, tr_value = 1\<rparr> # audit_records es"
| "audit_records (Disarm # es) =
     \<lparr>tr_timestamp = 0, tr_code = TELEMETRY_DISARM, tr_value = 1\<rparr> # audit_records es"
| "audit_records (_ # es) = audit_records es"

lemma interlock_step_effect:
  assumes "interlock_step A i e = Ret (c, i')" "ring_ok 8 (ilk_events i)"
  shows "ring_ok 8 (ilk_events i') \<and>
    ring_iter (ilk_events i') = last_n 8 (ring_iter (ilk_events i) @ audit_records [e]) \<and>
    (ilk_state i' = Armed \<longleftrightarrow> armed_after (ilk_state i = Armed) [e]) \<and>
    (c \<noteq> None \<longrightarrow> ilk_state i = Armed \<and> (\<exists>vs. e = Command vs))"
proof (cases e)
  case Arm
  obtain r where "ring_push (ilk_events i) \<lparr>tr_timestamp = 0, tr_code = TELEMETRY_ARM, tr_value = 1\<rparr> = Ret r"
    "ring_ok 8 r" "ring_iter r = last_n 8 (ring_iter (ilk_events i) @ audit_records [Arm])"
    using ring_push_ok [OF assms(2)] by auto
  with Arm assms(1) show ?thesis by (auto simp: interlock_arm_def)
next
  case Disarm
  obtain r where "ring_push (ilk_events i) \<lparr>tr_timestamp = 0, tr_code = TELEMETRY_DISARM, tr_value = 1\<rparr> = Ret r"
    "ring_ok 8 r" "ring_iter r = last_n 8 (ring_iter (ilk_events i) @ audit_records [Disarm])"
    using ring_push_ok [OF assms(2)] by auto
  with Disarm assms(1) show ?thesis by (auto simp: interlock_disarm_def)
next
  case (Sample x)
  have "last_n 8 (ring_iter (ilk_events i)) = ring_iter (ilk_events i)"
    using assms(2) by (simp add: last_n_def length_ring_iter ring_ok_def)
  with Sample assms show ?thesis
    by (auto simp: interlock_ingest_def split: prod.splits)
next
  case (Command vs)
  have "last_n 8 (ring_iter (ilk_events i)) = ring_iter (ilk_events i)"
    using assms(2) by (simp add: last_n_def length_ring_iter ring_ok_def)
  moreover obtain r where "interlock_next_command A i vs = Ret (r, i')"
    "c = (case r of Inr c \<Rightarrow> c | Inl _ \<Rightarrow> None)"
    using Command assms(1) by (auto simp: outcome_simps)
  ultimately show ?thesis
    using Command assms(2)
    by (auto simp: interlock_next_command_def outcome_simps split: if_splits)
qed

lemma last_n_append: "0 < n \<Longrightarrow> last_n n (last_n n xs @ ys) = last_n n (xs @ ys)"
proof (induction ys rule: rev_induct)
  case Nil
  then show ?case by (simp add: last_n_def)
next
  case (snoc y ys)
  then show ?case by (metis append_assoc last_n_snoc)
qed

lemma audit_records_Cons: "audit_records (e # es) = audit_records [e] @ audit_records es"
  by (cases e) simp_all

lemma armed_after_Cons: "armed_after b (e # es) = armed_after (armed_after b [e]) es"
  by (cases e) simp_all

lemma interlock_run_effect:
  assumes "interlock_run A i es = Ret (cs, i')" "ring_ok 8 (ilk_events i)"
  shows "length cs = length es \<and> ring_ok 8 (ilk_events i') \<and>
    ring_iter (ilk_events i') = last_n 8 (ring_iter (ilk_events i) @ audit_records es) \<and>
    (ilk_state i' = Armed \<longleftrightarrow> armed_after (ilk_state i = Armed) es) \<and>
    (\<forall>k < length es. cs ! k \<noteq> None \<longrightarrow> armed_after (ilk_state i = Armed) (take k es))"
  using assms
proof (induction es arbitrary: i cs)
  case Nil
  then show ?case by (auto simp: last_n_def length_ring_iter ring_ok_def)
next
  case (Cons e es)
  then obtain c i1 ds where 1: "interlock_step A i e = Ret (c, i1)"
    "interlock_run A i1 es = Ret (ds, i')" "cs = c # ds"
    by (auto simp: outcome_simps)
  note s = interlock_step_effect [OF 1(1) Cons.prems(2)]
  then have r: "ring_ok 8 (ilk_events i1)" by simp
  note ih = Cons.IH [OF 1(2) r]
  have "ring_iter (ilk_events i') = last_n 8 (ring_iter (ilk_events i) @ audit_records (e # es))"
    using s ih last_n_append [of 8 "ring_iter (ilk_events i) @ audit_records [e]" "audit_records es"]
    by (simp add: audit_records_Cons [of e es])
  moreover have "armed_after (ilk_state i = Armed) (take k (e # es))"
    if "k < length (e # es)" "cs ! k \<noteq> None" for k
  proof (cases k)
    case 0
    with that 1 s show ?thesis by auto
  next
    case (Suc j)
    with that 1 s ih show ?thesis
      by (auto simp: armed_after_Cons [of _ e "take j es"])
  qed
  moreover have "ilk_state i' = Armed \<longleftrightarrow> armed_after (ilk_state i = Armed) (e # es)"
    using s ih armed_after_Cons [of "ilk_state i = Armed" e es] by simp
  ultimately show ?case using 1 ih by simp
qed


text \<open>The reference: a gate, which is a flag in front of the stack and nothing else. Samples pass; a request for
  a command reaches the stack only while the gate is open.\<close>

fun gated_run :: "'a autonomy_stack \<Rightarrow> bool \<Rightarrow> 'a \<Rightarrow> interlock_event list \<Rightarrow>
    (control_command option list \<times> 'a) outcome" where
  "gated_run A opened s [] = Ret ([], s)"
| "gated_run A opened s (Arm # es) =
     outcome_bind (gated_run A True s es) (\<lambda>(cs, s). Ret (None # cs, s))"
| "gated_run A opened s (Disarm # es) =
     outcome_bind (gated_run A False s es) (\<lambda>(cs, s). Ret (None # cs, s))"
| "gated_run A opened s (Sample x # es) =
     outcome_bind (gated_run A opened (snd (as_ingest A s x)) es) (\<lambda>(cs, s). Ret (None # cs, s))"
| "gated_run A opened s (Command vs # es) =
     outcome_bind (if opened then as_next_command A s vs else Ret (Inr None, s)) (\<lambda>(r, s).
     outcome_bind (gated_run A opened s es) (\<lambda>(cs, s).
     Ret ((case r of Inr c \<Rightarrow> c | Inl _ \<Rightarrow> None) # cs, s)))"

lemma interlock_run_gated:
  assumes "ring_ok 8 (ilk_events i)"
  shows "outcome_bind (interlock_run A i es) (\<lambda>(cs, i). Ret (cs, ilk_stack i)) =
    gated_run A (ilk_state i = Armed) (ilk_stack i) es"
  using assms
proof (induction es arbitrary: i)
  case (Cons e es)
  show ?case
  proof (cases "interlock_step A i e")
    case Panic
    have "ring_push (ilk_events i) x \<noteq> Panic" for x using ring_push_ok [OF Cons.prems, of x] by auto
    with Panic obtain vs where "e = Command vs"
      by (cases e) (auto simp: interlock_arm_def interlock_disarm_def outcome_inversions)
    with Panic show ?thesis
      by (auto simp: interlock_next_command_def outcome_inversions split: if_splits)
  next
    case (Ret p)
    obtain c i1 where p: "p = (c, i1)" by (cases p)
    with interlock_step_effect [of A i e c i1] Ret Cons.prems have "ring_ok 8 (ilk_events i1)" by simp
    note ih = Cons.IH [OF this]
    have "outcome_bind (interlock_run A i (e # es)) (\<lambda>(cs, i). Ret (cs, ilk_stack i)) =
      outcome_bind (gated_run A (ilk_state i1 = Armed) (ilk_stack i1) es) (\<lambda>(cs, s). Ret (c # cs, s))"
      using Ret p by (simp add: ih [symmetric] outcome_bind_assoc case_prod_beta)
    also have "\<dots> = gated_run A (ilk_state i = Armed) (ilk_stack i) (e # es)"
    proof (cases e)
      case (Command vs)
      with Ret p show ?thesis
        by (cases "ilk_state i")
          (auto simp: interlock_next_command_def outcome_inversions)
    qed (use Ret p in \<open>auto simp: interlock_arm_def interlock_disarm_def interlock_ingest_def outcome_inversions
        split: prod.splits\<close>)
    finally show ?thesis .
  qed
qed simp


section \<open>Properties\<close>

text \<open>C25: The ring buffer is a bounded log: after any sequence of records pushed into a new ring of
  capacity \<open>n > 0\<close>, it holds the last \<open>n\<close> of them, oldest first; no push panics.\<close>
theorem telemetry_ring_keeps_last:
  assumes "0 < n"
  shows "\<exists>r. ring_push_all (telemetry_ring_new n) xs = Ret r \<and> ring_iter r = last_n n xs \<and>
    ring_len r = min n (length xs)"
proof -
  have "ring_iter (telemetry_ring_new n) = last_n n []" by (simp add: ring_new_iter last_n_def)
  from ring_push_all_ok [OF ring_new_ok [OF assms] this, of xs] obtain r where
    r: "ring_push_all (telemetry_ring_new n) xs = Ret r" "ring_iter r = last_n n ([] @ xs)" by blast
  moreover have "ring_len r = min n (length xs)"
    using length_ring_iter [of r] r(2) by (simp add: last_n_def)
  ultimately show ?thesis by simp
qed

lemma telemetry_ring_keeps_last_witness:
  "\<exists>r. ring_push_all (telemetry_ring_new 2)
      [\<lparr>tr_timestamp = 1, tr_code = 1, tr_value = 1\<rparr>, \<lparr>tr_timestamp = 2, tr_code = 1, tr_value = 1\<rparr>,
       \<lparr>tr_timestamp = 3, tr_code = 1, tr_value = 1\<rparr>] = Ret r \<and>
    map tr_timestamp (ring_iter r) = [2, 3]"
  using telemetry_ring_keeps_last [of 2 "[\<lparr>tr_timestamp = 1, tr_code = 1, tr_value = 1\<rparr>,
      \<lparr>tr_timestamp = 2, tr_code = 1, tr_value = 1\<rparr>, \<lparr>tr_timestamp = 3, tr_code = 1, tr_value = 1\<rparr>]"]
  by (auto simp: last_n_def)

text \<open>C23: The interlock is a gate and a log, for every stack and every sequence of events: with a new interlock the
  commands that come out, the state of the stack, and whether the run panics are those of the gate that
  starts closed; at the end the interlock is armed as the last of arm and disarm says, and the log
  holds the last eight of them.\<close>
theorem interlock_is_gate:
  "outcome_bind (interlock_run A (interlock_new s) es) (\<lambda>(cs, i).
     Ret (cs, ilk_stack i, ilk_state i = Armed, ring_iter (ilk_events i))) =
   outcome_bind (gated_run A False s es) (\<lambda>(cs, s').
     Ret (cs, s', armed_after False es, last_n 8 (audit_records es)))"
proof -
  have ok: "ring_ok 8 (ilk_events (interlock_new s))" using ring_new_ok [of 8] by (simp add: interlock_new_def)
  have run: "gated_run A False s es = outcome_bind (interlock_run A (interlock_new s) es) (\<lambda>(cs, i). Ret (cs, ilk_stack i))"
    using interlock_run_gated [OF ok, of A es] by (simp add: interlock_new_def)
  show ?thesis
  proof (cases "interlock_run A (interlock_new s) es")
    case (Ret p)
    obtain cs i where "p = (cs, i)" by (cases p)
    with Ret interlock_run_effect [of A "interlock_new s" es cs i] ok show ?thesis
      by (simp add: run) (simp add: interlock_new_def ring_new_iter)
  qed (simp add: run)
qed

text \<open>C5: The kill switch cannot be defeated. Whatever autonomy stack is inside and whatever sequence
  of armings, disarmings, samples and command requests a new interlock sees: a command comes out
  only of a request made while the last arming or disarming was an arming, the state is the one
  last asked for, and the audit trail holds the last 8 transitions in order.\<close>
theorem interlock_gates_commands:
  assumes "interlock_run A (interlock_new s) es = Ret (cs, i)"
  shows "length cs = length es \<and>
    (\<forall>k < length es. cs ! k \<noteq> None \<longrightarrow> armed_after False (take k es)) \<and>
    (ilk_state i = Armed \<longleftrightarrow> armed_after False es) \<and>
    ring_iter (ilk_events i) = last_n 8 (audit_records es)"
  using interlock_run_effect [OF assms] ring_new_ok [of 8]
  by (simp add: interlock_new_def ring_new_iter)

lemma interlock_gates_commands_witness:
  "\<exists>i. interlock_run (lane_keeping mcu_debug) (interlock_new (lane_keeping_new 10 0))
      [Sample \<lparr>sample_kind = Camera, sample_timestamp = 1, sample_value = 20\<rparr>,
       Command \<lparr>speed_cmps = 0, vs_timestamp = 1\<rparr>] = Ret ([None, None], i) \<and>
    ilk_state i = Disarmed \<and> ring_iter (ilk_events i) = []"
proof -
  let ?es = "[Sample \<lparr>sample_kind = Camera, sample_timestamp = 1, sample_value = 20\<rparr>,
       Command \<lparr>speed_cmps = 0, vs_timestamp = 1\<rparr>]"
  have "\<exists>i. interlock_run (lane_keeping mcu_debug) (interlock_new (lane_keeping_new 10 0)) ?es =
      Ret ([None, None], i)"
    by (simp add: interlock_ingest_def interlock_next_command_def interlock_new_def split: prod.split)
  then obtain i where i: "interlock_run (lane_keeping mcu_debug) (interlock_new (lane_keeping_new 10 0)) ?es =
      Ret ([None, None], i)" by blast
  from interlock_gates_commands [OF i] i show ?thesis
    by (cases "ilk_state i") (auto simp: last_n_def)
qed

end
