(* ===== verification/Sim_Net.thy ===== *)
theory Sim_Net
  imports Vehicle_Bus "HOL-Library.Sublist"
begin

text \<open>
  What the three simulated networks of \<open>sim/src\<close> have in common: nodes attached to one shared medium,
  each with a bounded receive queue, and a broadcast that appends a frame to the queue of every
  node but the sender and skips full queues. The locale \<open>broadcast_net\<close> is the contract of such a
  network; its lemmas say what a node gets to see of a run in which many nodes send and receive.

  The shared \<open>Rc<RefCell<...>>\<close> of a network is one state; a node is its index in the list of queues.
\<close>


section \<open>Queues\<close>

text \<open>The loop over the attached queues in \<open>broadcast\<close>.\<close>

definition broadcast_queues :: "nat \<Rightarrow> 'f \<Rightarrow> nat \<Rightarrow> 'f list list \<Rightarrow> 'f list list" where
  "broadcast_queues cap f sender qs =
     map (\<lambda>(j, q). if j \<noteq> sender \<and> length q < cap then q @ [f] else q) (enumerate 0 qs)"

text \<open>\<open>pop_front().ok_or(RxQueueEmpty)\<close> on the queue of node \<open>i\<close>.\<close>

definition pop_queue :: "nat \<Rightarrow> 'f list list \<Rightarrow> (bus_error + 'f) \<times> 'f list list" where
  "pop_queue i qs =
     (case qs ! i of
        [] \<Rightarrow> (Inl RxQueueEmpty, qs)
      | f # q \<Rightarrow> (Inr f, qs[i := q]))"

lemma length_broadcast_queues [simp]: "length (broadcast_queues cap f i qs) = length qs"
  by (simp add: broadcast_queues_def)

lemma nth_broadcast_queues [simp]:
  "j < length qs \<Longrightarrow> broadcast_queues cap f i qs ! j =
     (if j \<noteq> i \<and> length (qs ! j) < cap then qs ! j @ [f] else qs ! j)"
  by (simp add: broadcast_queues_def nth_enumerate_eq)

lemma length_pop_queue [simp]: "length (snd (pop_queue i qs)) = length qs"
  by (simp add: pop_queue_def split: list.split)


lemma pop_queue_InrD:
  assumes "pop_queue i qs = (Inr f, qs')" "i < length qs"
  shows "qs ! i = f # qs' ! i" "k \<noteq> i \<Longrightarrow> qs' ! k = qs ! k"
  using assms by (auto simp: pop_queue_def split: list.splits)


section \<open>The contract of a broadcast network\<close>

locale broadcast_net =
  fixes send :: "'n \<Rightarrow> nat \<Rightarrow> 'f \<Rightarrow> (bus_error + unit) \<times> 'n"
    and recv :: "'n \<Rightarrow> nat \<Rightarrow> (bus_error + 'f) \<times> 'n"
    and queues :: "'n \<Rightarrow> 'f list list"
    and up :: "'n \<Rightarrow> bool"
    and cap :: nat
  assumes send_up: "up n \<Longrightarrow> fst (send n i f) = Inr () \<and> up (snd (send n i f)) \<and>
          queues (snd (send n i f)) = broadcast_queues cap f i (queues n)"
    and send_down: "\<not> up n \<Longrightarrow> send n i f = (Inl BusOff, n)"
    and recv_eq: "i < length (queues n) \<Longrightarrow> fst (recv n i) = fst (pop_queue i (queues n)) \<and>
          queues (snd (recv n i)) = snd (pop_queue i (queues n)) \<and> (up (snd (recv n i)) \<longleftrightarrow> up n)"

text \<open>A run of the nodes of a network: who sends what and who reads, in the order of the calls. The
  log has the frames read, each with its reader.\<close>

datatype 'f net_call = Send nat 'f | Recv nat

fun net_run ::
  "('n \<Rightarrow> nat \<Rightarrow> 'f \<Rightarrow> (bus_error + unit) \<times> 'n) \<Rightarrow> ('n \<Rightarrow> nat \<Rightarrow> (bus_error + 'f) \<times> 'n) \<Rightarrow>
   'n \<Rightarrow> 'f net_call list \<Rightarrow> (nat \<times> 'f) list \<times> 'n" where
  "net_run S R n [] = ([], n)"
| "net_run S R n (Send i f # cs) = net_run S R (snd (S n i f)) cs"
| "net_run S R n (Recv i # cs) =
     (case R n i of
        (Inl e, n') \<Rightarrow> net_run S R n' cs
      | (Inr f, n') \<Rightarrow> map_prod ((#) (i, f)) id (net_run S R n' cs))"

definition read_by :: "nat \<Rightarrow> (nat \<times> 'f) list \<Rightarrow> 'f list" where
  "read_by j log = map snd (filter (\<lambda>(i, f). i = j) log)"

fun sent_to :: "nat \<Rightarrow> 'f net_call list \<Rightarrow> 'f list" where
  "sent_to j [] = []"
| "sent_to j (Send i f # cs) = (if i \<noteq> j then f # sent_to j cs else sent_to j cs)"
| "sent_to j (Recv i # cs) = sent_to j cs"

fun call_node :: "'f net_call \<Rightarrow> nat" where
  "call_node (Send i f) = i"
| "call_node (Recv i) = i"

lemma read_by_simps [simp]:
  "read_by j [] = []" "read_by j ((i, f) # log) = (if i = j then f # read_by j log else read_by j log)"
  by (simp_all add: read_by_def)

context broadcast_net
begin

text \<open>What node \<open>j\<close> has read and what is left in its queue is, in order, a selection of what was
  there before and what the other nodes sent.\<close>

lemma run_subseq_send:
  assumes step: "subseq (read_by j log @ queues n' ! j) (queues (snd (send n i f)) ! j @ sent_to j cs)"
    and j: "j < length (queues n)"
  shows "subseq (read_by j log @ queues n' ! j) (queues n ! j @ sent_to j (Send i f # cs))"
proof (cases "up n")
  case False
  then have "snd (send n i f) = n" by (simp add: send_down)
  moreover have "subseq (sent_to j cs) (sent_to j (Send i f # cs))" by (auto intro: list_emb_Cons)
  ultimately show ?thesis
    using step by (auto intro: subseq_order.trans list_emb_append_mono)
next
  case True
  then have "queues (snd (send n i f)) = broadcast_queues cap f i (queues n)" by (simp add: send_up)
  then have "subseq (queues (snd (send n i f)) ! j @ sent_to j cs) (queues n ! j @ sent_to j (Send i f # cs))"
    using j by (auto intro: list_emb_append_mono)
  then show ?thesis using step by (auto intro: subseq_order.trans)
qed

lemma length_send: "length (queues (snd (send n i f))) = length (queues n)"
  by (cases "up n") (simp_all add: send_up send_down)

lemma run_subseq:
  assumes "\<forall>c \<in> set cs. call_node c < length (queues n)" "j < length (queues n)"
    and "net_run send recv n cs = (log, n')"
  shows "subseq (read_by j log @ queues n' ! j) (queues n ! j @ sent_to j cs)
    \<and> length (queues n') = length (queues n)"
  using assms
proof (induction cs arbitrary: n log)
  case Nil
  then show ?case by auto
next
  case (Cons c cs)
  show ?case
  proof (cases c)
    case (Send i f)
    have "net_run send recv (snd (send n i f)) cs = (log, n')" using Cons.prems(3) Send by simp
    from Cons.IH [OF _ _ this] Cons.prems(1,2) show ?thesis
      using run_subseq_send [OF _ Cons.prems(2)] by (simp add: Send length_send)
  next
    case (Recv i)
    then have i: "i < length (queues n)" using Cons.prems(1) by simp
    obtain r m where rm: "recv n i = (r, m)" by force
    with recv_eq [OF i] have pop: "pop_queue i (queues n) = (r, queues m)"
      by (simp add: prod_eq_iff)
    then have len: "length (queues m) = length (queues n)"
      using length_pop_queue [of i "queues n"] by simp
    show ?thesis
    proof (cases r)
      case (Inl e)
      then have "queues m = queues n" using pop by (simp add: pop_queue_def split: list.splits)
      then show ?thesis
        using Cons.IH [of m log] Cons.prems rm Recv Inl by simp
    next
      case (Inr f)
      then obtain log' where l: "net_run send recv m cs = (log', n')" "log = (i, f) # log'"
        using Cons.prems(3) rm Recv by (cases "net_run send recv m cs") auto
      then show ?thesis
        using Cons.IH [OF _ _ l(1)] pop_queue_InrD [OF pop [unfolded Inr] i] Cons.prems len Recv
        by (cases "j = i") auto
    qed
  qed
qed

text \<open>As long as the queues cannot fill up, nothing is lost.\<close>

lemma run_lossless:
  assumes "\<forall>c \<in> set cs. call_node c < length (queues n)" "j < length (queues n)" "up n"
    and "length (queues n ! j) + length (sent_to j cs) \<le> cap"
    and "net_run send recv n cs = (log, n')"
  shows "read_by j log @ queues n' ! j = queues n ! j @ sent_to j cs"
  using assms
proof (induction cs arbitrary: n log)
  case Nil
  then show ?case by auto
next
  case (Cons c cs)
  show ?case
  proof (cases c)
    case (Send i f)
    let ?m = "snd (send n i f)"
    have q: "queues ?m = broadcast_queues cap f i (queues n)" "up ?m"
      using Cons.prems(3) by (simp_all add: send_up)
    have "read_by j log @ queues n' ! j = queues ?m ! j @ sent_to j cs"
      using Cons.IH [of ?m log] Cons.prems q Send by (auto split: if_splits)
    then show ?thesis
      using Cons.prems q Send by (auto split: if_splits)
  next
    case (Recv i)
    then have i: "i < length (queues n)" using Cons.prems(1) by simp
    obtain r m where rm: "recv n i = (r, m)" by force
    with recv_eq [OF i] Cons.prems(3) have pop: "pop_queue i (queues n) = (r, queues m)" "up m"
      by (simp_all add: prod_eq_iff)
    then have len: "length (queues m) = length (queues n)"
      using length_pop_queue [of i "queues n"] by simp
    show ?thesis
    proof (cases r)
      case (Inl e)
      then have "queues m = queues n" using pop by (simp add: pop_queue_def split: list.splits)
      then show ?thesis
        using Cons.IH [of m log] Cons.prems pop(2) rm Recv Inl by simp
    next
      case (Inr f)
      then obtain log' where l: "net_run send recv m cs = (log', n')" "log = (i, f) # log'"
        using Cons.prems(5) rm Recv by (cases "net_run send recv m cs") auto
      note q = pop_queue_InrD [OF pop(1) [unfolded Inr] i]
      have "read_by j log' @ queues n' ! j = queues m ! j @ sent_to j cs"
        using Cons.IH [OF _ _ pop(2) _ l(1)] Cons.prems len q Recv by (cases "j = i") auto
      then show ?thesis
        using l q len Recv by (cases "j = i") auto
    qed
  qed
qed

end

end
