(* ===== verification/Sim_Can.thy ===== *)
theory Sim_Can
  imports Sim_Net Can
begin

text \<open>
  \<open>sim/src/can.rs\<close>: the simulated CAN network. A node implements \<open>CanTransceiver\<close>, so the
  application contract of \<open>CanBus\<close> holds over it; the network as a whole keeps \<open>broadcast_net\<close>.
\<close>


section \<open>The network\<close>

definition SIM_RX_QUEUE_LEN :: nat where "SIM_RX_QUEUE_LEN = 16"

record sim_can_network =
  scn_nodes :: "can_frame list list"
  scn_bus_off :: bool

definition sim_can_network_new :: sim_can_network where
  "sim_can_network_new = \<lparr>scn_nodes = [], scn_bus_off = False\<rparr>"

definition sim_can_set_bus_off :: "bool \<Rightarrow> sim_can_network \<Rightarrow> sim_can_network" where
  "sim_can_set_bus_off off n = n\<lparr>scn_bus_off := off\<rparr>"

definition sim_can_is_bus_off :: "sim_can_network \<Rightarrow> bool" where
  "sim_can_is_bus_off n = scn_bus_off n"

text \<open>\<open>node\<close> attaches a queue and returns the endpoint: its index.\<close>

definition sim_can_attach :: "sim_can_network \<Rightarrow> nat \<times> sim_can_network" where
  "sim_can_attach n = (length (scn_nodes n), n\<lparr>scn_nodes := scn_nodes n @ [[]]\<rparr>)"

definition sim_can_broadcast :: "sim_can_network \<Rightarrow> can_frame \<Rightarrow> nat \<Rightarrow> sim_can_network" where
  "sim_can_broadcast n f sender =
     (if scn_bus_off n then n
      else n\<lparr>scn_nodes := broadcast_queues SIM_RX_QUEUE_LEN f sender (scn_nodes n)\<rparr>)"

definition sim_can_send :: "sim_can_network \<Rightarrow> nat \<Rightarrow> can_frame \<Rightarrow> (bus_error + unit) \<times> sim_can_network"
where
  "sim_can_send n i f =
     (if scn_bus_off n then (Inl BusOff, n) else (Inr (), sim_can_broadcast n f i))"

definition sim_can_recv :: "sim_can_network \<Rightarrow> nat \<Rightarrow> (bus_error + can_frame) \<times> sim_can_network" where
  "sim_can_recv n i =
     (let (r, qs) = pop_queue i (scn_nodes n) in (r, n\<lparr>scn_nodes := qs\<rparr>))"

definition sim_can_has_received :: "sim_can_network \<Rightarrow> nat \<Rightarrow> bool" where
  "sim_can_has_received n i \<longleftrightarrow> scn_nodes n ! i \<noteq> []"

definition sim_can_can_send :: "sim_can_network \<Rightarrow> bool" where
  "sim_can_can_send n \<longleftrightarrow> \<not> scn_bus_off n"

interpretation can_net: broadcast_net sim_can_send sim_can_recv scn_nodes "\<lambda>n. \<not> scn_bus_off n"
  SIM_RX_QUEUE_LEN
  by unfold_locales
    (auto simp: sim_can_send_def sim_can_broadcast_def sim_can_recv_def split: prod.splits)


section \<open>A node as a transceiver\<close>

record sim_can_node =
  nd_network :: sim_can_network
  nd_index :: nat

definition sim_can_node_ops :: "sim_can_node can_transceiver" where
  "sim_can_node_ops =
     \<lparr>ct_send = \<lambda>d f. (let (r, n) = sim_can_send (nd_network d) (nd_index d) f in
                        (r, d\<lparr>nd_network := n\<rparr>)),
      ct_recv = \<lambda>d. (let (r, n) = sim_can_recv (nd_network d) (nd_index d) in
                        (r, d\<lparr>nd_network := n\<rparr>)),
      ct_has_received = \<lambda>d. sim_can_has_received (nd_network d) (nd_index d),
      ct_can_send = \<lambda>d. sim_can_can_send (nd_network d)\<rparr>"

lemmas sim_can_defs =
  sim_can_node_ops_def sim_can_send_def sim_can_broadcast_def sim_can_recv_def
  sim_can_has_received_def sim_can_can_send_def pop_queue_def

interpretation sim_can: can_backend sim_can_node_ops "\<lambda>d. scn_nodes (nd_network d) ! nd_index d"
  "\<lambda>d. nd_index d < length (scn_nodes (nd_network d))"
  by unfold_locales (auto simp: sim_can_defs Let_def split: list.splits)


section \<open>Properties\<close>

text \<open>C7: What a node of a simulated CAN network sees of any run of sends and receives by all nodes,
  with the bus up or off: the frames it has read and those still queued are, in the order of
  sending, among the frames the other nodes sent (and those queued before). No frame is made up,
  duplicated, reordered or returned to its sender.\<close>
theorem sim_can_broadcast_order:
  assumes "\<forall>c \<in> set cs. call_node c < length (scn_nodes n)" "j < length (scn_nodes n)"
    and "net_run sim_can_send sim_can_recv n cs = (log, n')"
  shows "subseq (read_by j log @ scn_nodes n' ! j) (scn_nodes n ! j @ sent_to j cs)"
  using can_net.run_subseq [OF assms] by blast

text \<open>A run of two nodes: node 0 sends twice, node 1 reads once.\<close>

definition demo_frame :: "u32 \<Rightarrow> can_frame" where
  "demo_frame i =
     \<lparr>cf_id = \<lparr>cid_raw = i, cid_extended = False\<rparr>, cf_data = replicate 8 0, cf_len = 1\<rparr>"

definition demo_net :: "can_frame list \<Rightarrow> sim_can_network" where
  "demo_net q = \<lparr>scn_nodes = [[], q], scn_bus_off = False\<rparr>"

lemma demo_net_run:
  "net_run sim_can_send sim_can_recv (demo_net [])
     [Send 0 (demo_frame 1), Send 0 (demo_frame 2), Recv 1] =
   ([(1, demo_frame 1)], demo_net [demo_frame 2])"
  by (simp add: sim_can_defs demo_net_def broadcast_queues_def SIM_RX_QUEUE_LEN_def)

lemma sim_can_broadcast_order_witness:
  "subseq (read_by 1 [(1, demo_frame 1)] @ scn_nodes (demo_net [demo_frame 2]) ! 1)
     [demo_frame 1, demo_frame 2]"
  using sim_can_broadcast_order [OF _ _ demo_net_run, of 1]
  by (simp add: demo_net_def)

text \<open>With the bus up and at most 16 frames under way to a node, it loses none: it has read, or
  still has queued, exactly the frames the other nodes sent, in order.\<close>
theorem sim_can_lossless:
  assumes "\<forall>c \<in> set cs. call_node c < length (scn_nodes n)" "j < length (scn_nodes n)"
    and "\<not> scn_bus_off n" "length (scn_nodes n ! j) + length (sent_to j cs) \<le> SIM_RX_QUEUE_LEN"
    and "net_run sim_can_send sim_can_recv n cs = (log, n')"
  shows "read_by j log @ scn_nodes n' ! j = scn_nodes n ! j @ sent_to j cs"
  using can_net.run_lossless [OF assms] .

lemma sim_can_lossless_witness:
  "read_by 1 [(1, demo_frame 1)] @ scn_nodes (demo_net [demo_frame 2]) ! 1 =
     [demo_frame 1, demo_frame 2]"
  using sim_can_lossless [OF _ _ _ _ demo_net_run, of 1]
  by (simp add: demo_net_def SIM_RX_QUEUE_LEN_def)

text \<open>A frame sent to a node whose queue is full is lost without a trace, although \<open>send\<close> and
  \<open>transmit\<close> return \<open>Ok\<close>.\<close>
theorem sim_can_drops_silently:
  assumes "\<not> scn_bus_off n" "j < length (scn_nodes n)" "SIM_RX_QUEUE_LEN \<le> length (scn_nodes n ! j)"
  shows "fst (sim_can_send n i f) = Inr () \<and> scn_nodes (snd (sim_can_send n i f)) ! j = scn_nodes n ! j"
  using assms by (simp add: sim_can_send_def sim_can_broadcast_def)

lemma sim_can_drops_silently_witness:
  "fst (sim_can_send (demo_net (replicate 16 (demo_frame 1))) 0 (demo_frame 2)) = Inr () \<and>
   scn_nodes (snd (sim_can_send (demo_net (replicate 16 (demo_frame 1))) 0 (demo_frame 2))) ! 1 =
     replicate 16 (demo_frame 1)"
  using sim_can_drops_silently [of "demo_net (replicate 16 (demo_frame 1))" 1 0 "demo_frame 2"]
  by (simp add: demo_net_def SIM_RX_QUEUE_LEN_def)

text \<open>\<open>CanBus\<close> over a simulated node: \<open>transmit\<close> succeeds exactly for frames whose length and
  identifier are in range while the bus is up, and otherwise changes nothing; and the read loop
  returns the received frames in order and leaves none, given fuel for one call more than frames.\<close>
theorem sim_can_bus_contract:
  assumes "nd_index d < length (scn_nodes (nd_network d))"
    and "length (scn_nodes (nd_network d) ! nd_index d) < fuel"
  shows "(fst (can_bus_transmit sim_can_node_ops (can_bus_new d) f) = Inr () \<longleftrightarrow>
      can_frame_len f \<le> CAN_MAX_DLC \<and> can_id_ok (cf_id f) \<and> \<not> scn_bus_off (nd_network d)) \<and>
    (fst (can_bus_transmit sim_can_node_ops (can_bus_new d) f) \<noteq> Inr () \<longrightarrow>
      snd (can_bus_transmit sim_can_node_ops (can_bus_new d) f) = can_bus_new d) \<and>
    (\<exists>b. drain (can_vehicle_bus sim_can_node_ops) fuel (can_bus_new d) =
      Some (scn_nodes (nd_network d) ! nd_index d, b))"
proof -
  let ?b = "can_bus_new d"
  have b: "nd_index (cb_transceiver ?b) < length (scn_nodes (nd_network (cb_transceiver ?b)))"
    "cb_transceiver ?b = d"
    using assms(1) by (simp_all add: can_bus_new_def)
  have v: "map_err invalid_frame_err (can_validate_frame f) = Inr () \<longleftrightarrow>
      can_frame_len f \<le> CAN_MAX_DLC \<and> can_id_ok (cf_id f)"
    using can_validate_frame_iff [of f] by (cases "can_validate_frame f") auto
  have t: "vb_transmit (can_vehicle_bus sim_can_node_ops) = can_bus_transmit sim_can_node_ops"
    "vb_can_transmit (can_vehicle_bus sim_can_node_ops) ?b \<longleftrightarrow> \<not> scn_bus_off (nd_network d)"
    by (simp_all add: can_bus_defs can_bus_new_def sim_can_node_ops_def sim_can_can_send_def)
  have "snd (can_bus_transmit sim_can_node_ops ?b f) = ?b"
    if "fst (can_bus_transmit sim_can_node_ops ?b f) \<noteq> Inr ()"
    using that sim_can.bus.transmit_failure_unchanged [OF b(1), of f] unfolding t
    by (cases "fst (can_bus_transmit sim_can_node_ops ?b f)") auto
  moreover have "\<exists>b. drain (can_vehicle_bus sim_can_node_ops) fuel ?b =
      Some (scn_nodes (nd_network d) ! nd_index d, b)"
    using sim_can.bus.drain_all [OF b(1), of fuel] assms(2) b(2) by auto
  ultimately show ?thesis
    using sim_can.bus.transmit_success_iff [OF b(1), of f] v t by simp
qed

lemma sim_can_bus_contract_witness:
  "fst (can_bus_transmit sim_can_node_ops (can_bus_new \<lparr>nd_network = demo_net [], nd_index = 0\<rparr>)
     (demo_frame 0x7FF)) = Inr () \<and>
   fst (can_bus_transmit sim_can_node_ops (can_bus_new \<lparr>nd_network = demo_net [], nd_index = 0\<rparr>)
     (demo_frame 0x800)) \<noteq> Inr ()"
  using sim_can_bus_contract [of "\<lparr>nd_network = demo_net [], nd_index = 0\<rparr>" 1 "demo_frame 0x7FF"]
    sim_can_bus_contract [of "\<lparr>nd_network = demo_net [], nd_index = 0\<rparr>" 1 "demo_frame 0x800"]
  by (simp add: demo_net_def demo_frame_def can_id_ok_def STANDARD_MAX_def can_frame_len_def CAN_MAX_DLC_def)

end
