(* ===== verification/Sim_Lin.thy ===== *)
theory Sim_Lin
  imports Sim_Net Lin
begin

text \<open>
  \<open>sim/src/lin.rs\<close>: the simulated LIN cluster, whose nodes carry the master flag beside their queue.
  Sending does not look at the flag. A node implements \<open>LinTransceiver\<close>.
\<close>


section \<open>The cluster\<close>

definition SIM_LIN_RX_QUEUE_LEN :: nat where "SIM_LIN_RX_QUEUE_LEN = 16"

record sim_lin_cluster =
  slc_nodes :: "(bool \<times> lin_frame list) list"
  slc_bus_off :: bool

definition sim_lin_cluster_new :: sim_lin_cluster where
  "sim_lin_cluster_new = \<lparr>slc_nodes = [], slc_bus_off = False\<rparr>"

definition sim_lin_set_bus_off :: "bool \<Rightarrow> sim_lin_cluster \<Rightarrow> sim_lin_cluster" where
  "sim_lin_set_bus_off off n = n\<lparr>slc_bus_off := off\<rparr>"

definition sim_lin_attach :: "bool \<Rightarrow> sim_lin_cluster \<Rightarrow> nat \<times> sim_lin_cluster" where
  "sim_lin_attach is_master n =
     (length (slc_nodes n), n\<lparr>slc_nodes := slc_nodes n @ [(is_master, [])]\<rparr>)"

definition slc_queues :: "sim_lin_cluster \<Rightarrow> lin_frame list list" where
  "slc_queues n = map snd (slc_nodes n)"

definition sim_lin_broadcast :: "sim_lin_cluster \<Rightarrow> lin_frame \<Rightarrow> nat \<Rightarrow> sim_lin_cluster" where
  "sim_lin_broadcast n f sender =
     (if slc_bus_off n then n
      else n\<lparr>slc_nodes := zip (map fst (slc_nodes n))
              (broadcast_queues SIM_LIN_RX_QUEUE_LEN f sender (slc_queues n))\<rparr>)"

definition sim_lin_send :: "sim_lin_cluster \<Rightarrow> nat \<Rightarrow> lin_frame \<Rightarrow> (bus_error + unit) \<times> sim_lin_cluster"
where
  "sim_lin_send n i f =
     (if slc_bus_off n then (Inl BusOff, n) else (Inr (), sim_lin_broadcast n f i))"

definition sim_lin_recv :: "sim_lin_cluster \<Rightarrow> nat \<Rightarrow> (bus_error + lin_frame) \<times> sim_lin_cluster" where
  "sim_lin_recv n i =
     (let (r, qs) = pop_queue i (slc_queues n) in
      (r, n\<lparr>slc_nodes := zip (map fst (slc_nodes n)) qs\<rparr>))"

definition sim_lin_has_received :: "sim_lin_cluster \<Rightarrow> nat \<Rightarrow> bool" where
  "sim_lin_has_received n i \<longleftrightarrow> slc_queues n ! i \<noteq> []"

definition sim_lin_can_send :: "sim_lin_cluster \<Rightarrow> bool" where
  "sim_lin_can_send n \<longleftrightarrow> \<not> slc_bus_off n"

lemma slc_queues_zip [simp]:
  "length qs = length (slc_nodes n) \<Longrightarrow>
   slc_queues (n\<lparr>slc_nodes := zip (map fst (slc_nodes n)) qs\<rparr>) = qs"
  by (simp add: slc_queues_def)

lemma length_slc_queues [simp]: "length (slc_queues n) = length (slc_nodes n)"
  by (simp add: slc_queues_def)

lemma slc_nodes_zip [simp]: "zip (map fst (slc_nodes n)) (slc_queues n) = slc_nodes n"
  by (simp add: slc_queues_def zip_map_fst_snd)

lemma pop_queue_length: "pop_queue i qs = (r, qs') \<Longrightarrow> length qs' = length qs"
  using length_pop_queue [of i qs] by simp

interpretation lin_net: broadcast_net sim_lin_send sim_lin_recv slc_queues "\<lambda>n. \<not> slc_bus_off n"
  SIM_LIN_RX_QUEUE_LEN
  by unfold_locales
    (auto simp: sim_lin_send_def sim_lin_broadcast_def sim_lin_recv_def pop_queue_length
      split: prod.splits)


section \<open>A node as a transceiver\<close>

record sim_lin_node =
  ln_network :: sim_lin_cluster
  ln_index :: nat
  ln_is_master :: bool

definition sim_lin_node_ops :: "sim_lin_node lin_transceiver" where
  "sim_lin_node_ops =
     \<lparr>lt_is_master = ln_is_master,
      lt_send = \<lambda>d f. (let (r, n) = sim_lin_send (ln_network d) (ln_index d) f in
                        (r, d\<lparr>ln_network := n\<rparr>)),
      lt_recv = \<lambda>d. (let (r, n) = sim_lin_recv (ln_network d) (ln_index d) in
                        (r, d\<lparr>ln_network := n\<rparr>)),
      lt_has_received = \<lambda>d. sim_lin_has_received (ln_network d) (ln_index d),
      lt_can_send = \<lambda>d. sim_lin_can_send (ln_network d)\<rparr>"

interpretation sim_lin: lin_backend sim_lin_node_ops "\<lambda>d. slc_queues (ln_network d) ! ln_index d"
  "\<lambda>d. ln_index d < length (slc_nodes (ln_network d))"
proof (unfold_locales, goal_cases)
  case (1 d)
  then show ?case
    by (simp add: sim_lin_node_ops_def sim_lin_recv_def pop_queue_def Let_def)
next
  case (2 d f fs)
  then show ?case
    by (simp add: sim_lin_node_ops_def sim_lin_recv_def pop_queue_def Let_def)
next
  case (7 d)
  then show ?case
    by (auto simp: sim_lin_node_ops_def sim_lin_recv_def Let_def pop_queue_length split: prod.splits)
qed (simp_all add: sim_lin_node_ops_def sim_lin_send_def sim_lin_broadcast_def
    sim_lin_has_received_def sim_lin_can_send_def)


section \<open>Properties\<close>

text \<open>With the cluster up and at most 16 frames under way to a node, it loses none of the frames
  the other nodes send, whoever is the master: it has read, or still has queued, exactly those, in
  order.\<close>
theorem sim_lin_lossless:
  assumes "\<forall>c \<in> set cs. call_node c < length (slc_nodes n)" "j < length (slc_nodes n)"
    and "\<not> slc_bus_off n"
    and "length (slc_queues n ! j) + length (sent_to j cs) \<le> SIM_LIN_RX_QUEUE_LEN"
    and "net_run sim_lin_send sim_lin_recv n cs = (log, n')"
  shows "read_by j log @ slc_queues n' ! j = slc_queues n ! j @ sent_to j cs"
  using lin_net.run_lossless [of cs n j log n'] assms by simp

lemma sim_lin_lossless_witness:
  "\<exists>n'. net_run sim_lin_send sim_lin_recv
      \<lparr>slc_nodes = [(True, []), (False, [])], slc_bus_off = False\<rparr>
      [Send 1 \<lparr>lf_id = LinId 5, lf_data = replicate 8 0, lf_len = 1\<rparr>] = ([], n') \<and>
    slc_queues n' ! 0 = [\<lparr>lf_id = LinId 5, lf_data = replicate 8 0, lf_len = 1\<rparr>]"
proof -
  let ?f = "\<lparr>lf_id = LinId 5, lf_data = replicate 8 0, lf_len = 1\<rparr> :: lin_frame"
  let ?n = "\<lparr>slc_nodes = [(True, []), (False, [])], slc_bus_off = False\<rparr>"
  obtain n' where n': "net_run sim_lin_send sim_lin_recv ?n [Send 1 ?f] = ([], n')" by simp
  from sim_lin_lossless [OF _ _ _ _ n', of 0] n' show ?thesis
    by (simp add: slc_queues_def SIM_LIN_RX_QUEUE_LEN_def)
qed

end
