(* ===== verification/Sim_Someip.thy ===== *)
theory Sim_Someip
  imports Sim_Net Someip
begin

text \<open>
  \<open>sim/src/someip.rs\<close>: the simulated Ethernet segment. Every message goes to every other node,
  whatever its service. A node implements \<open>SomeIpTransceiver\<close>.
\<close>


section \<open>The segment\<close>

definition SIM_SOMEIP_RX_QUEUE_LEN :: nat where "SIM_SOMEIP_RX_QUEUE_LEN = 16"

record sim_someip_network =
  ssn_nodes :: "someip_message list list"
  ssn_down :: bool

definition sim_someip_network_new :: sim_someip_network where
  "sim_someip_network_new = \<lparr>ssn_nodes = [], ssn_down = False\<rparr>"

definition sim_someip_set_link_down :: "bool \<Rightarrow> sim_someip_network \<Rightarrow> sim_someip_network" where
  "sim_someip_set_link_down down n = n\<lparr>ssn_down := down\<rparr>"

definition sim_someip_attach :: "sim_someip_network \<Rightarrow> nat \<times> sim_someip_network" where
  "sim_someip_attach n = (length (ssn_nodes n), n\<lparr>ssn_nodes := ssn_nodes n @ [[]]\<rparr>)"

definition sim_someip_broadcast ::
  "sim_someip_network \<Rightarrow> someip_message \<Rightarrow> nat \<Rightarrow> sim_someip_network" where
  "sim_someip_broadcast n m sender =
     (if ssn_down n then n
      else n\<lparr>ssn_nodes := broadcast_queues SIM_SOMEIP_RX_QUEUE_LEN m sender (ssn_nodes n)\<rparr>)"

definition sim_someip_send ::
  "sim_someip_network \<Rightarrow> nat \<Rightarrow> someip_message \<Rightarrow> (bus_error + unit) \<times> sim_someip_network" where
  "sim_someip_send n i m =
     (if ssn_down n then (Inl BusOff, n) else (Inr (), sim_someip_broadcast n m i))"

definition sim_someip_recv ::
  "sim_someip_network \<Rightarrow> nat \<Rightarrow> (bus_error + someip_message) \<times> sim_someip_network" where
  "sim_someip_recv n i =
     (let (r, qs) = pop_queue i (ssn_nodes n) in (r, n\<lparr>ssn_nodes := qs\<rparr>))"

definition sim_someip_has_received :: "sim_someip_network \<Rightarrow> nat \<Rightarrow> bool" where
  "sim_someip_has_received n i \<longleftrightarrow> ssn_nodes n ! i \<noteq> []"

definition sim_someip_can_send :: "sim_someip_network \<Rightarrow> bool" where
  "sim_someip_can_send n \<longleftrightarrow> \<not> ssn_down n"

interpretation someip_net: broadcast_net sim_someip_send sim_someip_recv ssn_nodes "\<lambda>n. \<not> ssn_down n"
  SIM_SOMEIP_RX_QUEUE_LEN
  by unfold_locales
    (auto simp: sim_someip_send_def sim_someip_broadcast_def sim_someip_recv_def split: prod.splits)


section \<open>A node as a transceiver\<close>

record sim_someip_node =
  sn_network :: sim_someip_network
  sn_index :: nat

definition sim_someip_node_ops :: "sim_someip_node someip_transceiver" where
  "sim_someip_node_ops =
     \<lparr>st_send = \<lambda>d m. (let (r, n) = sim_someip_send (sn_network d) (sn_index d) m in
                        (r, d\<lparr>sn_network := n\<rparr>)),
      st_recv = \<lambda>d. (let (r, n) = sim_someip_recv (sn_network d) (sn_index d) in
                        (r, d\<lparr>sn_network := n\<rparr>)),
      st_has_received = \<lambda>d. sim_someip_has_received (sn_network d) (sn_index d),
      st_can_send = \<lambda>d. sim_someip_can_send (sn_network d)\<rparr>"

lemmas sim_someip_defs =
  sim_someip_node_ops_def sim_someip_send_def sim_someip_broadcast_def sim_someip_recv_def
  sim_someip_has_received_def sim_someip_can_send_def pop_queue_def

interpretation sim_someip: someip_backend sim_someip_node_ops
  "\<lambda>d. ssn_nodes (sn_network d) ! sn_index d" "\<lambda>d. sn_index d < length (ssn_nodes (sn_network d))"
  by unfold_locales (auto simp: sim_someip_defs Let_def split: list.splits)


section \<open>Properties\<close>

text \<open>\<open>SomeIpBus\<close> over a simulated node sends exactly the messages whose payload fits and that
  are no request to service 0, and only while the link is up; every other call leaves the network
  as it was.\<close>
theorem sim_someip_transmit:
  assumes "sn_index d < length (ssn_nodes (sn_network d))"
  shows "let (r, b) = someip_bus_transmit sim_someip_node_ops (someip_bus_new d) m in
    if unat (sm_payload_len m) \<le> SOMEIP_MAX_PAYLOAD \<and>
       \<not> (sh_message_type (sm_header m) = Request \<and> mid_service (sh_message_id (sm_header m)) = 0) \<and>
       \<not> ssn_down (sn_network d)
    then r = Inr () \<and> ssn_nodes (sn_network (sb_transceiver b)) =
       broadcast_queues SIM_SOMEIP_RX_QUEUE_LEN m (sn_index d) (ssn_nodes (sn_network d))
    else r \<noteq> Inr () \<and> b = someip_bus_new d"
  using assms
  by (auto simp: someip_bus_transmit_def someip_validate_message_def someip_bus_new_def
      sim_someip_defs Let_def)

end
