(* ===== verification/Zephyr_Ota.thy ===== *)
theory Zephyr_Ota
  imports Ota
begin

text \<open>
  \<open>zephyr/src/ota_storage.rs\<close> and \<open>zephyr/src/ffi.rs\<close>: the storage backend of the Zephyr binding, in
  RAM by default and in flash with the feature \<open>flash-ota\<close>. The C functions of Zephyr are not part
  of the repository: they are a record of functions. \<open>Zephyr_Faults\<close> says what is assumed of them
  and what the engine over the flash backend then promises.
\<close>


section \<open>The RAM backend\<close>

definition RAM_SLOT_CAP :: nat where "RAM_SLOT_CAP = 1024"

text \<open>A \<open>RamSlot\<close> dereferences to its array.\<close>

type_synonym ram_slot = "u8 list"

definition ram_slot_new :: ram_slot where
  "ram_slot_new = replicate RAM_SLOT_CAP 0"

record zephyr_ram =
  zr_slots :: "ram_slot list"
  zr_state :: slot_state

definition zephyr_ram_new :: zephyr_ram where
  "zephyr_ram_new = \<lparr>zr_slots = [ram_slot_new, ram_slot_new], zr_state = ActiveSlot0\<rparr>"

text \<open>\<open>From<&ZephyrOtaStorage> for SlotState\<close> does not look at the storage.\<close>

definition slot_state_from_zephyr :: "zephyr_ram \<Rightarrow> slot_state" where
  "slot_state_from_zephyr s = ActiveSlot0"

definition zephyr_ram_write_slot :: "target \<Rightarrow> zephyr_ram \<Rightarrow> u8 \<Rightarrow> nat \<Rightarrow> u8 list \<Rightarrow>
    ((ota_error + unit) \<times> zephyr_ram) outcome" where
  "zephyr_ram_write_slot t s slot offset data =
     outcome_bind (ram_write_slot t (zr_slots s) slot offset data) (\<lambda>(r, slots).
     Ret (r, s\<lparr>zr_slots := slots\<rparr>))"

definition zephyr_ram_read_slot :: "target \<Rightarrow> zephyr_ram \<Rightarrow> u8 \<Rightarrow> nat \<Rightarrow> u8 list \<Rightarrow>
    ((ota_error + unit) \<times> u8 list) outcome" where
  "zephyr_ram_read_slot t s slot offset buf = ram_read_slot t (zr_slots s) slot offset buf"

definition zephyr_ram_ops :: "target \<Rightarrow> zephyr_ram ota_storage_ops" where
  "zephyr_ram_ops t =
     \<lparr>os_write_slot = zephyr_ram_write_slot t, os_read_slot = zephyr_ram_read_slot t,
      os_slot_capacity = \<lambda>s. RAM_SLOT_CAP,
      os_write_state = \<lambda>s st. Ret (Inr (), s\<lparr>zr_state := st\<rparr>),
      os_read_state = \<lambda>s. Inr (zr_state s)\<rparr>"

definition zephyr_ram_view :: "zephyr_ram storage_view" where
  "zephyr_ram_view =
     \<lparr>sv_image = \<lambda>s k. zr_slots s ! unat k, sv_journal = zr_state,
      sv_ok = \<lambda>s. slots_ok RAM_SLOT_CAP (zr_slots s) \<and> journal_ok (zr_state s)\<rparr>"

lemma zephyr_ram_spec:
  assumes "32 \<le> usize_bits t"
  shows "ota_storage (zephyr_ram_ops t) zephyr_ram_view"
proof (unfold_locales, goal_cases)
  case (3 s k data)
  with ram_write_slot_0 [of RAM_SLOT_CAP "zr_slots s" k data t] usize_cap [OF assms, of RAM_SLOT_CAP]
  show ?case
    by (auto simp: zephyr_ram_ops_def zephyr_ram_view_def zephyr_ram_write_slot_def RAM_SLOT_CAP_def)
qed (auto simp: zephyr_ram_ops_def zephyr_ram_view_def)

interpretation zephyr_ram: ota_storage "zephyr_ram_ops mcu_release" zephyr_ram_view
  by (rule zephyr_ram_spec) (simp add: mcu_release_def)


section \<open>The foreign functions\<close>

text \<open>
  The result code is 0 for success; \<open>tpt_flash_open\<close> also fills in a handle, \<open>None\<close> for the null
  pointer. The state \<open>'h\<close> is that of the flash driver.
\<close>

record 'h zephyr_ffi =
  tpt_flash_open :: "'h \<Rightarrow> u8 \<Rightarrow> (i32 \<times> nat option) \<times> 'h"
  tpt_flash_write :: "'h \<Rightarrow> nat \<Rightarrow> nat \<Rightarrow> u8 list \<Rightarrow> i32 \<times> 'h"
  tpt_flash_read :: "'h \<Rightarrow> nat \<Rightarrow> nat \<Rightarrow> u8 list \<Rightarrow> (i32 \<times> u8 list) \<times> 'h"
  tpt_flash_close :: "'h \<Rightarrow> nat \<Rightarrow> i32 \<times> 'h"
  tpt_state_write :: "'h \<Rightarrow> u8 list \<Rightarrow> i32 \<times> 'h"
  tpt_state_read :: "'h \<Rightarrow> u8 list \<Rightarrow> i32 \<times> u8 list"
  tpt_slot_capacity :: "'h \<Rightarrow> nat"

definition with_flash_area :: "'h zephyr_ffi \<Rightarrow> 'h \<Rightarrow> u8 \<Rightarrow> (nat \<Rightarrow> 'h \<Rightarrow> 'r \<times> 'h) \<Rightarrow> 'r option \<times> 'h" where
  "with_flash_area F h i f =
     (let ((rc, area), h) = tpt_flash_open F h i in
      if rc \<noteq> 0 then (None, h)
      else
        case area of
          None \<Rightarrow> (None, h)
        | Some a \<Rightarrow>
            let (r, h) = f a h; (_, h) = tpt_flash_close F h a in (Some r, h))"

definition ffi_state_write :: "'h zephyr_ffi \<Rightarrow> 'h \<Rightarrow> u8 list \<Rightarrow> (i32 + unit) \<times> 'h" where
  "ffi_state_write F h bytes =
     (let (rc, h) = tpt_state_write F h bytes in (if rc = 0 then Inr () else Inl rc, h))"

definition ffi_state_read :: "'h zephyr_ffi \<Rightarrow> 'h \<Rightarrow> u8 list \<Rightarrow> (i32 + unit) \<times> u8 list" where
  "ffi_state_read F h bytes =
     (let (rc, bytes) = tpt_state_read F h bytes in (if rc = 0 then Inr () else Inl rc, bytes))"


section \<open>The flash backend\<close>

definition flash_write_slot :: "target \<Rightarrow> 'h zephyr_ffi \<Rightarrow> 'h \<Rightarrow> u8 \<Rightarrow> nat \<Rightarrow> u8 list \<Rightarrow>
    ((ota_error + unit) \<times> 'h) outcome" where
  "flash_write_slot t F h slot offset data =
     (let cap = tpt_slot_capacity F h in
      outcome_bind (usize_add t offset (length data)) (\<lambda>stop.
      if stop > cap then Ret (Inl Storage, h)
      else
        let (r, h) = with_flash_area F h slot (\<lambda>area h. tpt_flash_write F h area offset data) in
        Ret (ok_or (case r of None \<Rightarrow> None | Some rc \<Rightarrow> if rc = 0 then Some () else None) WriteFailed, h)))"

text \<open>The new driver state is returned too; the trait's \<open>&self\<close> hides it from the engine.\<close>

definition flash_read_slot :: "target \<Rightarrow> 'h zephyr_ffi \<Rightarrow> 'h \<Rightarrow> u8 \<Rightarrow> nat \<Rightarrow> u8 list \<Rightarrow>
    ((ota_error + unit) \<times> u8 list \<times> 'h) outcome" where
  "flash_read_slot t F h slot offset buf =
     (let cap = tpt_slot_capacity F h in
      outcome_bind (usize_add t offset (length buf)) (\<lambda>stop.
      if stop > cap then Ret (Inl Storage, buf, h)
      else
        let (r, h) = with_flash_area F h slot (\<lambda>area h. tpt_flash_read F h area offset buf) in
        Ret (case r of
               None \<Rightarrow> (Inl Storage, buf, h)
             | Some (rc, buf) \<Rightarrow> (if rc = 0 then Inr () else Inl Storage, buf, h))))"

definition flash_write_state :: "target \<Rightarrow> 'h zephyr_ffi \<Rightarrow> 'h \<Rightarrow> slot_state \<Rightarrow>
    ((ota_error + unit) \<times> 'h) outcome" where
  "flash_write_state t F h st =
     outcome_bind (slot_state_encode t st) (\<lambda>bytes.
     let (r, h) = ffi_state_write F h bytes in Ret (map_err (\<lambda>_. Storage) r, h))"

definition flash_read_state :: "'h zephyr_ffi \<Rightarrow> 'h \<Rightarrow> ota_error + slot_state" where
  "flash_read_state F h =
     (let (r, bytes) = ffi_state_read F h [0, 0] in
      case map_err (\<lambda>_. Storage) r of
        Inl e \<Rightarrow> Inl e
      | Inr _ \<Rightarrow> ok_or (slot_state_decode (bytes ! 0) (bytes ! 1)) Storage)"

definition flash_ops :: "target \<Rightarrow> 'h zephyr_ffi \<Rightarrow> 'h ota_storage_ops" where
  "flash_ops t F =
     \<lparr>os_write_slot = flash_write_slot t F,
      os_read_slot = \<lambda>h slot offset buf. outcome_bind (flash_read_slot t F h slot offset buf)
        (\<lambda>(r, buf, _). Ret (r, buf)),
      os_slot_capacity = tpt_slot_capacity F,
      os_write_state = flash_write_state t F,
      os_read_state = flash_read_state F\<rparr>"

end
