(* ===== verification/Agl_Can.thy ===== *)
theory Agl_Can
  imports Can
begin

text \<open>
  \<open>agl/src/can_socket.rs\<close>: a CAN transceiver that uses a SOCKETCAN socket if it has one and otherwise
  queues what it sends for its own reader, up to 64 frames. The argument \<open>sc\<close> says whether the crate is
  built with the feature \<open>socketcan\<close> on a Unix system. The binding itself is a stub in the repository:
  \<open>raw::open\<close> returns no descriptor, so a transceiver never gets a socket, in either configuration it
  keeps the contract of a transceiver, and \<open>CanBus\<close> over it keeps the contract of \<open>VehicleBus\<close>.
\<close>


section \<open>The transceiver\<close>

text \<open>Without the feature the field for the descriptor does not exist; it is \<open>None\<close> then.\<close>

type_synonym raw_fd = "32 word"

record agl_can =
  ac_iface :: string
  ac_fd :: "raw_fd option"
  ac_loopback :: "can_frame list"

definition DEFAULT_IFACE :: string where "DEFAULT_IFACE = ''can0''"

definition raw_open :: "string \<Rightarrow> raw_fd option" where
  "raw_open iface = None"

definition raw_close :: "raw_fd \<Rightarrow> unit" where
  "raw_close fd = ()"

definition agl_can_new :: "bool \<Rightarrow> string \<Rightarrow> agl_can" where
  "agl_can_new sc iface =
     (if sc then let fd = raw_open iface in \<lparr>ac_iface = iface, ac_fd = fd, ac_loopback = []\<rparr>
      else \<lparr>ac_iface = iface, ac_fd = None, ac_loopback = []\<rparr>)"

text \<open>What is left of the transceiver when it goes out of scope, and the call of \<open>raw::close\<close> made.\<close>

definition agl_can_drop :: "bool \<Rightarrow> agl_can \<Rightarrow> unit option \<times> agl_can" where
  "agl_can_drop sc s =
     (if sc then
        (case ac_fd s of
           Some fd \<Rightarrow> (Some (raw_close fd), s\<lparr>ac_fd := None\<rparr>)
         | None \<Rightarrow> (None, s))
      else (None, s))"

definition agl_can_send :: "bool \<Rightarrow> agl_can \<Rightarrow> can_frame \<Rightarrow> (bus_error + unit) \<times> agl_can" where
  "agl_can_send sc s f =
     (if sc \<and> ac_fd s \<noteq> None then (Inr (), s\<lparr>ac_loopback := ac_loopback s @ [f]\<rparr>)
      else if length (ac_loopback s) \<ge> 64 then (Inl TxQueueFull, s)
      else (Inr (), s\<lparr>ac_loopback := ac_loopback s @ [f]\<rparr>))"

definition agl_can_recv :: "agl_can \<Rightarrow> (bus_error + can_frame) \<times> agl_can" where
  "agl_can_recv s =
     (case ac_loopback s of
        [] \<Rightarrow> (Inl RxQueueEmpty, s)
      | f # fs \<Rightarrow> (Inr f, s\<lparr>ac_loopback := fs\<rparr>))"

definition agl_can_has_received :: "agl_can \<Rightarrow> bool" where
  "agl_can_has_received s \<longleftrightarrow> ac_loopback s \<noteq> []"

definition agl_can_can_send :: "agl_can \<Rightarrow> bool" where
  "agl_can_can_send s \<longleftrightarrow> length (ac_loopback s) < 64"

definition agl_can_ops :: "bool \<Rightarrow> agl_can can_transceiver" where
  "agl_can_ops sc =
     \<lparr>ct_send = agl_can_send sc, ct_recv = agl_can_recv, ct_has_received = agl_can_has_received,
      ct_can_send = agl_can_can_send\<rparr>"

lemmas agl_can_defs =
  agl_can_ops_def agl_can_send_def agl_can_recv_def agl_can_has_received_def agl_can_can_send_def

text \<open>The states a transceiver can be in: no socket, and at most 64 frames.\<close>

definition agl_can_ok :: "agl_can \<Rightarrow> bool" where
  "agl_can_ok s \<longleftrightarrow> ac_fd s = None \<and> length (ac_loopback s) \<le> 64"

lemma agl_can_new_eq: "agl_can_new sc iface = \<lparr>ac_iface = iface, ac_fd = None, ac_loopback = []\<rparr>"
  by (simp add: agl_can_new_def raw_open_def)

lemma agl_can_new_ok: "agl_can_ok (agl_can_new sc iface)"
  by (simp add: agl_can_new_eq agl_can_ok_def)

interpretation agl_can: can_backend "agl_can_ops sc" ac_loopback agl_can_ok
  by unfold_locales (auto simp: agl_can_defs agl_can_ok_def split: list.splits)

text \<open>What the code would do with a socket: it takes every frame into its own queue, past the limit
  that \<open>can_send\<close> reports, and puts none on the wire.\<close>

lemma agl_open_socket_has_no_limit:
  "ac_fd s = Some fd \<Longrightarrow>
   agl_can_send True s f = (Inr (), s\<lparr>ac_loopback := ac_loopback s @ [f]\<rparr>)"
  by (simp add: agl_can_send_def)


section \<open>Properties\<close>

text \<open>The application's write loop: it transmits frames in order until the first error.\<close>

fun transmit_all :: "('b, 'f) vehicle_bus \<Rightarrow> 'b \<Rightarrow> 'f list \<Rightarrow> nat \<times> 'b" where
  "transmit_all B b [] = (0, b)"
| "transmit_all B b (f # fs) =
     (case vb_transmit B b f of
        (Inl e, b') \<Rightarrow> (0, b')
      | (Inr _, b') \<Rightarrow> map_prod Suc id (transmit_all B b' fs))"

lemma agl_transmit_all:
  "\<forall>f \<in> set fs. can_frame_ok f \<Longrightarrow> ac_fd (cb_transceiver b) = None \<Longrightarrow>
   length (ac_loopback (cb_transceiver b)) + length fs \<le> 64 \<Longrightarrow>
   transmit_all (can_vehicle_bus (agl_can_ops sc)) b fs =
     (length fs, b\<lparr>cb_transceiver := (cb_transceiver b)
        \<lparr>ac_loopback := ac_loopback (cb_transceiver b) @ fs\<rparr>\<rparr>)"
  by (induction fs arbitrary: b) (auto simp: can_bus_defs agl_can_defs can_frame_ok_validates)

text \<open>Loopback over the AGL transceiver, built with and without the socketcan feature: up to 64 frames built by the public constructors are all
  accepted, and the read loop then returns exactly these frames in order and empties the queue.\<close>
theorem agl_can_loopback:
  assumes "\<forall>f \<in> set fs. can_frame_ok f" "length fs \<le> 64"
  shows "\<exists>b b'. transmit_all (can_vehicle_bus (agl_can_ops sc)) (can_bus_new (agl_can_new sc iface)) fs =
      (length fs, b) \<and>
    drain (can_vehicle_bus (agl_can_ops sc)) (Suc (length fs)) b = Some (fs, b') \<and>
    ac_loopback (cb_transceiver b') = []"
proof -
  let ?b = "can_bus_new \<lparr>ac_iface = iface, ac_fd = None, ac_loopback = fs\<rparr>"
  have "transmit_all (can_vehicle_bus (agl_can_ops sc)) (can_bus_new (agl_can_new sc iface)) fs = (length fs, ?b)"
    using agl_transmit_all [of fs "can_bus_new (agl_can_new sc iface)"] assms
    by (simp add: can_bus_new_def agl_can_new_eq)
  moreover have "\<exists>b'. drain (can_vehicle_bus (agl_can_ops sc)) (Suc (length fs)) ?b = Some (fs, b') \<and>
      agl_can_ok (cb_transceiver b') \<and> ac_loopback (cb_transceiver b') = []"
    using agl_can.bus.drain_all [of ?b "Suc (length fs)"] assms(2) by (simp add: can_bus_new_def agl_can_ok_def)
  ultimately show ?thesis by blast
qed

lemma agl_can_loopback_witness:
  "\<exists>b b'. transmit_all (can_vehicle_bus (agl_can_ops True)) (can_bus_new (agl_can_new True DEFAULT_IFACE))
      (replicate 64 \<lparr>cf_id = \<lparr>cid_raw = 1, cid_extended = False\<rparr>, cf_data = replicate 8 0, cf_len = 2\<rparr>) =
      (64, b) \<and>
    drain (can_vehicle_bus (agl_can_ops True)) 65 b =
      Some (replicate 64 \<lparr>cf_id = \<lparr>cid_raw = 1, cid_extended = False\<rparr>, cf_data = replicate 8 0, cf_len = 2\<rparr>, b')"
proof -
  let ?f = "\<lparr>cf_id = \<lparr>cid_raw = 1, cid_extended = False\<rparr>, cf_data = replicate 8 0, cf_len = 2\<rparr>"
  have "can_frame_ok ?f"
    by (simp add: can_frame_ok_def can_id_ok_def STANDARD_MAX_def CAN_MAX_DLC_def word_le_nat_alt)
  then have "\<forall>f \<in> set (replicate 64 ?f). can_frame_ok f" by simp
  from agl_can_loopback [OF this, of True DEFAULT_IFACE]
  obtain b b' where
    "transmit_all (can_vehicle_bus (agl_can_ops True)) (can_bus_new (agl_can_new True DEFAULT_IFACE))
      (replicate 64 ?f) = (64, b)"
    "drain (can_vehicle_bus (agl_can_ops True)) (Suc 64) b = Some (replicate 64 ?f, b')"
    by (auto simp only: length_replicate)
  moreover have "Suc 64 = 65" by simp
  ultimately show ?thesis by (metis (no_types, lifting))
qed

end
