(* ===== verification/Std_Files.thy ===== *)
theory Std_Files
  imports Chassis_Prelude
begin

text \<open>
  What the programs use of Rust's formatting, paths and files. A path is its text, a file its bytes.
  The operating system is the parameter \<open>file_system\<close>: whether the metadata of an existing file can be
  read, whether the file can be opened for reading, and how creating (or truncating) a file and writing bytes to it ends. A write that fails
  half-way leaves the bytes it got to.
\<close>


section \<open>Numbers as text\<close>

definition hex_digit :: "nat \<Rightarrow> char" where
  "hex_digit n = ''0123456789ABCDEF'' ! n"

text \<open>The formats \<open>{}\<close> (base 10) and \<open>{:X}\<close> (base 16) of an unsigned number.\<close>

fun show_base :: "nat \<Rightarrow> nat \<Rightarrow> string" where
  "show_base b n =
     (if b < 2 \<or> n < b then [hex_digit n] else show_base b (n div b) @ [hex_digit (n mod b)])"

declare show_base.simps [simp del]


section \<open>Paths\<close>

definition slash :: char where "slash = CHR 0x2F"
definition dot :: char where "dot = CHR 0x2E"

text \<open>\<open>Path::join\<close> with a relative path.\<close>

definition path_join :: "string \<Rightarrow> string \<Rightarrow> string" where
  "path_join p s = (if p = [] \<or> last p = slash then p @ s else p @ [slash] @ s)"

lemma path_join_inject [simp]: "path_join p s = path_join p s' \<longleftrightarrow> s = s'"
  by (simp add: path_join_def)


section \<open>Files\<close>

type_synonym files = "string \<rightharpoonup> u8 list"

datatype write_result = Refused | Torn nat | Written

record file_system =
  fs_stat :: "files \<Rightarrow> string \<Rightarrow> bool"
  fs_open :: "files \<Rightarrow> string \<Rightarrow> bool"
  fs_write :: "files \<Rightarrow> string \<Rightarrow> u8 list \<Rightarrow> write_result"

text \<open>\<open>Path::exists\<close> is also false if the metadata of the path cannot be read. What a program that asks it
  first takes the content of a file to be:\<close>

definition existing :: "file_system \<Rightarrow> files \<Rightarrow> string \<Rightarrow> u8 list option" where
  "existing F m p = (if fs_stat F m p then m p else None)"

lemma existing_simps [simp]:
  "fs_stat F m p \<Longrightarrow> existing F m p = m p" "m p = None \<Longrightarrow> existing F m p = None"
  by (simp_all add: existing_def)

text \<open>\<open>File::create(p)\<close> and \<open>write_all(bytes)\<close>, or \<open>fs::write(p, bytes)\<close>: whether both succeeded, and the
  files afterwards.\<close>

definition create_and_write :: "file_system \<Rightarrow> files \<Rightarrow> string \<Rightarrow> u8 list \<Rightarrow> bool \<times> files" where
  "create_and_write F m p bytes =
     (case fs_write F m p bytes of
        Refused \<Rightarrow> (False, m)
      | Torn n \<Rightarrow> (False, m(p \<mapsto> take n bytes))
      | Written \<Rightarrow> (True, m(p \<mapsto> bytes)))"

text \<open>\<open>read_exact\<close> of \<open>n\<close> bytes from the start of a file.\<close>

definition read_exact :: "u8 list \<Rightarrow> nat \<Rightarrow> u8 list option" where
  "read_exact content n = (if n \<le> length content then Some (take n content) else None)"

text \<open>\<open>File::open\<close> and \<open>read_exact\<close>.\<close>

definition open_and_read :: "file_system \<Rightarrow> files \<Rightarrow> string \<Rightarrow> u8 list \<Rightarrow> nat \<Rightarrow> u8 list option" where
  "open_and_read F m p content n = (if fs_open F m p then read_exact content n else None)"

lemma create_and_write_other: "q \<noteq> p \<Longrightarrow> snd (create_and_write F m p bytes) q = m q"
  by (auto simp: create_and_write_def split: write_result.split)

lemma create_and_write_done: "fst (create_and_write F m p bytes) \<Longrightarrow> snd (create_and_write F m p bytes) p = Some bytes"
  by (auto simp: create_and_write_def split: write_result.splits)

text \<open>A file system on which exactly the paths in \<open>good\<close> can be written, and every file be read.\<close>

definition writable_files :: "(string \<Rightarrow> bool) \<Rightarrow> file_system" where
  "writable_files good =
     \<lparr>fs_stat = \<lambda>_ _. True, fs_open = \<lambda>_ _. True, fs_write = \<lambda>_ p _. if good p then Written else Refused\<rparr>"

lemma writable_files_simps [simp]:
  "fs_stat (writable_files good) m p" "existing (writable_files good) m p = m p"
  "fs_open (writable_files good) m p" "fs_write (writable_files good) m p bs = (if good p then Written else Refused)"
  "create_and_write (writable_files good) m p bs = (if good p then (True, m(p \<mapsto> bs)) else (False, m))"
  by (simp_all add: writable_files_def create_and_write_def existing_def)

end
