(* ===== verification/Agl_Ota.thy ===== *)
theory Agl_Ota
  imports Ota Std_Files
begin

text \<open>
  \<open>agl/src/ota_storage.rs\<close>: the storage backend on the AGL file system, with the failures of \<open>std::fs\<close> as the
  parameter \<open>file_system\<close> (\<open>Std_Files\<close>): a file may seem not to exist, not open, not be created, or be cut short while it is
  written, by an error or by a power loss. The record \<open>agl_storage\<close> is the struct together with the
  files it works on.
\<close>


section \<open>The backend\<close>

definition DEFAULT_ROOT :: string where "DEFAULT_ROOT = ''/var/lib/tpt-chassis''"

record agl_storage =
  ag_root :: string
  ag_slot_capacity :: nat
  ag_files :: files

definition agl_storage_with_root :: "files \<Rightarrow> string \<Rightarrow> nat \<Rightarrow> agl_storage" where
  "agl_storage_with_root m root cap = \<lparr>ag_root = root, ag_slot_capacity = cap, ag_files = m\<rparr>"

definition agl_storage_new :: "files \<Rightarrow> nat \<Rightarrow> agl_storage" where
  "agl_storage_new m cap = agl_storage_with_root m DEFAULT_ROOT cap"

definition slot_path :: "agl_storage \<Rightarrow> u8 \<Rightarrow> string" where
  "slot_path s slot = path_join (ag_root s) (''slot'' @ show_base 10 (unat slot) @ ''.img'')"

definition state_path :: "agl_storage \<Rightarrow> string" where
  "state_path s = path_join (ag_root s) ''state.bin''"

definition agl_write_slot :: "file_system \<Rightarrow> target \<Rightarrow> agl_storage \<Rightarrow> u8 \<Rightarrow> nat \<Rightarrow> u8 list \<Rightarrow>
    ((ota_error + unit) \<times> agl_storage) outcome" where
  "agl_write_slot F t s slot offset data =
     (let path = slot_path s slot;
          old = (case existing F (ag_files s) path of
                   None \<Rightarrow> Some (replicate (ag_slot_capacity s) 0)
                 | Some content \<Rightarrow> open_and_read F (ag_files s) path content (ag_slot_capacity s)) in
      case ok_or old Storage of
        Inl e \<Rightarrow> Ret (Inl e, s)
      | Inr buf \<Rightarrow>
          outcome_bind (usize_add t offset (length data)) (\<lambda>stop.
          if stop > length buf then Ret (Inl Storage, s)
          else
            outcome_bind (copy_into buf offset stop data) (\<lambda>buf.
            let (ok, m) = create_and_write F (ag_files s) path buf in
            Ret (if ok then Inr () else Inl Storage, s\<lparr>ag_files := m\<rparr>))))"

definition agl_read_slot :: "file_system \<Rightarrow> agl_storage \<Rightarrow> u8 \<Rightarrow> nat \<Rightarrow> u8 list \<Rightarrow>
    ((ota_error + unit) \<times> u8 list) outcome" where
  "agl_read_slot F s slot offset buf =
     (let path = slot_path s slot in
      case existing F (ag_files s) path of
        None \<Rightarrow> Ret (Inr (), replicate (length buf) 0)
      | Some content \<Rightarrow>
          (case ok_or (open_and_read F (ag_files s) path content (length buf)) Storage of
             Inl e \<Rightarrow> Ret (Inl e, buf)
           | Inr buf \<Rightarrow> Ret (Inr (), buf)))"

definition agl_write_state :: "file_system \<Rightarrow> target \<Rightarrow> agl_storage \<Rightarrow> slot_state \<Rightarrow>
    ((ota_error + unit) \<times> agl_storage) outcome" where
  "agl_write_state F t s st =
     outcome_bind (slot_state_encode t st) (\<lambda>bytes.
     let (ok, m) = create_and_write F (ag_files s) (state_path s) bytes in
     Ret (if ok then Inr () else Inl Storage, s\<lparr>ag_files := m\<rparr>))"

definition agl_read_state :: "file_system \<Rightarrow> agl_storage \<Rightarrow> ota_error + slot_state" where
  "agl_read_state F s =
     (case existing F (ag_files s) (state_path s) of
        None \<Rightarrow> Inr ActiveSlot0
      | Some content \<Rightarrow>
          (case ok_or (open_and_read F (ag_files s) (state_path s) content 2) Storage of
             Inl e \<Rightarrow> Inl e
           | Inr bytes \<Rightarrow> ok_or (slot_state_decode (bytes ! 0) (bytes ! 1)) Storage))"

definition agl_ops :: "file_system \<Rightarrow> target \<Rightarrow> agl_storage ota_storage_ops" where
  "agl_ops F t =
     \<lparr>os_write_slot = agl_write_slot F t, os_read_slot = agl_read_slot F,
      os_slot_capacity = ag_slot_capacity, os_write_state = agl_write_state F t,
      os_read_state = agl_read_state F\<rparr>"

text \<open>The files of one backend are apart from each other.\<close>

lemma path_update [simp]:
  "slot_path (s\<lparr>ag_files := m\<rparr>) k = slot_path s k" "state_path (s\<lparr>ag_files := m\<rparr>) = state_path s"
  by (simp_all add: slot_path_def state_path_def)

lemma slot_path_state_path [simp]: "slot_path s k \<noteq> state_path s" "state_path s \<noteq> slot_path s k"
  by (auto simp: slot_path_def state_path_def)

lemma slot_paths_differ: "k \<le> 1 \<Longrightarrow> slot_path s (1 - k) \<noteq> slot_path s k"
proof -
  have "show_base 10 0 \<noteq> show_base 10 1" by code_simp
  moreover assume "k \<le> 1"
  ultimately show ?thesis by (auto simp: slot_path_def slot_le_1)
qed


section \<open>The promise, while no journal write is cut short\<close>

text \<open>What the engine needs of the file system: the journal can be read, and a write of it either leaves
  it alone or completes. Slot files may fail in every way.\<close>

definition journal_atomic :: "file_system \<Rightarrow> bool" where
  "journal_atomic F \<longleftrightarrow>
     (\<forall>m s. fs_stat F m (state_path s) \<and> fs_open F m (state_path s)) \<and> (\<forall>m s bytes n. fs_write F m (state_path s) bytes \<noteq> Torn n)"

definition agl_ok :: "target \<Rightarrow> agl_storage \<Rightarrow> bool" where
  "agl_ok t s \<longleftrightarrow>
     ag_slot_capacity s < 2 ^ usize_bits t \<and>
     (\<forall>content. ag_files s (state_path s) = Some content \<longrightarrow>
        length content = 2 \<and> slot_state_decode (content ! 0) (content ! 1) \<noteq> None)"

definition agl_image :: "agl_storage \<Rightarrow> u8 \<Rightarrow> u8 list" where
  "agl_image s k =
     (case ag_files s (slot_path s k) of None \<Rightarrow> replicate (ag_slot_capacity s) 0 | Some content \<Rightarrow> content)"

definition agl_journal :: "agl_storage \<Rightarrow> slot_state" where
  "agl_journal s =
     (case ag_files s (state_path s) of
        None \<Rightarrow> ActiveSlot0
      | Some content \<Rightarrow> the (slot_state_decode (content ! 0) (content ! 1)))"

definition agl_view :: "target \<Rightarrow> agl_storage storage_view" where
  "agl_view t = \<lparr>sv_image = agl_image, sv_journal = agl_journal, sv_ok = agl_ok t\<rparr>"

lemma agl_read_state_ok:
  assumes "journal_atomic F" "agl_ok t s"
  shows "agl_read_state F s = Inr (agl_journal s)" "journal_ok (agl_journal s)"
  using assms slot_state_decode_encode
  by (auto simp: agl_read_state_def agl_journal_def agl_ok_def journal_atomic_def existing_def open_and_read_def
      read_exact_def split: option.split)

lemma agl_write_state_eq:
  assumes "journal_atomic F" "agl_ok t s" "journal_ok st"
  obtains r s' where "agl_write_state F t s st = Ret (r, s')" "agl_ok t s'" "agl_image s' = agl_image s"
    "agl_journal s' = (if r = Inr () then st else agl_journal s)"
proof -
  obtain b0 b1 where b: "slot_state_encode t st = Ret [b0, b1]" "slot_state_decode b0 b1 = Some st"
    using slot_state_encode_decode [OF assms(3)] by blast
  obtain ok m where w: "create_and_write F (ag_files s) (state_path s) [b0, b1] = (ok, m)"
    by (cases "create_and_write F (ag_files s) (state_path s) [b0, b1]")
  have m: "m = (if ok then (ag_files s)(state_path s \<mapsto> [b0, b1]) else ag_files s)"
    using w assms(1)
    by (auto simp: create_and_write_def journal_atomic_def split: write_result.splits)
  let ?s = "s\<lparr>ag_files := m\<rparr>"
  have i: "agl_image ?s = agl_image s" by (simp add: agl_image_def fun_eq_iff m split: option.split)
  have ok: "agl_ok t ?s" using assms(2) b(2) by (simp add: agl_ok_def m)
  have j: "agl_journal ?s = (if ok then st else agl_journal s)" by (simp add: agl_journal_def m b(2))
  have e: "agl_write_state F t s st = Ret (if ok then Inr () else Inl Storage, ?s)"
    by (simp add: agl_write_state_def b(1) w)
  show thesis by (rule that [OF e ok i]) (simp add: j)
qed

text \<open>A slot write, whatever happens to it: no other file changes.\<close>

lemma agl_write_slot_files:
  assumes "ag_slot_capacity s < 2 ^ usize_bits t" "length data \<le> ag_slot_capacity s"
  obtains r m where "agl_write_slot F t s k 0 data = Ret (r, s\<lparr>ag_files := m\<rparr>)"
    "\<And>q. q \<noteq> slot_path s k \<Longrightarrow> m q = ag_files s q"
    "r = Inr () \<Longrightarrow> take (length data) (agl_image (s\<lparr>ag_files := m\<rparr>) k) = data"
proof -
  let ?path = "slot_path s k"
  let ?old = "case existing F (ag_files s) ?path of None \<Rightarrow> Some (replicate (ag_slot_capacity s) 0)
    | Some content \<Rightarrow> open_and_read F (ag_files s) ?path content (ag_slot_capacity s)"
  show thesis
  proof (cases ?old)
    case None
    then have "agl_write_slot F t s k 0 data = Ret (Inl Storage, s)" by (simp add: agl_write_slot_def Let_def)
    then show thesis using that [of "Inl Storage" "ag_files s"] by simp
  next
    case (Some buf)
    have len: "length buf = ag_slot_capacity s"
      using Some by (auto simp: open_and_read_def read_exact_def split: option.splits if_splits)
    let ?new = "data @ drop (length data) buf"
    obtain ok m where w: "create_and_write F (ag_files s) ?path ?new = (ok, m)"
      by (cases "create_and_write F (ag_files s) ?path ?new")
    have "agl_write_slot F t s k 0 data = Ret (if ok then Inr () else Inl Storage, s\<lparr>ag_files := m\<rparr>)"
      using assms Some len by (simp add: agl_write_slot_def Let_def w copy_into_def)
    moreover have "m q = ag_files s q" if "q \<noteq> ?path" for q
      using create_and_write_other [OF that, of F "ag_files s" ?new] w by simp
    moreover have "take (length data) (agl_image (s\<lparr>ag_files := m\<rparr>) k) = data" if ok
      using create_and_write_done [of F "ag_files s" ?path ?new] w that by (simp add: agl_image_def)
    ultimately show thesis using that by (auto split: if_splits)
  qed
qed

lemma agl_image_other:
  assumes "k \<le> 1" "\<And>q. q \<noteq> slot_path s k \<Longrightarrow> m q = ag_files s q"
  shows "agl_image (s\<lparr>ag_files := m\<rparr>) (1 - k) = agl_image s (1 - k)"
  using assms(2) [OF slot_paths_differ [OF assms(1)]] by (simp add: agl_image_def split: option.split)

lemma agl_write_slot_frame:
  assumes "agl_ok t s" "k \<le> 1" "length data \<le> ag_slot_capacity s"
  obtains r s' where "agl_write_slot F t s k 0 data = Ret (r, s')" "agl_ok t s'"
    "agl_journal s' = agl_journal s" "agl_image s' (1 - k) = agl_image s (1 - k)"
    "r = Inr () \<Longrightarrow> take (length data) (agl_image s' k) = data"
proof -
  have "ag_slot_capacity s < 2 ^ usize_bits t" using assms(1) by (simp add: agl_ok_def)
  from agl_write_slot_files [OF this assms(3), of F k] obtain r m where
    w: "agl_write_slot F t s k 0 data = Ret (r, s\<lparr>ag_files := m\<rparr>)" "\<And>q. q \<noteq> slot_path s k \<Longrightarrow> m q = ag_files s q"
    "r = Inr () \<Longrightarrow> take (length data) (agl_image (s\<lparr>ag_files := m\<rparr>) k) = data" by blast
  have "agl_ok t (s\<lparr>ag_files := m\<rparr>)" "agl_journal (s\<lparr>ag_files := m\<rparr>) = agl_journal s"
    using assms(1) w(2) by (simp_all add: agl_ok_def agl_journal_def)
  with w agl_image_other [OF assms(2) w(2)] that show thesis by blast
qed

lemma agl_ota_storage:
  assumes "journal_atomic F"
  shows "ota_storage (agl_ops F t) (agl_view t)"
proof (unfold_locales, goal_cases)
  case (1 s)
  then show ?case using agl_read_state_ok [OF assms] by (simp add: agl_ops_def agl_view_def)
next
  case (2 s st)
  then show ?case
    by (auto simp: agl_ops_def agl_view_def elim!: agl_write_state_eq [OF assms, of t s st])
next
  case (3 s k data)
  then show ?case
    by (auto simp: agl_ops_def agl_view_def elim!: agl_write_slot_frame [of t s k data F])
next
  case (4 s)
  then show ?case using agl_read_state_ok [OF assms] by (simp add: agl_view_def)
qed

lemma writable_journal_atomic: "journal_atomic (writable_files good)"
  by (simp add: journal_atomic_def)

interpretation agl: ota_storage "agl_ops (writable_files (\<lambda>_. True)) host_debug" "agl_view host_debug"
  by (rule agl_ota_storage [OF writable_journal_atomic])


section \<open>Properties\<close>

text \<open>The engine on AGL files: on every file system that lets the journal be seen and read and never cuts a
  write of it short, and whatever happens to slot files, in every state reached with the staging
  discipline of \<open>Ota\<close> a reboot returns, and the slot it reports is the one the journal says and can be
  trusted.\<close>
theorem agl_boots_trusted:
  assumes "journal_atomic F"
    and "ota_reach t (agl_ops F t) (agl_view t) V os0 e0 os e" "ota_safe (agl_view t) V v factory os0 e0"
  shows "\<exists>r e'. ota_recover t (agl_ops F t) e = Ret (r, e') \<and>
    (\<forall>a. r = Inr a \<longrightarrow> a = running_slot (agl_journal (oe_storage e')) \<and>
       trusted V v factory a (os a) (agl_image (oe_storage e') a))"
proof -
  have st: "ota_storage (agl_ops F t) (agl_view t)" by (rule agl_ota_storage [OF assms(1)])
  have "sv_image (agl_view t) = agl_image" "sv_journal (agl_view t) = agl_journal" by (simp_all add: agl_view_def)
  with ota_storage.recover_safe [OF st ota_storage.reach_safe [OF st assms(2,3)], of t]
  show ?thesis by fastforce
qed

lemma agl_boots_trusted_witness:
  "\<exists>r e'. ota_recover host_debug (agl_ops (writable_files (\<lambda>p. False)) host_debug)
      (ota_engine_new (agl_storage_new Map.empty 16) (demo_signer_new 7)) = Ret (r, e') \<and>
    (\<forall>a. r = Inr a \<longrightarrow> a = running_slot (agl_journal (oe_storage e')) \<and>
       trusted (demo_scheme 32) (demo_signer_new 7) (replicate 16 0) a Factory (agl_image (oe_storage e') a))"
proof -
  have "ota_safe (agl_view host_debug) (demo_scheme 32) (demo_signer_new 7) (replicate 16 0) (\<lambda>_. Factory)
      (ota_engine_new (agl_storage_new Map.empty 16) (demo_signer_new 7))"
    by (simp add: ota_safe_def agl_view_def ota_engine_new_def agl_storage_new_def agl_storage_with_root_def
        agl_ok_def agl_journal_def agl_image_def slots_trusted_def host_debug_def)
  from agl_boots_trusted [OF writable_journal_atomic reach_init this] show ?thesis .
qed

text \<open>The journal file is rewritten in place. If its write is cut short before both bytes are there, no
  later start can read the journal: \<open>recover\<close> returns an error and changes nothing, in this start and
  every other.\<close>
theorem agl_torn_journal_is_fatal:
  assumes "agl_write_state F t s st = Ret (r, s')" "n < 2" "\<forall>m. fs_stat F m (state_path s)"
    and "\<forall>bytes. fs_write F (ag_files s) (state_path s) bytes = Torn n"
  shows "ota_recover t' (agl_ops F t) \<lparr>oe_storage = s', oe_signer = v\<rparr> =
    Ret (Inl Storage, \<lparr>oe_storage = s', oe_signer = v\<rparr>)"
  using assms
  by (auto simp: agl_write_state_def outcome_simps create_and_write_def ota_recover_def agl_ops_def
      agl_read_state_def existing_def open_and_read_def read_exact_def)

lemma agl_torn_journal_is_fatal_witness:
  "\<exists>s'. agl_write_state \<lparr>fs_stat = \<lambda>_ _. True, fs_open = \<lambda>_ _. True, fs_write = \<lambda>_ _ _. Torn 1\<rparr> host_debug
      (agl_storage_new Map.empty 16) (Testing 1 0) = Ret (Inl Storage, s') \<and>
    ota_recover host_debug (agl_ops \<lparr>fs_stat = \<lambda>_ _. True, fs_open = \<lambda>_ _. True, fs_write = \<lambda>_ _ _. Torn 1\<rparr> host_debug)
      \<lparr>oe_storage = s', oe_signer = ()\<rparr> = Ret (Inl Storage, \<lparr>oe_storage = s', oe_signer = ()\<rparr>)"
proof -
  let ?F = "\<lparr>fs_stat = \<lambda>_ _. True, fs_open = \<lambda>_ _. True, fs_write = \<lambda>_ _ _. Torn 1\<rparr>"
  have "\<exists>s'. agl_write_state ?F host_debug (agl_storage_new Map.empty 16) (Testing 1 0) = Ret (Inl Storage, s')"
    by (simp add: agl_write_state_def u8_mul_def u8_add_def create_and_write_def)
  then obtain s' where w: "agl_write_state ?F host_debug (agl_storage_new Map.empty 16) (Testing 1 0) =
      Ret (Inl Storage, s')" by blast
  have "ota_recover host_debug (agl_ops ?F host_debug) \<lparr>oe_storage = s', oe_signer = ()\<rparr> =
      Ret (Inl Storage, \<lparr>oe_storage = s', oe_signer = ()\<rparr>)"
    by (rule agl_torn_journal_is_fatal [OF w, of 1]) simp_all
  with w show ?thesis by blast
qed

text \<open>A slot file shorter than a slot is refused by every write that sees it: the old content is read first.\<close>

definition short_slot :: "agl_storage \<Rightarrow> u8 \<Rightarrow> bool" where
  "short_slot s k \<longleftrightarrow> (\<exists>c. ag_files s (slot_path s k) = Some c \<and> length c < ag_slot_capacity s)"

lemma short_slot_refused:
  "short_slot s k \<Longrightarrow> fs_stat F (ag_files s) (slot_path s k) \<Longrightarrow>
   agl_write_slot F t s k offset data = Ret (Inl Storage, s)"
  by (auto simp: short_slot_def existing_def agl_write_slot_def open_and_read_def read_exact_def Let_def)

lemma torn_slot_short:
  assumes "agl_write_slot F t s k 0 data = Ret (r, s')" "\<forall>bytes. fs_write F (ag_files s) (slot_path s k) bytes = Torn n"
    and "ag_files s (slot_path s k) = None" "length data \<le> ag_slot_capacity s"
    and "n < ag_slot_capacity s" "ag_slot_capacity s < 2 ^ usize_bits t"
  shows "r = Inl Storage \<and> short_slot s' k"
  using assms
  by (auto simp: agl_write_slot_def create_and_write_def copy_into_def short_slot_def Let_def)

text \<open>A write of a slot that is cut short, by an error or a power loss, loses the slot: the backend
  reads the old content before it writes, and refuses it when it is too short, so every later
  update for that slot fails and changes nothing, on any file system that shows the file, for ever.\<close>
theorem agl_torn_slot_is_lost:
  assumes "agl_write_slot F t s k 0 data = Ret (r, s')" "\<forall>bytes. fs_write F (ag_files s) (slot_path s k) bytes = Torn n"
    and "ag_files s (slot_path s k) = None" "length data \<le> ag_slot_capacity s"
    and "n < ag_slot_capacity s" "ag_slot_capacity s < 2 ^ usize_bits t" "up_slot p = k"
    and "\<forall>m q. fs_stat F' m q"
  shows "r = Inl Storage \<and>
    (\<exists>err. ota_stage (agl_ops F' t') V \<lparr>oe_storage = s', oe_signer = v\<rparr> p payload sig =
       Ret (Inl err, \<lparr>oe_storage = s', oe_signer = v\<rparr>))"
  using torn_slot_short [OF assms(1-6)] short_slot_refused [of s' k F' t' 0 payload] assms(7,8)
  by (auto simp: ota_stage_eq agl_ops_def)

lemma agl_torn_slot_is_lost_witness:
  "\<exists>s' err. agl_write_slot \<lparr>fs_stat = \<lambda>_ _. True, fs_open = \<lambda>_ _. True, fs_write = \<lambda>_ _ _. Torn 3\<rparr> host_debug
      (agl_storage_new Map.empty 16) 1 0 [0xAB] = Ret (Inl Storage, s') \<and>
    ota_stage (agl_ops (writable_files (\<lambda>_. True)) host_debug) (demo_scheme 32)
      \<lparr>oe_storage = s', oe_signer = demo_signer_new 7\<rparr> \<lparr>up_slot = 1, up_payload_len = 1\<rparr> [0xAB]
      (demo_hash 32 (demo_signer_new 7) (package_message \<lparr>up_slot = 1, up_payload_len = 1\<rparr> [0xAB])) =
      Ret (Inl err, \<lparr>oe_storage = s', oe_signer = demo_signer_new 7\<rparr>)"
proof -
  let ?F = "\<lparr>fs_stat = \<lambda>_ _. True, fs_open = \<lambda>_ _. True, fs_write = \<lambda>_ _ _. Torn 3\<rparr>" and ?s = "agl_storage_new Map.empty 16"
  have "\<exists>s'. agl_write_slot ?F host_debug ?s 1 0 [0xAB] = Ret (Inl Storage, s')"
    by (simp add: agl_write_slot_def agl_storage_new_def agl_storage_with_root_def host_debug_def
        create_and_write_def copy_into_def Let_def)
  then obtain s' where w: "agl_write_slot ?F host_debug ?s 1 0 [0xAB] = Ret (Inl Storage, s')" by blast
  show ?thesis
    using agl_torn_slot_is_lost [OF w, of 3 "\<lparr>up_slot = 1, up_payload_len = 1\<rparr>"
        "writable_files (\<lambda>_. True)" host_debug "demo_scheme 32" "demo_signer_new 7"] w
    by (auto simp: agl_storage_new_def agl_storage_with_root_def host_debug_def)
qed

text \<open>\<open>read_slot\<close> ignores its offset: it fills the buffer with the beginning of the slot, whatever
  the offset, so data written at an offset are not what is read there.\<close>
theorem agl_read_slot_ignores_offset:
  assumes "fs_stat F (ag_files s) (slot_path s k)" "fs_open F (ag_files s) (slot_path s k)" "length buf \<le> length (agl_image s k)"
  shows "agl_read_slot F s k offset buf = Ret (Inr (), take (length buf) (agl_image s k))"
  using assms
  by (auto simp: agl_read_slot_def existing_def agl_image_def open_and_read_def read_exact_def Let_def split: option.split)

text \<open>A package whose slot is neither 0 nor 1 bricks the vehicle: the AGL backend creates a file
  for any slot number, so a signed package for slot 2 or more is staged, the journal then names a
  slot it cannot decode, and no start can read it.\<close>
theorem agl_foreign_slot_bricks:
  assumes "\<forall>m q bytes. fs_stat F m q \<and> fs_open F m q \<and> fs_write F m q bytes = Written"
    and "agl_ok t s" "ag_files s (slot_path s (up_slot p)) = None" "1 < up_slot p"
    and "stage_verified (agl_ops F t) V \<lparr>oe_storage = s, oe_signer = v\<rparr> p payload sig"
  shows "\<exists>s'. ota_stage (agl_ops F t) V \<lparr>oe_storage = s, oe_signer = v\<rparr> p payload sig =
      Ret (Inr (), \<lparr>oe_storage = s', oe_signer = v\<rparr>) \<and>
    ota_recover t (agl_ops F t) \<lparr>oe_storage = s', oe_signer = v\<rparr> =
      Ret (Inl Storage, \<lparr>oe_storage = s', oe_signer = v\<rparr>)"
proof -
  have len: "length payload \<le> ag_slot_capacity s"
    using assms(5) by (simp add: stage_verified_def agl_ops_def)
  have "slot_state_decode 1 (up_slot p) = None" using assms(4) by (simp add: slot_state_decode_def)
  moreover have "agl_write_slot F t s (up_slot p) 0 payload = Ret (Inr (), s\<lparr>ag_files := (ag_files s)
      (slot_path s (up_slot p) \<mapsto> payload @ replicate (ag_slot_capacity s - length payload) 0)\<rparr>)"
    using assms(1,2,3) len by (simp add: agl_write_slot_def existing_def agl_ok_def create_and_write_def copy_into_def Let_def)
  ultimately show ?thesis
    using assms(1,5)
    by (simp add: ota_stage_eq stage_verified_def write_journal_def agl_ops_def agl_write_state_def
        create_and_write_def ota_recover_def agl_read_state_def existing_def open_and_read_def read_exact_def)
qed

lemma agl_foreign_slot_bricks_witness:
  "\<exists>sig s'. ota_stage (agl_ops (writable_files (\<lambda>_. True)) host_debug) (demo_scheme 32)
      \<lparr>oe_storage = agl_storage_new Map.empty 16, oe_signer = demo_signer_new 7\<rparr>
      \<lparr>up_slot = 7, up_payload_len = 1\<rparr> [0xAB] sig =
      Ret (Inr (), \<lparr>oe_storage = s', oe_signer = demo_signer_new 7\<rparr>) \<and>
    ota_recover host_debug (agl_ops (writable_files (\<lambda>_. True)) host_debug)
      \<lparr>oe_storage = s', oe_signer = demo_signer_new 7\<rparr> =
      Ret (Inl Storage, \<lparr>oe_storage = s', oe_signer = demo_signer_new 7\<rparr>)"
proof -
  let ?s = "agl_storage_new Map.empty 16" and ?p = "\<lparr>up_slot = 7, up_payload_len = 1\<rparr>"
  let ?sig = "demo_hash 32 (demo_signer_new 7) (package_message ?p [0xAB])"
  have "agl_ok host_debug ?s" "ag_files ?s (slot_path ?s (up_slot ?p)) = None" "1 < up_slot ?p"
    by (simp_all add: agl_ok_def agl_storage_new_def agl_storage_with_root_def host_debug_def)
  moreover have "stage_verified (agl_ops (writable_files (\<lambda>_. True)) host_debug) (demo_scheme 32)
      \<lparr>oe_storage = ?s, oe_signer = demo_signer_new 7\<rparr> ?p [0xAB] ?sig"
    by (simp add: stage_verified_def agl_ops_def agl_storage_new_def agl_storage_with_root_def demo_scheme_def
        demo_verify_def OTA_MAX_PAYLOAD_def)
  ultimately show ?thesis
    using agl_foreign_slot_bricks [of "writable_files (\<lambda>_. True)" host_debug ?s ?p "demo_scheme 32"
        "demo_signer_new 7" "[0xAB]" ?sig]
    by (intro exI [of _ ?sig]) simp
qed

end
