(* ===== verification/Flight_Control.thy ===== *)
theory Flight_Control
  imports Safety
begin

text \<open>
  \<open>flight-control/src/lib.rs\<close>: the telemetry frame, its wire format and the bridge that pushes frames
  through a Beam transport. The transport is a trait, here a record with one operation.
\<close>


section \<open>Frames\<close>

record telemetry_frame =
  tf_timestamp_ms :: u32
  tf_speed_cmps :: u32
  tf_steer_deci_deg :: i16
  tf_autonomy_armed :: bool
  tf_event_code :: u16

definition telemetry_from_state ::
  "u32 \<Rightarrow> u32 \<Rightarrow> i16 \<Rightarrow> interlock_state \<Rightarrow> u16 \<Rightarrow> telemetry_frame" where
  "telemetry_from_state ts speed steer interlock code =
     \<lparr>tf_timestamp_ms = ts, tf_speed_cmps = speed, tf_steer_deci_deg = steer,
      tf_autonomy_armed = (case interlock of Armed \<Rightarrow> True | _ \<Rightarrow> False), tf_event_code = code\<rparr>"

datatype beam_error = LinkDown | TooLarge | Transient

fun beam_error_display :: "beam_error \<Rightarrow> string" where
  "beam_error_display LinkDown = ''beam: link down''"
| "beam_error_display TooLarge = ''beam: payload too large''"
| "beam_error_display Transient = ''beam: transient send failure''"

record 't beam_transport =
  bt_send :: "'t \<Rightarrow> u8 list \<Rightarrow> (beam_error + unit) \<times> 't"

definition MAX_FRAME_BYTES :: nat where "MAX_FRAME_BYTES = 64"

text \<open>The bytes written and the buffer they are written to; \<open>off\<close> is the running offset.\<close>

definition encode_telemetry_frame :: "telemetry_frame \<Rightarrow> u8 list \<Rightarrow> (u8 list \<times> u8 list) outcome" where
  "encode_telemetry_frame f out =
     outcome_bind (store_at out 0 0x54) (\<lambda>out.
     outcome_bind (store_at out 1 0x50) (\<lambda>out.
     outcome_bind (store_at out 2 0x54) (\<lambda>out.
     outcome_bind (store_at out 3 0x01) (\<lambda>out.
     let size = 13 in
     outcome_bind (copy_into out 4 6 (le_bytes16 size)) (\<lambda>out.
     let off = 6 in
     outcome_bind (copy_into out off (off + 4) (le_bytes32 (tf_timestamp_ms f))) (\<lambda>out.
     let off = off + 4 in
     outcome_bind (copy_into out off (off + 4) (le_bytes32 (tf_speed_cmps f))) (\<lambda>out.
     let off = off + 4 in
     outcome_bind (copy_into out off (off + 2) (le_bytes16 (tf_steer_deci_deg f))) (\<lambda>out.
     let off = off + 2 in
     outcome_bind (store_at out off (if tf_autonomy_armed f then 1 else 0)) (\<lambda>out.
     let off = off + 1 in
     outcome_bind (copy_into out off (off + 2) (le_bytes16 (tf_event_code f))) (\<lambda>out.
     let off = off + 2 in
     outcome_bind (slice_to out off) (\<lambda>payload. Ret (payload, out))))))))))))"


section \<open>The bridge\<close>

record 't flight_control_bridge =
  fb_transport :: 't
  fb_buf :: "u8 list"

definition flight_control_bridge_new :: "'t \<Rightarrow> 't flight_control_bridge" where
  "flight_control_bridge_new tr = \<lparr>fb_transport = tr, fb_buf = replicate MAX_FRAME_BYTES 0\<rparr>"

definition bridge_publish ::
  "'t beam_transport \<Rightarrow> 't flight_control_bridge \<Rightarrow> telemetry_frame \<Rightarrow>
   ((beam_error + unit) \<times> 't flight_control_bridge) outcome" where
  "bridge_publish T b f =
     outcome_bind (encode_telemetry_frame f (fb_buf b)) (\<lambda>(payload, buf).
     let (r, tr) = bt_send T (fb_transport b) payload in
     Ret (r, b\<lparr>fb_transport := tr, fb_buf := buf\<rparr>))"

text \<open>The recording transport of the crate's tests.\<close>

record beam_sink =
  bs_last :: "u8 list"
  bs_len :: nat

definition beam_sink_new :: beam_sink where
  "beam_sink_new = \<lparr>bs_last = replicate MAX_FRAME_BYTES 0, bs_len = 0\<rparr>"

definition beam_sink_send :: "beam_sink \<Rightarrow> u8 list \<Rightarrow> (beam_error + unit) \<times> beam_sink" where
  "beam_sink_send s payload =
     (let n = min (length payload) MAX_FRAME_BYTES in
      (Inr (), s\<lparr>bs_len := n, bs_last := take n payload @ drop n (bs_last s)\<rparr>))"


section \<open>The wire format and a decoder for it\<close>

definition telemetry_wire :: "telemetry_frame \<Rightarrow> u8 list" where
  "telemetry_wire f =
     [0x54, 0x50, 0x54, 0x01, 13, 0] @ le_bytes32 (tf_timestamp_ms f) @ le_bytes32 (tf_speed_cmps f) @
     le_bytes16 (tf_steer_deci_deg f) @ [if tf_autonomy_armed f then 1 else 0] @
     le_bytes16 (tf_event_code f)"

text \<open>What the routing service has to do with a payload.\<close>

definition telemetry_parse :: "u8 list \<Rightarrow> telemetry_frame option" where
  "telemetry_parse p =
     (if length p = 19 \<and> take 6 p = [0x54, 0x50, 0x54, 0x01, 13, 0] \<and> p ! 16 \<le> 1
      then Some \<lparr>tf_timestamp_ms = from_be32 (p ! 9) (p ! 8) (p ! 7) (p ! 6),
                 tf_speed_cmps = from_be32 (p ! 13) (p ! 12) (p ! 11) (p ! 10),
                 tf_steer_deci_deg = from_be16 (p ! 15) (p ! 14),
                 tf_autonomy_armed = (p ! 16 = 1),
                 tf_event_code = from_be16 (p ! 18) (p ! 17)\<rparr>
      else None)"

lemma length_telemetry_wire [simp]: "length (telemetry_wire f) = 19"
  by (simp add: telemetry_wire_def)

lemma telemetry_parse_wire: "telemetry_parse (telemetry_wire f) = Some f"
  by (cases f)
    (simp add: telemetry_parse_def telemetry_wire_def le_bytes32_def le_bytes16_def be_bytes32_def
      be_bytes16_def wire_simps)

lemma encode_telemetry_frame_eq:
  assumes "length out = MAX_FRAME_BYTES"
  shows "encode_telemetry_frame f out = Ret (telemetry_wire f, telemetry_wire f @ drop 19 out)"
proof -
  have "6 \<le> length out" using assms by (simp add: MAX_FRAME_BYTES_def)
  then obtain a b c d x y rest where out: "out = a # b # c # d # x # y # rest"
    by (auto simp: numeral_eq_Suc Suc_le_length_iff)
  with assms have "length rest = 58" by (simp add: MAX_FRAME_BYTES_def)
  have "le_bytes16 13 = [13, 0]" by code_simp
  moreover have "drop (Suc n) (drop m r) = drop (m + Suc n) r" for n m and r :: "u8 list"
    by (simp add: add.commute)
  moreover have "take (Suc 0) ((drop 10 rest)[0 := v]) = [v]" for v
    using \<open>length rest = 58\<close> by (cases "drop 10 rest") auto
  ultimately show ?thesis
    using \<open>length rest = 58\<close> unfolding out
    by (simp add: encode_telemetry_frame_def Let_def telemetry_wire_def list_update_append)
qed


section \<open>Properties\<close>

text \<open>The payloads of a sequence of frames, one \<open>publish\<close> after the other.\<close>

fun publish_all :: "'t beam_transport \<Rightarrow> 't flight_control_bridge \<Rightarrow> telemetry_frame list \<Rightarrow>
    ((beam_error + unit) list \<times> 't flight_control_bridge) outcome" where
  "publish_all T b [] = Ret ([], b)"
| "publish_all T b (f # fs) =
     outcome_bind (bridge_publish T b f) (\<lambda>(r, b).
     outcome_bind (publish_all T b fs) (\<lambda>(rs, b). Ret (r # rs, b)))"

text \<open>A transport that hands each payload on: the calls it sees.\<close>

fun send_all :: "'t beam_transport \<Rightarrow> 't \<Rightarrow> u8 list list \<Rightarrow> (beam_error + unit) list \<times> 't" where
  "send_all T tr [] = ([], tr)"
| "send_all T tr (p # ps) =
     (let (r, tr) = bt_send T tr p; (rs, tr) = send_all T tr ps in (r # rs, tr))"

lemma publish_all_eq:
  "length (fb_buf b) = MAX_FRAME_BYTES \<Longrightarrow>
   \<exists>buf. publish_all T b fs =
     Ret (fst (send_all T (fb_transport b) (map telemetry_wire fs)),
          b\<lparr>fb_transport := snd (send_all T (fb_transport b) (map telemetry_wire fs)), fb_buf := buf\<rparr>)
     \<and> length buf = MAX_FRAME_BYTES"
proof (induction fs arbitrary: b)
  case Nil
  then show ?case by (intro exI [of _ "fb_buf b"]) simp
next
  case (Cons f fs)
  obtain r tr where s: "bt_send T (fb_transport b) (telemetry_wire f) = (r, tr)" by force
  let ?b = "b\<lparr>fb_transport := tr, fb_buf := telemetry_wire f @ drop 19 (fb_buf b)\<rparr>"
  have p: "bridge_publish T b f = Ret (r, ?b)"
    using Cons.prems s by (simp add: bridge_publish_def encode_telemetry_frame_eq)
  have "length (fb_buf ?b) = MAX_FRAME_BYTES" using Cons.prems by (simp add: MAX_FRAME_BYTES_def)
  from Cons.IH [OF this] obtain buf where
    "publish_all T ?b fs = Ret (fst (send_all T tr (map telemetry_wire fs)),
       b\<lparr>fb_transport := snd (send_all T tr (map telemetry_wire fs)), fb_buf := buf\<rparr>)"
    "length buf = MAX_FRAME_BYTES" by auto
  with p s show ?case
    by (intro exI [of _ buf]) (simp add: Let_def split: prod.splits)
qed

text \<open>C30: The bridge streams frames faithfully over any transport: a new bridge given any sequence of
  frames never panics, hands the transport one payload per frame in order, and returns what the
  transport returns; a payload has 19 bytes, depends on its frame alone although the buffer is
  reused, and parses to exactly that frame.\<close>
theorem bridge_streams_frames:
  "\<exists>b. publish_all T (flight_control_bridge_new tr) fs =
      Ret (fst (send_all T tr (map telemetry_wire fs)), b) \<and>
    fb_transport b = snd (send_all T tr (map telemetry_wire fs)) \<and>
    map telemetry_parse (map telemetry_wire fs) = map Some fs \<and>
    list_all (\<lambda>p. length p = 19) (map telemetry_wire fs)"
  using publish_all_eq [of "flight_control_bridge_new tr" T fs]
  by (auto simp: flight_control_bridge_new_def telemetry_parse_wire list_all_iff)

end
