(* ===== verification/Can_Link.thy ===== *)
theory Can_Link
  imports Sim_Can
begin

text \<open>
  Two nodes on a simulated CAN network, as the examples under \<open>core/examples\<close> and the developer tool
  use them: a \<open>CanBus\<close> per node, frames built by the public constructors, \<open>expect\<close> on every result.
  \<open>core/examples/hello_ecu.rs\<close> and \<open>cmd_sim\<close> of \<open>cli/src/main.rs\<close> are modelled here as they are,
  less what they print.

  The buses of a network share its state, so an operation of one bus is a step of the network.
\<close>


section \<open>The buses of a network\<close>

definition node_bus :: "sim_can_network \<Rightarrow> nat \<Rightarrow> sim_can_node can_bus" where
  "node_bus n i = can_bus_new \<lparr>nd_network = n, nd_index = i\<rparr>"

definition node_transmit ::
  "sim_can_network \<Rightarrow> nat \<Rightarrow> can_frame \<Rightarrow> (bus_error + unit) \<times> sim_can_network" where
  "node_transmit n i f =
     (let (r, b) = can_bus_transmit sim_can_node_ops (node_bus n i) f in
      (r, nd_network (cb_transceiver b)))"

definition node_receive :: "sim_can_network \<Rightarrow> nat \<Rightarrow> (bus_error + can_frame) \<times> sim_can_network" where
  "node_receive n i =
     (let (r, b) = can_bus_receive sim_can_node_ops (node_bus n i) in
      (r, nd_network (cb_transceiver b)))"

definition node_can_receive :: "sim_can_network \<Rightarrow> nat \<Rightarrow> bool" where
  "node_can_receive n i = can_bus_can_receive sim_can_node_ops (node_bus n i)"

text \<open>A network of two nodes and no traffic: node 0 and node 1 in the order of their creation.\<close>

definition quiet_pair :: "sim_can_network \<Rightarrow> bool" where
  "quiet_pair n \<longleftrightarrow> scn_nodes n = [[], []] \<and> \<not> scn_bus_off n"

definition can_pair :: sim_can_network where
  "can_pair =
     (let n = sim_can_network_new; (tx, n) = sim_can_attach n; (rx, n) = sim_can_attach n in n)"

lemma can_pair_quiet: "quiet_pair can_pair"
  by (simp add: can_pair_def quiet_pair_def sim_can_network_new_def sim_can_attach_def Let_def)

text \<open>A frame built by the constructors crosses the network: the peer reads it and no traffic is left.\<close>

lemmas node_defs =
  node_transmit_def node_receive_def node_can_receive_def node_bus_def can_bus_new_def
  can_bus_transmit_def can_bus_receive_def can_bus_can_receive_def sim_can_defs

lemma quiet_transmit:
  assumes "quiet_pair n" "can_frame_ok f" "i < 2"
  shows "node_transmit n i f = (Inr (), n\<lparr>scn_nodes := [[], []] [1 - i := [f]]\<rparr>)"
  using assms can_frame_ok_validates [OF assms(2)]
  by (auto simp: quiet_pair_def node_defs Let_def broadcast_queues_def SIM_RX_QUEUE_LEN_def less_2_cases_iff)

lemma quiet_receive:
  assumes "quiet_pair n" "i < 2"
  shows "node_receive (n\<lparr>scn_nodes := [[], []] [i := [f]]\<rparr>) i = (Inr f, n)"
    and "node_can_receive (n\<lparr>scn_nodes := [[], []] [i := [f]]\<rparr>) i"
  using assms by (cases n; auto simp: quiet_pair_def node_defs Let_def less_2_cases_iff)+


section \<open>A frame from node to node\<close>

text \<open>\<open>CanFrame::new(id, data).expect(..)\<close>, then \<open>transmit(frame).expect(..)\<close>; and \<open>receive().expect(..)\<close>.\<close>

definition send_data :: "sim_can_network \<Rightarrow> nat \<Rightarrow> can_id \<Rightarrow> u8 list \<Rightarrow> sim_can_network outcome" where
  "send_data n i cid data =
     outcome_bind (can_frame_new cid data) (\<lambda>frame.
     outcome_bind (expect_some frame) (\<lambda>frame.
     let (r, n) = node_transmit n i frame in
     outcome_bind (expect_ok r) (\<lambda>_. Ret n)))"

definition take_frame :: "sim_can_network \<Rightarrow> nat \<Rightarrow> (can_frame \<times> sim_can_network) outcome" where
  "take_frame n i =
     (let (r, n) = node_receive n i in
      outcome_bind (expect_ok r) (\<lambda>rx. Ret (rx, n)))"

text \<open>On a quiet pair the frame reaches the peer, and the network is quiet again once it is read.\<close>

lemma quiet_hop:
  assumes "quiet_pair n" "i < 2" "can_id_ok cid" "length data \<le> CAN_MAX_DLC"
  obtains f n' where "send_data n i cid data = Ret n'" "node_can_receive n' (1 - i)"
    "take_frame n' (1 - i) = Ret (f, n)" "can_frame_data f = Ret data" "can_frame_id f = cid"
proof -
  obtain f where f: "can_frame_new cid data = Ret (Some f)"
    using assms(4) by (simp add: can_frame_new_small)
  have "1 - i < 2" by simp
  note r = quiet_receive [OF assms(1) this, of f]
  have "send_data n i cid data = Ret (n\<lparr>scn_nodes := [[], []] [1 - i := [f]]\<rparr>)"
    using f quiet_transmit [OF assms(1) can_frame_new_ok [OF f assms(3)] assms(2)]
    by (simp add: send_data_def)
  moreover have "take_frame (n\<lparr>scn_nodes := [[], []] [1 - i := [f]]\<rparr>) (1 - i) = Ret (f, n)"
    unfolding take_frame_def r(1) by simp
  ultimately show thesis
    using that r(2) can_frame_data_new [OF assms(4) f] by blast
qed

lemma send_data_too_long: "CAN_MAX_DLC < length data \<Longrightarrow> send_data n i cid data = Panic"
  by (simp add: send_data_def can_frame_new_large)


section \<open>The example \<open>hello_ecu\<close> and the command \<open>sim\<close>\<close>

definition hello_ecu :: "unit outcome" where
  "hello_ecu =
     outcome_bind (expect_some (can_id_standard 0x100)) (\<lambda>cid.
     outcome_bind (send_data can_pair 0 cid [0xDE, 0xAD, 0xBE, 0xEF]) (\<lambda>n.
     outcome_bind (assert_that (node_can_receive n 1)) (\<lambda>_.
     outcome_bind (take_frame n 1) (\<lambda>(rx, n).
     outcome_bind (can_frame_data rx) (\<lambda>data.
     outcome_bind (assert_that (data = [0xDE, 0xAD, 0xBE, 0xEF])) (\<lambda>_.
     outcome_bind (assert_that (can_id_raw (can_frame_id rx) = 0x100)) (\<lambda>_.
     assert_that (length data = min CAN_MAX_DLC 4))))))))"

text \<open>\<open>cmd_sim\<close> as the values it prints: the identifier sent, the one received and the data received.\<close>

definition cmd_sim :: "(u32 \<times> u32 \<times> u8 list) outcome" where
  "cmd_sim =
     outcome_bind (expect_some (can_id_standard 0x100)) (\<lambda>cid.
     outcome_bind (send_data can_pair 0 cid [0xDE, 0xAD, 0xBE, 0xEF]) (\<lambda>n.
     outcome_bind (take_frame n 1) (\<lambda>(rx, n).
     outcome_bind (can_frame_data rx) (\<lambda>data.
     Ret (can_id_raw cid, can_id_raw (can_frame_id rx), data)))))"

lemma standard_0x100: "can_id_standard 0x100 = Some \<lparr>cid_raw = 0x100, cid_extended = False\<rparr>"
  by (simp add: can_id_standard_def STANDARD_MAX_def)

text \<open>The example \<open>hello_ecu\<close> runs to its end without a failed assertion, and the command \<open>sim\<close>
  prints the identifier and the bytes it sent as the ones received.\<close>
theorem demo_pair_delivers:
  "hello_ecu = Ret () \<and> cmd_sim = Ret (0x100, 0x100, [0xDE, 0xAD, 0xBE, 0xEF])"
proof -
  let ?cid = "\<lparr>cid_raw = 0x100, cid_extended = False\<rparr>"
  have ok: "can_id_ok ?cid" using can_id_constructors_ok standard_0x100 by blast
  obtain f n' where "send_data can_pair 0 ?cid [0xDE, 0xAD, 0xBE, 0xEF] = Ret n'"
    "node_can_receive n' 1" "take_frame n' 1 = Ret (f, can_pair)"
    "can_frame_data f = Ret [0xDE, 0xAD, 0xBE, 0xEF]" "can_frame_id f = ?cid"
    by (rule quiet_hop [OF can_pair_quiet _ ok, of 0 "[0xDE, 0xAD, 0xBE, 0xEF]"])
      (simp_all add: CAN_MAX_DLC_def)
  then show ?thesis
    by (simp add: hello_ecu_def cmd_sim_def standard_0x100 can_id_raw_def CAN_MAX_DLC_def)
qed

end
