(* ===== verification/Diagnostics.thy ===== *)
theory Diagnostics
  imports Can_Link Uds
begin

text \<open>
  A UDS server behind a CAN bus: the closure \<open>send_request\<close> and the \<open>main\<close> of
  \<open>core/examples/uds_diagnostics.rs\<close>, and the request loop of \<open>cmd_diag\<close> in \<open>cli/src/main.rs\<close>. A tester
  (node 0) sends a request of one frame under 0x7E0, the ECU (node 1) hands it to the server with a
  response buffer of eight bytes and sends the answer back under 0x7E8.
\<close>


section \<open>One request\<close>

text \<open>The part both programs share, after the request frame is on the bus.\<close>

definition serve_request :: "'d uds_data_provider \<Rightarrow> sim_can_network \<Rightarrow> 'd uds_server \<Rightarrow> can_id \<Rightarrow>
    (u8 list \<times> nat \<times> sim_can_network \<times> 'd uds_server) outcome" where
  "serve_request D n s resp_id =
     outcome_bind (take_frame n 1) (\<lambda>(rx, n).
     outcome_bind (can_frame_data rx) (\<lambda>data.
     outcome_bind (uds_handle D s data (replicate 8 0)) (\<lambda>(r, resp, s).
     outcome_bind (expect_some r) (\<lambda>k.
     outcome_bind (slice_to resp k) (\<lambda>out.
     outcome_bind (send_data n 1 resp_id out) (\<lambda>n.
     outcome_bind (take_frame n 0) (\<lambda>(got, n).
     outcome_bind (can_frame_data got) (\<lambda>data.
     Ret (data, k, n, s)))))))))"

definition send_request :: "'d uds_data_provider \<Rightarrow> sim_can_network \<Rightarrow> 'd uds_server \<Rightarrow> u8 list \<Rightarrow>
    (u8 list \<times> sim_can_network \<times> 'd uds_server) outcome" where
  "send_request D n s req =
     outcome_bind (expect_some (can_id_standard 0x7E0)) (\<lambda>ecu_id.
     outcome_bind (expect_some (can_id_standard 0x7E8)) (\<lambda>resp_id.
     outcome_bind (send_data n 0 ecu_id req) (\<lambda>n.
     outcome_bind (assert_that (node_can_receive n 1)) (\<lambda>_.
     outcome_bind (serve_request D n s resp_id) (\<lambda>(data, k, n, s).
     Ret (data, n, s))))))"

text \<open>The loop of \<open>cmd_diag\<close>, with the responses it prints.\<close>

fun diag_requests :: "'d uds_data_provider \<Rightarrow> sim_can_network \<Rightarrow> 'd uds_server \<Rightarrow> u8 list list \<Rightarrow>
    u8 list list outcome" where
  "diag_requests D n s [] = Ret []"
| "diag_requests D n s (req # reqs) =
     outcome_bind (expect_some (can_id_standard 0x7E0)) (\<lambda>ecu_id.
     outcome_bind (expect_some (can_id_standard 0x7E8)) (\<lambda>resp_id.
     outcome_bind (send_data n 0 ecu_id req) (\<lambda>n.
     outcome_bind (serve_request D n s resp_id) (\<lambda>(data, k, n, s).
     outcome_bind (slice_to data k) (\<lambda>shown.
     outcome_bind (diag_requests D n s reqs) (\<lambda>rest.
     Ret (shown # rest)))))))"


section \<open>The dialogue on the wire\<close>

text \<open>What the tester gets: the answer of the server if there is one and it fits a frame.\<close>

fun wire_reply :: "uds_answer \<times> 'd uds_server \<Rightarrow> (u8 list \<times> 'd uds_server) outcome" where
  "wire_reply (Silent, s) = Panic"
| "wire_reply (Aborted, s) = Panic"
| "wire_reply (Negative sid nrc, s) = Ret ([0x7F, sid, uds_nrc_to_u8 nrc], s)"
| "wire_reply (Positive bs, s) = (if CAN_MAX_DLC < length bs then Panic else Ret (bs, s))"

lemma diag_ids:
  "can_id_standard 0x7E0 = Some \<lparr>cid_raw = 0x7E0, cid_extended = False\<rparr>"
  "can_id_standard 0x7E8 = Some \<lparr>cid_raw = 0x7E8, cid_extended = False\<rparr>"
  by (simp_all add: can_id_standard_def STANDARD_MAX_def)

lemma standard_ok: "can_id_standard i = Some c \<Longrightarrow> can_id_ok c"
  by (rule can_id_constructors_ok)

lemma send_back:
  assumes "quiet_pair n" "can_id_standard i = Some cid" "length out \<le> CAN_MAX_DLC"
  shows "outcome_bind (send_data n 1 cid out) (\<lambda>n.
     outcome_bind (take_frame n 0) (\<lambda>(got, n).
     outcome_bind (can_frame_data got) (\<lambda>data. Ret (data, k, n, s)))) = Ret (out, k, n, s)"
  by (rule quiet_hop [OF assms(1) _ standard_ok [OF assms(2)] assms(3), of 1]) simp_all

context uds_provider
begin

lemma serve_request_eq:
  assumes "provider_ok (us_data s)" "quiet_pair n" "can_id_standard i = Some resp_id"
    and "take_frame n' 1 = Ret (f, n)" "can_frame_data f = Ret req"
  shows "serve_request D n' s resp_id =
    outcome_bind (wire_reply (uds_answer D val s req)) (\<lambda>(data, s'). Ret (data, length data, n, s'))"
proof (cases "uds_answer D val s req")
  case (Pair a s')
  note h = handle_eq [OF assms(1), of req "replicate 8 0"] Pair assms(4,5)
  note b = send_back [OF assms(2,3)]
  show ?thesis
  proof (cases a)
    case (Positive bs)
    then show ?thesis
      by (cases "length bs \<le> 8") (simp_all add: serve_request_def h b CAN_MAX_DLC_def del: One_nat_def)
  next
    case (Negative sid nrc)
    then show ?thesis
      using b [of "[0x7F, sid, uds_nrc_to_u8 nrc]"]
      by (simp add: serve_request_def h CAN_MAX_DLC_def numeral_3_eq_3 del: One_nat_def)
  qed (simp_all add: serve_request_def h del: One_nat_def)
qed

lemma send_request_eq:
  assumes "provider_ok (us_data s)" "quiet_pair n" "length req \<le> CAN_MAX_DLC"
  shows "send_request D n s req =
    outcome_bind (wire_reply (uds_answer D val s req)) (\<lambda>(data, s'). Ret (data, n, s'))"
proof -
  obtain f n' where "send_data n 0 \<lparr>cid_raw = 0x7E0, cid_extended = False\<rparr> req = Ret n'"
    "node_can_receive n' 1" "take_frame n' 1 = Ret (f, n)" "can_frame_data f = Ret req"
    by (rule quiet_hop [OF assms(2) _ standard_ok [OF diag_ids(1)] assms(3), of 0]) simp_all
  then show ?thesis
    using serve_request_eq [OF assms(1,2) diag_ids(2)]
    by (cases "wire_reply (uds_answer D val s req)") (auto simp: send_request_def diag_ids simp del: One_nat_def)
qed

lemma answer_provider_ok:
  assumes "provider_ok (us_data s)"
  shows "provider_ok (us_data (snd (uds_answer D val s req)))"
proof (cases req)
  case Nil
  then show ?thesis using assms by (simp add: uds_answer_def)
next
  case (Cons sid params)
  have "provider_ok (us_data (snd (write_did_answer D s params)))"
    using assms
    by (auto simp: write_did_answer_def split: list.splits prod.splits outcome.splits
        dest: write_provider_ok)
  then show ?thesis
    using assms effect_arms(1) [of s params] effect_arms(2) [of s params]
    by (auto simp: Cons uds_answer_def effect_arms(3,4,5) split: option.splits uds_service.splits)
qed

end


section \<open>A dialogue\<close>

text \<open>The replies to a list of requests, without the bus: each request meets the server the ones
  before it left.\<close>

fun dialogue :: "'d uds_data_provider \<Rightarrow> ('d \<Rightarrow> u16 \<Rightarrow> u8 list) \<Rightarrow> 'd uds_server \<Rightarrow> u8 list list \<Rightarrow>
    u8 list list outcome" where
  "dialogue D val s [] = Ret []"
| "dialogue D val s (req # reqs) =
     outcome_bind (wire_reply (uds_answer D val s req)) (\<lambda>(data, s').
     outcome_bind (dialogue D val s' reqs) (\<lambda>rest. Ret (data # rest)))"

lemma wire_reply_state: "wire_reply (a, s1) = Ret (data, s') \<Longrightarrow> s' = s1"
  by (cases a) (auto split: if_splits)

context uds_provider
begin

lemma diag_requests_eq:
  assumes "provider_ok (us_data s)" "quiet_pair n" "\<forall>req \<in> set reqs. length req \<le> CAN_MAX_DLC"
  shows "diag_requests D n s reqs = dialogue D val s reqs"
  using assms(1,3)
proof (induction reqs arbitrary: s)
  case (Cons req reqs)
  obtain f n' where n': "send_data n 0 \<lparr>cid_raw = 0x7E0, cid_extended = False\<rparr> req = Ret n'"
    "take_frame n' 1 = Ret (f, n)" "can_frame_data f = Ret req"
    using Cons.prems(2)
    by (auto intro: quiet_hop [OF assms(2) _ standard_ok [OF diag_ids(1)], of 0 req])
  note serve = serve_request_eq [OF Cons.prems(1) assms(2) diag_ids(2) n'(2,3)]
  show ?case
  proof (cases "wire_reply (uds_answer D val s req)")
    case Panic
    then show ?thesis by (simp add: diag_ids n'(1) serve)
  next
    case (Ret p)
    obtain data s' where p: "p = (data, s')" by (cases p)
    have "s' = snd (uds_answer D val s req)"
      using Ret p wire_reply_state by (metis prod.collapse)
    then have "provider_ok (us_data s')" using answer_provider_ok [OF Cons.prems(1)] by simp
    then show ?thesis using Cons by (simp add: diag_ids n'(1) serve Ret p)
  qed
qed simp

end


section \<open>The example\<close>

definition uds_diagnostics :: "unit outcome" where
  "uds_diagnostics =
     (let ask = send_request mock_provider;
          has = (\<lambda>r i j want. outcome_bind (subslice r i j) (\<lambda>part. assert_that (part = want)))
      in
        outcome_bind (ask can_pair (uds_server_new mock_data_new)
          [uds_service_to_u8 DiagnosticSessionControl, 0x03]) (\<lambda>(r, n, s).
        outcome_bind (has r 0 4 [0x50, 0x03, 0x00, 0x32]) (\<lambda>_.
        outcome_bind (assert_that (us_session s = ExtendedSession)) (\<lambda>_.
        outcome_bind (ask n s [uds_service_to_u8 ReadDataByIdentifier, 0x00, 0x01]) (\<lambda>(r, n, s).
        outcome_bind (has r 0 3 [0x62, 0x00, 0x01]) (\<lambda>_.
        outcome_bind (ask n s [uds_service_to_u8 ReadDataByIdentifier, 0xF1, 0x90]) (\<lambda>(r, n, s).
        outcome_bind (assert_that (r = [0x7F, uds_service_to_u8 ReadDataByIdentifier,
          uds_nrc_to_u8 SecurityAccessDenied])) (\<lambda>_.
        outcome_bind (ask n s [uds_service_to_u8 SecurityAccess, 0x01]) (\<lambda>(r, n, s).
        outcome_bind (ask n s [uds_service_to_u8 SecurityAccess, 0x02, 0x55]) (\<lambda>(r, n, s).
        outcome_bind (has r 0 2 [0x67, 0x02]) (\<lambda>_.
        outcome_bind (ask n s [uds_service_to_u8 WriteDataByIdentifier, 0x00, 0x01, 0xAB, 0xCD]) (\<lambda>(r, n, s).
        outcome_bind (ask n s [uds_service_to_u8 ReadDataByIdentifier, 0x00, 0x01]) (\<lambda>(r, n, s).
        outcome_bind (has r 3 (length r) [0xAB, 0xCD]) (\<lambda>_.
        outcome_bind (ask n s [uds_service_to_u8 TesterPresent, 0x00]) (\<lambda>(r, n, s).
        has r 0 2 [0x7E, 0x00])))))))))))))))"

lemma demo_dids: "from_be16 0 1 = 1" "from_be16 0xF1 0x90 = 0xF190" "\<not> did_reserved 1" "did_reserved 0xF190"
  by (simp_all add: from_be16_def did_reserved_def word_le_nat_alt)

lemma two_zeros: "replicate 2 0 = [0, 0]"
  by (simp add: numeral_2_eq_2)

lemma mock_fields:
  "dp_did_read_len mock_provider = mock_did_read_len" "dp_did_write mock_provider = mock_did_write"
  by (simp_all add: mock_provider_def)


section \<open>Properties\<close>

text \<open>C10: Diagnostics over CAN. On a quiet two-node network, and for every provider that keeps its
  contract, a request of at most eight bytes comes back as the answer of the server, the network is
  quiet again and the server has moved on; a request with no answer, with a positive one of more
  than eight bytes, or on which the provider panics, panics. A list of requests is answered one after the other, each by the server
  the ones before it left.\<close>
theorem uds_over_can:
  assumes "uds_provider D val provider_ok" "provider_ok (us_data s)" "quiet_pair n"
    and "\<forall>req \<in> set reqs. length req \<le> CAN_MAX_DLC" "length req \<le> CAN_MAX_DLC"
  shows "diag_requests D n s reqs = dialogue D val s reqs \<and>
    send_request D n s req =
      outcome_bind (wire_reply (uds_answer D val s req)) (\<lambda>(data, s'). Ret (data, n, s'))"
  using uds_provider.diag_requests_eq [OF assms(1-4)] uds_provider.send_request_eq [OF assms(1,2,3,5)]
  by blast

lemma uds_over_can_witness:
  "diag_requests mock_provider can_pair (uds_server_new mock_data_new) [[0x10, 3], [0x22, 0, 1], [0x3E, 0]] =
     Ret [[0x50, 3, 0, 0x32], [0x62, 0, 1, 0, 0], [0x7E, 0]] \<and>
   send_request mock_provider can_pair (uds_server_new mock_data_new) [0x10, 2] = Panic"
proof -
  have d: "length (md_store (us_data (uds_server_new mock_data_new))) = 32"
    by (simp add: uds_server_new_def mock_data_new_def)
  note h = uds_over_can [OF mock.uds_provider_axioms d can_pair_quiet, of
      "[[0x10, 3], [0x22, 0, 1], [0x3E, 0]]" "[0x10, 2]"]
  show ?thesis
    using h
    by (simp add: CAN_MAX_DLC_def uds_answer_def uds_service_from_u8_def uds_server_new_def mock_data_new_def
        mock_fields mock_did_read_len_def tester_present_answer_def demo_dids two_zeros
        del: diag_requests.simps)
qed

text \<open>The diagnostics example runs to its end: no request panics and every assertion holds.\<close>
theorem uds_diagnostics_runs: "uds_diagnostics = Ret ()"
  by (simp add: uds_diagnostics_def Let_def mock.send_request_eq can_pair_quiet CAN_MAX_DLC_def
      uds_server_new_def mock_data_new_def uds_answer_def uds_service_from_u8_def demo_dids
      mock_fields mock_did_read_len_def mock_write write_did_answer_def
      tester_present_answer_def)

end
