(* ===== verification/Lane_Keep_Demo.thy ===== *)
theory Lane_Keep_Demo
  imports Can_Link Safety
begin

text \<open>
  \<open>core/examples/autonomy_lane_keep.rs\<close> and \<open>core/examples/custom_stack.rs\<close>: a sensor node publishes a
  lane offset on the simulated CAN network, the ECU decodes it and feeds a lane keeper behind an
  interlock, first disarmed, then armed; and the hand-written stack of the second example. What they
  print is left out.
\<close>


section \<open>An offset on the wire\<close>

text \<open>\<open>i32::from_le_bytes(data.try_into().unwrap())\<close> panics unless there are four bytes.\<close>

fun i32_from_le :: "u8 list \<Rightarrow> i32 outcome" where
  "i32_from_le [a, b, c, d] = Ret (from_be32 d c b a)"
| "i32_from_le _ = Panic"

definition sense_offset :: "sim_can_network \<Rightarrow> i32 \<Rightarrow> (i32 \<times> sim_can_network) outcome" where
  "sense_offset n offset =
     outcome_bind (expect_some (can_id_standard 0x200)) (\<lambda>camera_id.
     outcome_bind (send_data n 0 camera_id (le_bytes32 offset)) (\<lambda>n.
     outcome_bind (assert_that (node_can_receive n 1)) (\<lambda>_.
     outcome_bind (take_frame n 1) (\<lambda>(rx, n).
     outcome_bind (can_frame_data rx) (\<lambda>data.
     outcome_bind (i32_from_le data) (\<lambda>reported.
     Ret (reported, n)))))))"

lemma i32_from_le_bytes: "i32_from_le (le_bytes32 w) = Ret w"
  by (simp add: le_bytes32_def be_bytes32_def wire_simps)

lemma sense_offset_eq:
  assumes "quiet_pair n"
  shows "sense_offset n offset = Ret (offset, n)"
proof -
  have cid: "can_id_standard 0x200 = Some \<lparr>cid_raw = 0x200, cid_extended = False\<rparr>"
    by (simp add: can_id_standard_def STANDARD_MAX_def)
  obtain f n' where "send_data n 0 \<lparr>cid_raw = 0x200, cid_extended = False\<rparr> (le_bytes32 offset) = Ret n'"
    "node_can_receive n' 1" "take_frame n' 1 = Ret (f, n)" "can_frame_data f = Ret (le_bytes32 offset)"
    by (rule quiet_hop [OF assms _ can_id_constructors_ok(1) [OF cid], of 0 "le_bytes32 offset"])
      (simp_all add: CAN_MAX_DLC_def)
  then show ?thesis by (simp add: sense_offset_def cid i32_from_le_bytes)
qed


section \<open>The gated loop\<close>

text \<open>The \<open>main\<close> of the first example over a gain, a cruise speed, an offset and a vehicle state: the
  command asked for while disarmed and the one after arming.\<close>

definition lane_keep_run :: "target \<Rightarrow> i16 \<Rightarrow> u32 \<Rightarrow> i32 \<Rightarrow> vehicle_state \<Rightarrow>
    (control_command option \<times> control_command option) outcome" where
  "lane_keep_run t gain cruise offset vs =
     (let A = lane_keeping t; i = interlock_new (lane_keeping_new gain cruise) in
      outcome_bind (assert_that (ilk_state i = Disarmed)) (\<lambda>_.
      outcome_bind (sense_offset can_pair offset) (\<lambda>(reported, n).
      let (r, i) = interlock_ingest A i
        \<lparr>sample_kind = Camera, sample_timestamp = 1, sample_value = reported\<rparr> in
      outcome_bind (expect_ok r) (\<lambda>_.
      outcome_bind (interlock_next_command A i vs) (\<lambda>(r, i).
      outcome_bind (expect_ok r) (\<lambda>suppressed.
      outcome_bind (interlock_arm i) (\<lambda>i.
      outcome_bind (assert_that (ilk_state i = Armed)) (\<lambda>_.
      outcome_bind (interlock_next_command A i vs) (\<lambda>(r, i).
      outcome_bind (expect_ok r) (\<lambda>cmd.
      Ret (suppressed, cmd)))))))))))"

definition autonomy_lane_keep :: "target \<Rightarrow> unit outcome" where
  "autonomy_lane_keep t =
     outcome_bind (lane_keep_run t 10 1000 20 \<lparr>speed_cmps = 0, vs_timestamp = 1\<rparr>) (\<lambda>(suppressed, cmd).
     outcome_bind (assert_that (suppressed = None)) (\<lambda>_.
     outcome_bind (expect_some cmd) (\<lambda>cmd.
     assert_that (steer_deci_deg cmd = 200))))"

text \<open>The \<open>main\<close> of the second example.\<close>

definition custom_stack :: "target \<Rightarrow> unit outcome" where
  "custom_stack t =
     outcome_bind (assert_that (\<not> dm_has_control demo_stack_new)) (\<lambda>_.
     let (r, s) = dm_ingest demo_stack_new
       \<lparr>sample_kind = Camera, sample_timestamp = 1, sample_value = 15\<rparr> in
     outcome_bind (expect_ok r) (\<lambda>_.
     outcome_bind (dm_next_command t s \<lparr>speed_cmps = 0, vs_timestamp = 1\<rparr>) (\<lambda>(r, s).
     outcome_bind (expect_ok r) (\<lambda>cmd.
     outcome_bind (expect_some cmd) (\<lambda>cmd.
     assert_that (steer_deci_deg cmd = 150))))))"

lemma arm_new_Ret:
  obtains ev where "interlock_arm (interlock_new s) = Ret (interlock_new s\<lparr>ilk_state := Armed, ilk_events := ev\<rparr>)"
  using ring_push_ok [OF ring_new_ok, of 8 "\<lparr>tr_timestamp = 0, tr_code = TELEMETRY_ARM, tr_value = 1\<rparr>"]
  by (auto simp: interlock_arm_def interlock_new_def)

lemma demo_fields:
  "ilk_state (interlock_new s) = Disarmed" "ilk_stack (interlock_new s) = s"
  "as_next_command (lane_keeping t) = lk_next_command t"
  by (simp_all add: interlock_new_def lane_keeping_def)

lemma lane_keep_run_eq:
  "lane_keep_run t gain cruise offset vs =
    outcome_bind (lk_next_command t (snd (lk_ingest (lane_keeping_new gain cruise)
      \<lparr>sample_kind = Camera, sample_timestamp = 1, sample_value = offset\<rparr>)) vs) (\<lambda>(r, s).
    outcome_bind (expect_ok r) (\<lambda>cmd. Ret (None, cmd)))"
proof -
  let ?s = "snd (lk_ingest (lane_keeping_new gain cruise)
      \<lparr>sample_kind = Camera, sample_timestamp = 1, sample_value = offset\<rparr>)"
  have i: "interlock_ingest (lane_keeping t) (interlock_new (lane_keeping_new gain cruise))
      \<lparr>sample_kind = Camera, sample_timestamp = 1, sample_value = offset\<rparr> = (Inr (), interlock_new ?s)"
    by (simp add: interlock_ingest_def lane_keeping_def lk_ingest_def interlock_new_def)
  obtain ev where "interlock_arm (interlock_new ?s) = Ret (interlock_new ?s\<lparr>ilk_state := Armed, ilk_events := ev\<rparr>)"
    by (rule arm_new_Ret)
  then show ?thesis
    by (cases "lk_next_command t ?s vs")
      (auto simp: lane_keep_run_def sense_offset_eq [OF can_pair_quiet] i interlock_next_command_def
        demo_fields Let_def)
qed


section \<open>Properties\<close>

text \<open>C33: The whole loop of the example, for every gain, cruise speed, offset, vehicle state and build:
  the offset the sensor node sends is the one the stack sees; before arming no command comes out,
  after arming the command of the lane keeper for that offset does. The two examples run to their
  end: no result is missing and every assertion holds.\<close>
theorem lane_keep_over_can:
  "lane_keep_run t gain cruise offset vs =
    outcome_bind (lk_next_command t (snd (lk_ingest (lane_keeping_new gain cruise)
      \<lparr>sample_kind = Camera, sample_timestamp = 1, sample_value = offset\<rparr>)) vs) (\<lambda>(r, s).
    outcome_bind (expect_ok r) (\<lambda>cmd. Ret (None, cmd))) \<and>
   autonomy_lane_keep t = Ret () \<and> custom_stack t = Ret ()"
proof (intro conjI)
  let ?s = "snd (lk_ingest (lane_keeping_new 10 1000)
      \<lparr>sample_kind = Camera, sample_timestamp = 1, sample_value = 20\<rparr>)"
  have "\<exists>w. lk_throttle t ?s 0 = Ret w"
    using lk_throttle_eq [of ?s 0 t] by (auto simp: lk_ingest_def lane_keeping_new_def)
  then obtain w where w: "lk_throttle t ?s 0 = Ret w" by blast
  have "clamp_steer (i16_saturating_mul 20 10) = 200" "clamp_steer 200 = 200" "clamp_steer 150 = 150"
    by code_simp+
  note steer = this
  from w steer show "autonomy_lane_keep t = Ret ()"
    by (simp add: autonomy_lane_keep_def lane_keep_run_eq lk_next_command_def lk_ingest_def
        lane_keeping_new_def control_command_new_def Let_def)
  show "custom_stack t = Ret ()"
    by (simp add: steer custom_stack_def control_command_new_def Let_def i16_mul_def demo_stack_new_def dm_has_control_def dm_ingest_def dm_next_command_def)
qed (rule lane_keep_run_eq)

end
