(* ===== verification/Ota_Demo.thy ===== *)
theory Ota_Demo
  imports Ota
begin

text \<open>
  The \<open>main\<close> of \<open>core/examples/ota_update.rs\<close>: an update staged, promoted and committed, a forged
  signature, and a restart after a power loss with the candidate pending. What it prints is left out.
\<close>

definition ota_update_demo :: "target \<Rightarrow> nat \<Rightarrow> unit outcome" where
  "ota_update_demo t n =
     (let S = mem_ops t; V = demo_scheme n; signer = demo_signer_new 0xCAFE;
          payload = replicate 16 0xAB; payload3 = replicate 16 0x12 in
      outcome_bind (make_package n signer 1 payload) (\<lambda>(sig, pkg).
      outcome_bind (ota_stage S V (ota_engine_new mem_storage_new signer) pkg payload sig) (\<lambda>(r, e).
      outcome_bind (expect_ok r) (\<lambda>_.
      outcome_bind (ota_promote t S e) (\<lambda>(r, e).
      outcome_bind (expect_ok r) (\<lambda>_.
      outcome_bind (ota_commit S e) (\<lambda>(r, e).
      outcome_bind (expect_ok r) (\<lambda>active.
      outcome_bind (assert_that (active = 1)) (\<lambda>_.
      outcome_bind (store_at (replicate n 0) 0 0xFF) (\<lambda>bad_sig.
      outcome_bind (ota_stage S V (ota_engine_new (oe_storage e) signer) pkg payload bad_sig) (\<lambda>(r, e).
      outcome_bind (assert_that (r = Inl BadSignature)) (\<lambda>_.
      outcome_bind (make_package n signer 1 payload3) (\<lambda>(sig3, pkg3).
      outcome_bind (ota_stage S V (ota_engine_new mem_storage_new signer) pkg3 payload3 sig3) (\<lambda>(r, e3).
      outcome_bind (expect_ok r) (\<lambda>_.
      outcome_bind (ota_recover t S (ota_engine_new (oe_storage e3) signer)) (\<lambda>(r, e).
      outcome_bind (expect_ok r) (\<lambda>active.
      assert_that (active = 1))))))))))))))))))"

text \<open>Staging a package the packager made, on a storage as it is delivered.\<close>

lemma demo_stage:
  assumes "length payload \<le> SLOT_CAP" "32 \<le> usize_bits t" "slots_ok SLOT_CAP (ms_slots s)"
  obtains sig slots where
    "make_package n v 1 payload = Ret (sig, \<lparr>up_slot = 1, up_payload_len = of_nat (length payload)\<rparr>)"
    "ota_stage (mem_ops t) (demo_scheme n) (ota_engine_new s v)
        \<lparr>up_slot = 1, up_payload_len = of_nat (length payload)\<rparr> payload sig =
      Ret (Inr (), \<lparr>oe_storage = s\<lparr>ms_slots := slots, ms_state := Pending 1\<rparr>, oe_signer = v\<rparr>)"
proof -
  have "length payload \<le> OTA_MAX_PAYLOAD" using assms(1) by (simp add: SLOT_CAP_def OTA_MAX_PAYLOAD_def)
  from make_package_eq [OF this, of n v 1] obtain sig where
    m: "make_package n v 1 payload = Ret (sig, \<lparr>up_slot = 1, up_payload_len = of_nat (length payload)\<rparr>)"
    by (simp add: Let_def)
  from mem_stage [of t "demo_scheme n" s v _ payload sig] make_package_verified [OF assms(1) m, of t s]
    assms(2,3) m that show thesis
    by (fastforce simp: ota_engine_new_def)
qed

text \<open>The forged signature of the example is not the real one: the first byte differs.\<close>

lemma demo_hash_Cons:
  "demo_hash (Suc n) v data =
     (let s = foldl (\<lambda>h b. (h XOR ucast b) * 0x01000193) (0x811C9DC5 XOR ds_key v) data in
      ucast (s AND 0xFF) # demo_spread n (word_rotl 8 s XOR (drop_bit 24 s * 0x9E3779B9)))"
  by (simp add: demo_hash_def Let_def)

lemma demo_first_byte:
  "hd (demo_hash 1 (demo_signer_new 0xCAFE)
     (package_message \<lparr>up_slot = 1, up_payload_len = 16\<rparr> (replicate 16 0xAB))) \<noteq> 0xFF"
  by code_simp

lemma forged_rejected:
  assumes "p = \<lparr>up_slot = 1, up_payload_len = of_nat (length (replicate 16 (0xAB :: u8)))\<rparr>"
    and "length (replicate 16 (0xAB :: u8)) \<le> os_slot_capacity S s"
  shows "ota_stage S (demo_scheme (Suc m)) (ota_engine_new s (demo_signer_new 0xCAFE)) p (replicate 16 0xAB)
      (0xFF # sig) =
    Ret (Inl BadSignature, ota_engine_new s (demo_signer_new 0xCAFE))"
proof -
  have "demo_hash (Suc m) (demo_signer_new 0xCAFE) (package_message p (replicate 16 0xAB)) \<noteq> 0xFF # sig"
    using demo_first_byte demo_hash_Cons [of 0] demo_hash_Cons [of m] assms(1)
    by (auto simp: Let_def)
  then show ?thesis
    using assms by (simp add: ota_stage_eq demo_scheme_def demo_verify_def ota_engine_new_def OTA_MAX_PAYLOAD_def)
qed

text \<open>The update example runs to its end with either signature length: staging, promotion and
  commit return values, the active slot is 1, the forged signature is rejected as such, and after the
  power loss the restart reports the pending slot as active.\<close>
theorem ota_update_demo_runs:
  assumes "32 \<le> usize_bits t"
  shows "ota_update_demo t (OTA_SIGNATURE_LEN crypto) = Ret ()"
proof -
  obtain m where n: "OTA_SIGNATURE_LEN crypto = Suc m"
    by (cases "OTA_SIGNATURE_LEN crypto") (auto simp: OTA_SIGNATURE_LEN_def split: if_splits)
  let ?v = "demo_signer_new 0xCAFE" and ?p = "\<lparr>up_slot = 1, up_payload_len = 16\<rparr>"
  have p: "of_nat (length (replicate 16 (b :: u8))) = (16 :: u32)" for b by simp
  have len: "length (replicate 16 (b :: u8)) \<le> SLOT_CAP" for b by (simp add: SLOT_CAP_def)
  obtain sig slots where m1: "make_package (Suc m) ?v 1 (replicate 16 0xAB) = Ret (sig, ?p)"
    and s1: "ota_stage (mem_ops t) (demo_scheme (Suc m)) (ota_engine_new mem_storage_new ?v) ?p
      (replicate 16 0xAB) sig = Ret (Inr (),
        \<lparr>oe_storage = mem_storage_new\<lparr>ms_slots := slots, ms_state := Pending 1\<rparr>, oe_signer = ?v\<rparr>)"
    using demo_stage [OF len assms mem_new_ok, of "Suc m" ?v] unfolding p by metis
  obtain sig3 slots3 where m3: "make_package (Suc m) ?v 1 (replicate 16 0x12) = Ret (sig3, ?p)"
    and s3: "ota_stage (mem_ops t) (demo_scheme (Suc m)) (ota_engine_new mem_storage_new ?v) ?p
      (replicate 16 0x12) sig3 = Ret (Inr (),
        \<lparr>oe_storage = mem_storage_new\<lparr>ms_slots := slots3, ms_state := Pending 1\<rparr>, oe_signer = ?v\<rparr>)"
    using demo_stage [OF len assms mem_new_ok, of "Suc m" ?v] unfolding p by metis
  have f: "ota_stage (mem_ops t) (demo_scheme (Suc m)) (ota_engine_new s ?v) ?p (replicate 16 0xAB)
      (0xFF # bad) = Ret (Inl BadSignature, ota_engine_new s ?v)" for s bad
    using forged_rejected [of ?p "mem_ops t" s m bad]
    by (simp add: mem_ops_def mem_slot_capacity_def SLOT_CAP_def)
  show ?thesis
    unfolding ota_update_demo_def n Let_def
    by (simp add: m1 s1 m3 s3 f mem_journal_ops mem_commit)
      (simp add: ota_engine_new_def mem_recover)
qed

lemma ota_update_demo_runs_witness: "ota_update_demo mcu_debug (OTA_SIGNATURE_LEN True) = Ret ()"
  by (rule ota_update_demo_runs) (simp add: mcu_debug_def)

end
