(* ===== verification/Cli.thy ===== *)
theory Cli
  imports Ota Autosar Std_Files
begin

text \<open>
  The developer tool \<open>cli/src/main.rs\<close>: the packages \<open>ota sign\<close> and \<open>ota stage\<close> assemble, and the Rust
  source \<open>signals\<close> generates, as functions of bytes; \<open>Cli_Main\<close> adds the files and the output. An entry of
  the signal table is the values its keys have after \<open>as_str\<close> and \<open>as_integer\<close>.
\<close>


section \<open>Text\<close>

text \<open>\<open>hex\<close>: every byte in the format \<open>{:02X}\<close>.\<close>

fun hex :: "u8 list \<Rightarrow> string" where
  "hex [] = []"
| "hex (b # bs) = [hex_digit (unat b div 16), hex_digit (unat b mod 16)] @ hex bs"

text \<open>Reading hexadecimal text back.\<close>

definition digit_value :: "char \<Rightarrow> nat option" where
  "digit_value c = List.find (\<lambda>n. hex_digit n = c) [0..<16]"

fun unhex :: "string \<Rightarrow> u8 list option" where
  "unhex [] = Some []"
| "unhex [c] = None"
| "unhex (c # d # cs) =
     (case (digit_value c, digit_value d, unhex cs) of
        (Some h, Some l, Some bs) \<Rightarrow> Some (of_nat (16 * h + l) # bs)
      | _ \<Rightarrow> None)"

lemma digit_table: "list_all (\<lambda>n. digit_value (hex_digit n) = Some n) [0..<16]"
  by code_simp

lemma digit_value_hex_digit: "n < 16 \<Longrightarrow> digit_value (hex_digit n) = Some n"
  using digit_table by (simp add: list_all_iff)

lemma unhex_hex: "unhex (hex bs) = Some bs"
proof (induction bs)
  case (Cons b bs)
  have "unat b < 2 ^ LENGTH(8)" by (rule unsigned_less)
  then have "unat b div 16 < 16" by simp
  moreover have "of_nat (16 * (unat b div 16) + unat b mod 16) = b" by simp
  ultimately show ?case using Cons by (simp add: digit_value_hex_digit)
qed simp

lemma length_hex [simp]: "length (hex bs) = 2 * length bs"
  by (induction bs) simp_all


section \<open>Packages\<close>

text \<open>What \<open>cmd_ota_sign\<close> and \<open>cmd_ota_stage\<close> compute before they part: package, header, signature.
  The length of the file is truncated to 32 bits.\<close>

definition cli_package :: "nat \<Rightarrow> u8 list \<Rightarrow> u32 \<Rightarrow> u8 \<Rightarrow> (update_package \<times> u8 list \<times> u8 list) outcome" where
  "cli_package n bytes key slot =
     (let signer = demo_signer_new key;
          pkg = \<lparr>up_slot = slot, up_payload_len = of_nat (length bytes)\<rparr> in
      outcome_bind (encode_package_header pkg (replicate HEADER_LEN 0)) (\<lambda>header.
      let signed = header @ bytes;
          sig = demo_sign n signer signed (replicate n 0) in
      Ret (pkg, header, sig)))"

text \<open>The line \<open>ota sign\<close> prints, as its three fields, and the file \<open>ota stage\<close> writes.\<close>

definition cmd_ota_sign :: "nat \<Rightarrow> u8 list \<Rightarrow> u32 \<Rightarrow> u8 \<Rightarrow> (u8 \<times> nat \<times> string) outcome" where
  "cmd_ota_sign n bytes key slot =
     outcome_bind (cli_package n bytes key slot) (\<lambda>(pkg, header, sig).
     Ret (slot, length bytes, hex sig))"

definition cmd_ota_stage :: "nat \<Rightarrow> u8 list \<Rightarrow> u32 \<Rightarrow> u8 \<Rightarrow> u8 list outcome" where
  "cmd_ota_stage n bytes key slot =
     outcome_bind (cli_package n bytes key slot) (\<lambda>(pkg, header, sig).
     Ret (header @ bytes @ sig))"

lemma cli_package_eq:
  "cli_package n bytes key slot =
     (let pkg = \<lparr>up_slot = slot, up_payload_len = of_nat (length bytes)\<rparr> in
      Ret (pkg, package_header pkg, demo_hash n (demo_signer_new key) (package_message pkg bytes)))"
  by (simp add: cli_package_def encode_package_header_eq HEADER_LEN_def Let_def package_message_def
      demo_sign_def)

lemma cmd_ota_stage_eq:
  "cmd_ota_stage n bytes key slot =
     (let pkg = \<lparr>up_slot = slot, up_payload_len = of_nat (length bytes)\<rparr> in
      Ret (package_header pkg @ bytes @ demo_hash n (demo_signer_new key) (package_message pkg bytes)))"
  by (simp add: cmd_ota_stage_def cli_package_eq Let_def)

lemma cli_signature_verified:
  assumes "length bytes \<le> OTA_MAX_PAYLOAD" "length bytes \<le> os_slot_capacity S st"
    and "p = \<lparr>up_slot = slot, up_payload_len = of_nat (length bytes)\<rparr>"
  shows "stage_verified S (demo_scheme n) (ota_engine_new st (demo_signer_new key)) p bytes
    (demo_hash n (demo_signer_new key) (package_message p bytes))"
  using assms
  by (simp add: stage_verified_def ota_engine_new_def demo_scheme_def demo_verify_def OTA_MAX_PAYLOAD_def)

text \<open>How a receiver takes a package file apart: header, payload of the declared length, signature.\<close>

definition read_package_file :: "u8 list \<Rightarrow> (update_package \<times> u8 list \<times> u8 list) option" where
  "read_package_file written =
     map_option (\<lambda>p. (p, take (unat (up_payload_len p)) (drop HEADER_LEN written),
       drop (HEADER_LEN + unat (up_payload_len p)) written)) (decode_package_header written)"

lemma read_package_file_written:
  assumes "cmd_ota_stage n bytes key slot = Ret written" "length bytes < 2 ^ 32"
  shows "read_package_file written =
    (if slot \<le> 1
     then Some (\<lparr>up_slot = slot, up_payload_len = of_nat (length bytes)\<rparr>, bytes,
       demo_hash n (demo_signer_new key)
         (package_message \<lparr>up_slot = slot, up_payload_len = of_nat (length bytes)\<rparr> bytes))
     else None)"
proof -
  let ?p = "\<lparr>up_slot = slot, up_payload_len = of_nat (length bytes)\<rparr>"
  have w: "written = package_header ?p @ bytes @ demo_hash n (demo_signer_new key) (package_message ?p bytes)"
    using assms(1) by (simp add: cmd_ota_stage_eq Let_def)
  have "unat (up_payload_len ?p) = length bytes" using assms(2) by simp
  then show ?thesis
    by (simp add: read_package_file_def w decode_package_header_wire HEADER_LEN_def)
qed


section \<open>Generated signal accessors\<close>

text \<open>One entry of the \<open>[[signal]]\<close> array: its keys, where present and of the expected type.\<close>

record signal_entry =
  se_name :: "string option"
  se_start_bit :: "int option"
  se_length_bits :: "int option"
  se_can_id :: "int option"

text \<open>\<open>unwrap_or(0) as u8\<close> and \<open>as u32\<close>: the conversion from \<open>i64\<close> keeps the low bits.\<close>

definition entry_start :: "signal_entry \<Rightarrow> u8" where
  "entry_start e = of_int (case se_start_bit e of None \<Rightarrow> 0 | Some i \<Rightarrow> i)"

definition entry_length :: "signal_entry \<Rightarrow> u8" where
  "entry_length e = of_int (case se_length_bits e of None \<Rightarrow> 0 | Some i \<Rightarrow> i)"

definition entry_can_id :: "signal_entry \<Rightarrow> u32" where
  "entry_can_id e = of_int (case se_can_id e of None \<Rightarrow> 0 | Some i \<Rightarrow> i)"

definition newline :: string where "newline = [CHR 0x0A]"
definition quote_mark :: string where "quote_mark = [CHR 0x22]"
definition backtick :: string where "backtick = [CHR 0x60]"

definition signal_accessor :: "signal_entry \<Rightarrow> string" where
  "signal_accessor e =
     (let name = (case se_name e of None \<Rightarrow> ''signal'' | Some s \<Rightarrow> s);
          start = show_base 10 (unat (entry_start e));
          len = show_base 10 (unat (entry_length e));
          can_id = show_base 16 (unat (entry_can_id e)) in
      ''/// '' @ backtick @ name @ backtick @ '': CAN 0x'' @ can_id @ '', start bit '' @ start @ '', '' @ len @
      '' bits.'' @ newline @
      ''pub const '' @ name @ '': Signal = match Signal::new('' @ start @ '', '' @ len @ '') {'' @ newline @
      ''    Some(s) => s,'' @ newline @
      ''    None => panic!('' @ quote_mark @ ''invalid signal layout for '' @ name @ quote_mark @ ''),'' @ newline @
      ''};'' @ newline @ newline)"

definition signals_code :: "signal_entry list \<Rightarrow> string" where
  "signals_code es =
     ''// Generated by '' @ backtick @ ''tpt-cli signals'' @ backtick @ '' from a signals.toml database.'' @ newline @
     ''// Do not edit by hand.'' @ newline @ newline @
     ''use tpt_chassis_core::autosar::Signal;'' @ newline @ newline @
     concat (map signal_accessor es)"

text \<open>The layouts the generated constants build; one \<open>None\<close> is a build that fails.\<close>

definition generated_layouts :: "signal_entry list \<Rightarrow> signal_layout option list" where
  "generated_layouts es = map (\<lambda>e. signal_new (entry_start e) (entry_length e)) es"

text \<open>The entries that differ only by multiples of 256 in their positions and lengths.\<close>

definition wrap_entry :: "signal_entry \<Rightarrow> signal_entry" where
  "wrap_entry e = e\<lparr>se_start_bit := map_option (\<lambda>i. i mod 256) (se_start_bit e),
                   se_length_bits := map_option (\<lambda>i. i mod 256) (se_length_bits e)\<rparr>"

lemma of_int_mod_256: "(of_int (i mod 256) :: u8) = of_int i"
  by (simp add: word_uint_eq_iff unsigned_of_int take_bit_eq_mod)

lemma wrap_entry_fields [simp]:
  "entry_start (wrap_entry e) = entry_start e" "entry_length (wrap_entry e) = entry_length e"
  "entry_can_id (wrap_entry e) = entry_can_id e" "se_name (wrap_entry e) = se_name e"
  by (auto simp: entry_start_def entry_length_def entry_can_id_def wrap_entry_def of_int_mod_256
      split: option.split)


section \<open>Properties\<close>

text \<open>A package file of the tool is accepted by an engine with the same key: for slot 0 or 1 and a
  payload that fits both the engine and the candidate slot, taking the file apart gives the slot,
  the payload and a signature for which \<open>stage\<close> writes the payload and the journal. A file written for
  another slot cannot be read back at all, although the tool reports success.\<close>
theorem cli_package_accepted:
  assumes "cmd_ota_stage n bytes key slot = Ret written" "length bytes \<le> OTA_MAX_PAYLOAD"
  shows "(if slot \<le> 1
      then \<exists>p sig. read_package_file written = Some (p, bytes, sig) \<and> up_slot p = slot \<and>
        (length bytes \<le> os_slot_capacity S st \<longrightarrow>
          stage_verified S (demo_scheme n) (ota_engine_new st (demo_signer_new key)) p bytes sig)
      else read_package_file written = None) \<and>
    length written = HEADER_LEN + length bytes + n \<and>
    (\<exists>sig. cmd_ota_sign n bytes key slot = Ret (slot, length bytes, hex sig) \<and>
      unhex (hex sig) = Some sig \<and> drop (HEADER_LEN + length bytes) written = sig)"
proof -
  have small: "length bytes < 2 ^ 32" using assms(2) by (simp add: OTA_MAX_PAYLOAD_def)
  let ?p = "\<lparr>up_slot = slot, up_payload_len = of_nat (length bytes)\<rparr>"
  let ?sig = "demo_hash n (demo_signer_new key) (package_message ?p bytes)"
  have w: "written = package_header ?p @ bytes @ ?sig"
    using assms(1) by (simp add: cmd_ota_stage_eq Let_def)
  note v = cli_signature_verified [OF assms(2) _ refl, of S st n key slot]
  have "cmd_ota_sign n bytes key slot = Ret (slot, length bytes, hex ?sig)"
    by (simp add: cmd_ota_sign_def cli_package_eq Let_def)
  moreover have "length written = HEADER_LEN + length bytes + n"
    "drop (HEADER_LEN + length bytes) written = ?sig"
    by (simp_all add: w HEADER_LEN_def demo_hash_def)
  ultimately show ?thesis
    using v read_package_file_written [OF assms(1) small] unhex_hex [of ?sig] by auto
qed

lemma cli_package_accepted_witness:
  "\<exists>written p sig. cmd_ota_stage 4 [1, 2, 3] 0xCAFE 1 = Ret written \<and>
     read_package_file written = Some (p, [1, 2, 3], sig) \<and> length written = 17 \<and>
     stage_verified (mem_ops host_debug) (demo_scheme 4)
       (ota_engine_new mem_storage_new (demo_signer_new 0xCAFE)) p [1, 2, 3] sig"
proof -
  obtain w where w: "cmd_ota_stage 4 [1, 2, 3] 0xCAFE 1 = Ret w"
    by (simp add: cmd_ota_stage_eq Let_def)
  show ?thesis
    using cli_package_accepted [OF w, of "mem_ops host_debug" mem_storage_new] w
    by (auto simp: OTA_MAX_PAYLOAD_def HEADER_LEN_def mem_ops_def mem_slot_capacity_def SLOT_CAP_def)
qed

text \<open>The signal generator reduces positions and lengths modulo 256 before it writes them: an
  entry and the one reduced modulo 256 give the same source, so an entry that no payload of 64 bits
  can hold, such as start bit 256 with 8 bits, is generated as a valid accessor of other bits.\<close>
theorem signals_wrap_silently:
  "signals_code es = signals_code (map wrap_entry es) \<and>
   generated_layouts es = generated_layouts (map wrap_entry es) \<and>
   generated_layouts [\<lparr>se_name = Some nm, se_start_bit = Some 256, se_length_bits = Some 8, se_can_id = c\<rparr>] =
     [Some \<lparr>sig_start_bit = 0, sig_length = 8\<rparr>]"
proof -
  have "signal_accessor (wrap_entry e) = signal_accessor e" for e
    by (simp add: signal_accessor_def)
  then have "signals_code es = signals_code (map wrap_entry es)"
    by (simp add: signals_code_def comp_def)
  moreover have "generated_layouts es = generated_layouts (map wrap_entry es)"
    by (simp add: generated_layouts_def)
  ultimately show ?thesis
    by (simp add: generated_layouts_def entry_start_def entry_length_def signal_new_def)
qed

end
