(* ===== verification/Bus_Gate.thy ===== *)
theory Bus_Gate
  imports Can Lin Someip
begin

text \<open>
  Every bus of the framework is a gate: it validates a frame before its transceiver sees it. This is
  proved once for any such construction (\<open>gated_bus\<close>) and holds for the four buses over any
  transceiver at all, also one that keeps no contract. The recording transceivers of the unit tests
  are modelled here: the smallest transceivers that keep \<open>transceiver_spec\<close>.
\<close>


section \<open>The gate\<close>

text \<open>Frames handed to a bus one by one, whatever it answers.\<close>

fun transmit_each :: "('b, 'f) vehicle_bus \<Rightarrow> 'b \<Rightarrow> 'f list \<Rightarrow> (bus_error + unit) list \<times> 'b" where
  "transmit_each B b [] = ([], b)"
| "transmit_each B b (f # fs) =
     (let (r, b) = vb_transmit B b f; (rs, b) = transmit_each B b fs in (r # rs, b))"

locale gated_bus =
  fixes B :: "('b, 'f) vehicle_bus"
    and get :: "'b \<Rightarrow> 's"
    and send :: "'s \<Rightarrow> 'f \<Rightarrow> (bus_error + unit) \<times> 's"
    and valid :: "'f \<Rightarrow> bool"
  assumes refused: "\<not> valid f \<Longrightarrow> vb_transmit B b f = (Inl InvalidFrame, b)"
    and passed: "valid f \<Longrightarrow> fst (vb_transmit B b f) = fst (send (get b) f) \<and>
          get (snd (vb_transmit B b f)) = snd (send (get b) f)"
begin

lemma transceiver_sees_valid:
  "get (snd (transmit_each B b fs)) = fold (\<lambda>f s. snd (send s f)) (filter valid fs) (get b)"
proof (induction fs arbitrary: b)
  case (Cons f fs)
  obtain r b1 where t: "vb_transmit B b f = (r, b1)" by (cases "vb_transmit B b f")
  then have "get b1 = (if valid f then snd (send (get b) f) else get b)"
    using refused [of f b] passed [of f b] by auto
  with t Cons.IH [of b1] show ?case by (auto split: prod.splits)
qed simp

lemma invalid_refused:
  "list_all2 (\<lambda>f r. valid f \<or> r = Inl InvalidFrame) fs (fst (transmit_each B b fs))"
proof (induction fs arbitrary: b)
  case (Cons f fs)
  obtain r b1 where t: "vb_transmit B b f = (r, b1)" by (cases "vb_transmit B b f")
  then have "valid f \<or> r = Inl InvalidFrame" using refused [of f b] by auto
  with t Cons.IH [of b1] show ?case by (auto split: prod.splits)
qed simp

end

definition can_valid :: "can_frame \<Rightarrow> bool" where
  "can_valid f \<longleftrightarrow> can_frame_len f \<le> CAN_MAX_DLC \<and> can_id_ok (cf_id f)"

definition can_fd_valid :: "can_fd_frame \<Rightarrow> bool" where
  "can_fd_valid f \<longleftrightarrow> can_fd_frame_len f \<le> CANFD_MAX_DLC \<and> can_id_ok (fdf_id f)"

definition lin_valid :: "lin_frame \<Rightarrow> bool" where
  "lin_valid f \<longleftrightarrow> lin_frame_len f \<le> LIN_MAX_DLC"

definition someip_valid :: "someip_message \<Rightarrow> bool" where
  "someip_valid m \<longleftrightarrow> unat (sm_payload_len m) \<le> SOMEIP_MAX_PAYLOAD \<and>
     \<not> (sh_message_type (sm_header m) = Request \<and> mid_service (sh_message_id (sm_header m)) = 0)"

interpretation can_gate: gated_bus "can_vehicle_bus T" cb_transceiver "ct_send T" can_valid
proof
  fix f b
  note v = can_validate_frame_iff [of f] can_validate_frame_error [of f]
  show "\<not> can_valid f \<Longrightarrow> vb_transmit (can_vehicle_bus T) b f = (Inl InvalidFrame, b)"
    using v by (simp add: can_bus_defs can_valid_def)
  show "can_valid f \<Longrightarrow> fst (vb_transmit (can_vehicle_bus T) b f) = fst (ct_send T (cb_transceiver b) f) \<and>
      cb_transceiver (snd (vb_transmit (can_vehicle_bus T) b f)) = snd (ct_send T (cb_transceiver b) f)"
    using v by (simp add: can_bus_defs can_valid_def Let_def split: prod.split)
qed

interpretation fd_gate: gated_bus "can_fd_vehicle_bus T" fdb_transceiver "fct_send T" can_fd_valid
proof
  fix f b
  note v = validate_fd_frame_iff [of f] validate_fd_frame_error [of f]
  show "\<not> can_fd_valid f \<Longrightarrow> vb_transmit (can_fd_vehicle_bus T) b f = (Inl InvalidFrame, b)"
    using v by (simp add: can_fd_bus_defs can_fd_valid_def)
  show "can_fd_valid f \<Longrightarrow>
      fst (vb_transmit (can_fd_vehicle_bus T) b f) = fst (fct_send T (fdb_transceiver b) f) \<and>
      fdb_transceiver (snd (vb_transmit (can_fd_vehicle_bus T) b f)) = snd (fct_send T (fdb_transceiver b) f)"
    using v by (simp add: can_fd_bus_defs can_fd_valid_def Let_def split: prod.split)
qed

interpretation lin_gate: gated_bus "lin_vehicle_bus T" lb_transceiver "lt_send T" lin_valid
proof
  fix f b
  show "\<not> lin_valid f \<Longrightarrow> vb_transmit (lin_vehicle_bus T) b f = (Inl InvalidFrame, b)"
    by (simp add: lin_bus_defs lin_valid_def lin_validate_frame_def)
  show "lin_valid f \<Longrightarrow> fst (vb_transmit (lin_vehicle_bus T) b f) = fst (lt_send T (lb_transceiver b) f) \<and>
      lb_transceiver (snd (vb_transmit (lin_vehicle_bus T) b f)) = snd (lt_send T (lb_transceiver b) f)"
    by (simp add: lin_bus_defs lin_valid_def lin_validate_frame_def Let_def split: prod.split)
qed

interpretation someip_gate: gated_bus "someip_vehicle_bus T" sb_transceiver "st_send T" someip_valid
proof
  fix f b
  show "\<not> someip_valid f \<Longrightarrow> vb_transmit (someip_vehicle_bus T) b f = (Inl InvalidFrame, b)"
    by (auto simp: someip_bus_defs someip_valid_def someip_validate_message_def)
  show "someip_valid f \<Longrightarrow> fst (vb_transmit (someip_vehicle_bus T) b f) = fst (st_send T (sb_transceiver b) f) \<and>
      sb_transceiver (snd (vb_transmit (someip_vehicle_bus T) b f)) = snd (st_send T (sb_transceiver b) f)"
    by (auto simp: someip_bus_defs someip_valid_def someip_validate_message_def Let_def split: prod.split)
qed


section \<open>The recording transceivers\<close>

text \<open>The \<open>CountingTransceiver\<close> of the unit tests of CAN, LIN and SOME/IP, and the
  \<open>FdCountingTransceiver\<close> of CAN FD: they remember whether anything was sent.\<close>

record recorder =
  rec_sent :: bool

definition recorder_new :: recorder where
  "recorder_new = \<lparr>rec_sent = False\<rparr>"

definition recorder_send :: "recorder \<Rightarrow> 'f \<Rightarrow> (bus_error + unit) \<times> recorder" where
  "recorder_send s f = (Inr (), s\<lparr>rec_sent := True\<rparr>)"

definition recorder_recv :: "recorder \<Rightarrow> (bus_error + 'f) \<times> recorder" where
  "recorder_recv s = (Inl RxQueueEmpty, s)"

definition can_recorder :: "recorder can_transceiver" where
  "can_recorder =
     \<lparr>ct_send = recorder_send, ct_recv = recorder_recv, ct_has_received = \<lambda>s. False,
      ct_can_send = \<lambda>s. True\<rparr>"

definition fd_recorder :: "recorder fd_can_transceiver" where
  "fd_recorder =
     \<lparr>fct_send = recorder_send, fct_recv = recorder_recv, fct_has_received = \<lambda>s. False,
      fct_can_send = \<lambda>s. True\<rparr>"

definition lin_recorder :: "recorder lin_transceiver" where
  "lin_recorder =
     \<lparr>lt_is_master = \<lambda>s. True, lt_send = recorder_send, lt_recv = recorder_recv,
      lt_has_received = \<lambda>s. False, lt_can_send = \<lambda>s. True\<rparr>"

definition someip_recorder :: "recorder someip_transceiver" where
  "someip_recorder =
     \<lparr>st_send = recorder_send, st_recv = recorder_recv, st_has_received = \<lambda>s. False,
      st_can_send = \<lambda>s. True\<rparr>"

lemmas recorder_defs =
  recorder_send_def recorder_recv_def can_recorder_def fd_recorder_def lin_recorder_def
  someip_recorder_def

interpretation can_recorder: can_backend can_recorder "\<lambda>s. []" "\<lambda>s. True"
  by unfold_locales (simp_all add: recorder_defs)

interpretation fd_recorder: fd_backend fd_recorder "\<lambda>s. []" "\<lambda>s. True"
  by unfold_locales (simp_all add: recorder_defs)

interpretation lin_recorder: lin_backend lin_recorder "\<lambda>s. []" "\<lambda>s. True"
  by unfold_locales (simp_all add: recorder_defs)

interpretation someip_recorder: someip_backend someip_recorder "\<lambda>s. []" "\<lambda>s. True"
  by unfold_locales (simp_all add: recorder_defs)

lemma fold_recorder:
  "rec_sent (fold (\<lambda>f s. snd (recorder_send s f)) fs s) \<longleftrightarrow> rec_sent s \<or> fs \<noteq> []"
  by (induction fs arbitrary: s) (simp_all add: recorder_send_def)


section \<open>Properties\<close>

text \<open>C12: Invalid frames never reach a transceiver. Whatever is handed to a CAN, CAN FD, LIN or SOME/IP
  bus over whatever transceiver, the transceiver ends in the state that sending the valid frames
  alone, in their order, leaves it in, and every invalid frame is answered with \<open>InvalidFrame\<close>.\<close>
theorem transceivers_see_valid_frames:
  "cb_transceiver (snd (transmit_each (can_vehicle_bus C) cb cs)) =
     fold (\<lambda>f s. snd (ct_send C s f)) (filter can_valid cs) (cb_transceiver cb) \<and>
   list_all2 (\<lambda>f r. can_valid f \<or> r = Inl InvalidFrame) cs (fst (transmit_each (can_vehicle_bus C) cb cs)) \<and>
   fdb_transceiver (snd (transmit_each (can_fd_vehicle_bus F) fb fs)) =
     fold (\<lambda>f s. snd (fct_send F s f)) (filter can_fd_valid fs) (fdb_transceiver fb) \<and>
   list_all2 (\<lambda>f r. can_fd_valid f \<or> r = Inl InvalidFrame) fs (fst (transmit_each (can_fd_vehicle_bus F) fb fs)) \<and>
   lb_transceiver (snd (transmit_each (lin_vehicle_bus L) lb ls)) =
     fold (\<lambda>f s. snd (lt_send L s f)) (filter lin_valid ls) (lb_transceiver lb) \<and>
   list_all2 (\<lambda>f r. lin_valid f \<or> r = Inl InvalidFrame) ls (fst (transmit_each (lin_vehicle_bus L) lb ls)) \<and>
   sb_transceiver (snd (transmit_each (someip_vehicle_bus S) sb ms)) =
     fold (\<lambda>m s. snd (st_send S s m)) (filter someip_valid ms) (sb_transceiver sb) \<and>
   list_all2 (\<lambda>m r. someip_valid m \<or> r = Inl InvalidFrame) ms (fst (transmit_each (someip_vehicle_bus S) sb ms))"
  by (intro conjI can_gate.transceiver_sees_valid can_gate.invalid_refused fd_gate.transceiver_sees_valid
      fd_gate.invalid_refused lin_gate.transceiver_sees_valid lin_gate.invalid_refused
      someip_gate.transceiver_sees_valid someip_gate.invalid_refused)

end
