(* ===== verification/Sim_Types.thy ===== *)
theory Sim_Types
  imports Bus_Gate Can_Link Sim_Lin Sim_Someip
begin

text \<open>
  The states a program can bring the simulated networks of \<open>sim/src\<close> into through their public
  operations, as inductive predicates, and the typing of what travels on them: receive queues stay
  within their capacity and hold only frames whose identifier and length are in range, so reading
  the data of a received frame cannot panic. The invariant is proved once for every
  \<open>broadcast_net\<close>.
\<close>


section \<open>Typed queues\<close>

definition queues_typed :: "('f \<Rightarrow> bool) \<Rightarrow> nat \<Rightarrow> 'f list list \<Rightarrow> bool" where
  "queues_typed P cap qs \<longleftrightarrow> (\<forall>q \<in> set qs. length q \<le> cap \<and> (\<forall>f \<in> set q. P f))"

lemma queues_typed_Nil [simp]: "queues_typed P cap []"
  by (simp add: queues_typed_def)

lemma queues_typed_attach [simp]: "queues_typed P cap (qs @ [[]]) \<longleftrightarrow> queues_typed P cap qs"
  by (auto simp: queues_typed_def)

lemma queues_typed_nth:
  "queues_typed P cap qs \<longleftrightarrow>
     (\<forall>j < length qs. length (qs ! j) \<le> cap \<and> (\<forall>f \<in> set (qs ! j). P f))"
  by (auto simp: queues_typed_def all_set_conv_all_nth)

lemma broadcast_typed:
  "queues_typed P cap qs \<Longrightarrow> P f \<Longrightarrow> queues_typed P cap (broadcast_queues cap f i qs)"
  by (auto simp: queues_typed_nth)

lemma pop_typed:
  assumes "queues_typed P cap qs" "i < length qs"
  shows "queues_typed P cap (snd (pop_queue i qs))" "fst (pop_queue i qs) = Inr f \<Longrightarrow> P f"
proof -
  have "\<forall>f \<in> set (qs ! i). P f" "length (qs ! i) \<le> cap"
    using assms by (auto simp: queues_typed_nth)
  then show "queues_typed P cap (snd (pop_queue i qs))" "fst (pop_queue i qs) = Inr f \<Longrightarrow> P f"
    using assms by (auto simp: pop_queue_def queues_typed_nth nth_list_update split: list.splits)
qed

context broadcast_net
begin

lemma send_typed:
  assumes "queues_typed P cap (queues n)" "P f"
  shows "queues_typed P cap (queues (snd (send n i f)))"
  using assms broadcast_typed send_up [of n i f] send_down [of n i f] by (cases "up n") auto

lemma recv_typed:
  assumes "queues_typed P cap (queues n)" "i < length (queues n)"
  shows "queues_typed P cap (queues (snd (recv n i)))" "fst (recv n i) = Inr f \<Longrightarrow> P f"
  using pop_typed [OF assms] recv_eq [OF assms(2)] by auto

end


section \<open>The CAN network\<close>

text \<open>
  What a program can do: create a network, attach nodes, switch the bus off and on, transmit through
  a \<open>CanBus\<close> any value of the type \<open>CanFrame\<close> (an array of eight bytes, whatever the identifier and the
  length say), send a frame made by the constructors directly through a node, and receive.
\<close>

inductive can_reach :: "sim_can_network \<Rightarrow> bool" where
  can_new: "can_reach sim_can_network_new"
| can_attach: "can_reach n \<Longrightarrow> can_reach (snd (sim_can_attach n))"
| can_off: "can_reach n \<Longrightarrow> can_reach (sim_can_set_bus_off off n)"
| can_transmit: "can_reach n \<Longrightarrow> i < length (scn_nodes n) \<Longrightarrow> length (cf_data f) = CAN_MAX_DLC \<Longrightarrow>
     can_reach (snd (node_transmit n i f))"
| can_send: "can_reach n \<Longrightarrow> i < length (scn_nodes n) \<Longrightarrow>
     can_id_standard raw = Some c \<or> can_id_extended raw = Some c \<Longrightarrow>
     can_frame_new c data = Ret (Some f) \<Longrightarrow> can_reach (snd (sim_can_send n i f))"
| can_receive: "can_reach n \<Longrightarrow> i < length (scn_nodes n) \<Longrightarrow> can_reach (snd (node_receive n i))"

definition can_frame_typed :: "can_frame \<Rightarrow> bool" where
  "can_frame_typed f \<longleftrightarrow> can_valid f \<and> length (cf_data f) = CAN_MAX_DLC"

lemma can_frame_typed_data:
  assumes "can_frame_typed f"
  shows "\<exists>data. can_frame_data f = Ret data \<and> length data = can_frame_len f"
  using assms by (simp add: can_frame_typed_def can_valid_def can_frame_data_def can_frame_len_def)

lemma can_frame_new_typed:
  assumes "can_frame_new c data = Ret (Some f)" "can_id_ok c"
  shows "can_frame_typed f"
proof -
  from can_frame_new_ok [OF assms] have "can_valid f"
    by (simp add: can_valid_def can_frame_ok_def can_frame_len_def)
  moreover have "length (cf_data f) = CAN_MAX_DLC"
    using assms(1) by (auto simp: can_frame_new_def outcome_simps split: if_splits)
  ultimately show ?thesis by (simp add: can_frame_typed_def)
qed

lemma node_transmit_eq:
  "node_transmit n i f = (if can_valid f then sim_can_send n i f else (Inl InvalidFrame, n))"
  using can_validate_frame_iff [of f] can_validate_frame_error [of f]
  by (auto simp: node_transmit_def node_bus_def can_bus_new_def can_bus_transmit_def can_valid_def
      sim_can_node_ops_def Let_def split: prod.splits)

lemma node_receive_eq: "node_receive n i = sim_can_recv n i"
  by (simp add: node_receive_def node_bus_def can_bus_new_def can_bus_receive_def
      sim_can_node_ops_def Let_def split: prod.splits)

lemma can_reach_typed: "can_reach n \<Longrightarrow> queues_typed can_frame_typed SIM_RX_QUEUE_LEN (scn_nodes n)"
proof (induction rule: can_reach.induct)
  case (can_transmit n i f)
  then have "can_valid f \<Longrightarrow> can_frame_typed f" by (simp add: can_frame_typed_def)
  with can_transmit show ?case
    using can_net.send_typed [of can_frame_typed n f i] by (auto simp: node_transmit_eq)
next
  case (can_send n i raw c data f)
  then have "can_id_ok c" by (metis can_id_constructors_ok)
  with can_send can_net.send_typed [of can_frame_typed n f i] can_frame_new_typed [of c data f]
  show ?case by simp
next
  case (can_receive n i)
  then show ?case using can_net.recv_typed(1) by (simp add: node_receive_eq)
qed (simp_all add: sim_can_network_new_def sim_can_attach_def sim_can_set_bus_off_def)


section \<open>The LIN cluster and the SOME/IP network\<close>

inductive lin_reach :: "sim_lin_cluster \<Rightarrow> bool" where
  lin_new: "lin_reach sim_lin_cluster_new"
| lin_attach: "lin_reach n \<Longrightarrow> lin_reach (snd (sim_lin_attach m n))"
| lin_off: "lin_reach n \<Longrightarrow> lin_reach (sim_lin_set_bus_off off n)"
| lin_transmit: "lin_reach n \<Longrightarrow> i < length (slc_nodes n) \<Longrightarrow> length (lf_data f) = LIN_MAX_DLC \<Longrightarrow>
     lin_bus_transmit sim_lin_node_ops (lin_bus_new \<lparr>ln_network = n, ln_index = i, ln_is_master = m\<rparr>) f =
       (r, b) \<Longrightarrow> lin_reach (ln_network (lb_transceiver b))"
| lin_receive: "lin_reach n \<Longrightarrow> i < length (slc_nodes n) \<Longrightarrow>
     lin_bus_receive sim_lin_node_ops (lin_bus_new \<lparr>ln_network = n, ln_index = i, ln_is_master = m\<rparr>) =
       (r, b) \<Longrightarrow> lin_reach (ln_network (lb_transceiver b))"

definition lin_frame_typed :: "lin_frame \<Rightarrow> bool" where
  "lin_frame_typed f \<longleftrightarrow> lin_valid f \<and> length (lf_data f) = LIN_MAX_DLC"

lemma lin_frame_typed_data:
  "lin_frame_typed f \<Longrightarrow> \<exists>data. lin_frame_data f = Ret data \<and> length data = lin_frame_len f"
  by (simp add: lin_frame_typed_def lin_valid_def lin_frame_data_def lin_frame_len_def)

lemma bus_of_node [simp]:
  "lb_transceiver (lin_bus_new d) = d" "sb_transceiver (someip_bus_new e) = e"
  by (simp_all add: lin_bus_new_def someip_bus_new_def)

lemma lin_node_steps:
  "lin_bus_transmit sim_lin_node_ops (lin_bus_new d) f =
     (if lin_valid f
      then let (r, n) = sim_lin_send (ln_network d) (ln_index d) f in (r, lin_bus_new (d\<lparr>ln_network := n\<rparr>))
      else (Inl InvalidFrame, lin_bus_new d))"
  "lin_bus_receive sim_lin_node_ops (lin_bus_new d) =
     (let (r, n) = sim_lin_recv (ln_network d) (ln_index d) in (r, lin_bus_new (d\<lparr>ln_network := n\<rparr>)))"
  by (auto simp: lin_bus_transmit_def lin_bus_receive_def lin_bus_new_def lin_valid_def
      lin_validate_frame_def sim_lin_node_ops_def Let_def split: prod.splits)

lemma lin_reach_typed: "lin_reach n \<Longrightarrow> queues_typed lin_frame_typed SIM_LIN_RX_QUEUE_LEN (slc_queues n)"
proof (induction rule: lin_reach.induct)
  case (lin_transmit n i f m r b)
  then have "lin_valid f \<Longrightarrow> lin_frame_typed f" by (simp add: lin_frame_typed_def)
  with lin_transmit show ?case
    using lin_net.send_typed [of lin_frame_typed n f i]
    by (auto simp: lin_node_steps split: if_splits prod.splits)
next
  case (lin_receive n i m r b)
  then show ?case
    using lin_net.recv_typed(1) [of lin_frame_typed n i]
    by (auto simp: lin_node_steps split: prod.splits)
qed (simp_all add: sim_lin_cluster_new_def sim_lin_attach_def sim_lin_set_bus_off_def slc_queues_def)

inductive someip_reach :: "sim_someip_network \<Rightarrow> bool" where
  someip_new: "someip_reach sim_someip_network_new"
| someip_attach: "someip_reach n \<Longrightarrow> someip_reach (snd (sim_someip_attach n))"
| someip_down: "someip_reach n \<Longrightarrow> someip_reach (sim_someip_set_link_down down n)"
| someip_transmit: "someip_reach n \<Longrightarrow> i < length (ssn_nodes n) \<Longrightarrow>
     length (sm_payload m) = SOMEIP_MAX_PAYLOAD \<Longrightarrow>
     someip_bus_transmit sim_someip_node_ops (someip_bus_new \<lparr>sn_network = n, sn_index = i\<rparr>) m = (r, b) \<Longrightarrow>
     someip_reach (sn_network (sb_transceiver b))"
| someip_receive: "someip_reach n \<Longrightarrow> i < length (ssn_nodes n) \<Longrightarrow>
     someip_bus_receive sim_someip_node_ops (someip_bus_new \<lparr>sn_network = n, sn_index = i\<rparr>) = (r, b) \<Longrightarrow>
     someip_reach (sn_network (sb_transceiver b))"

definition someip_message_typed :: "someip_message \<Rightarrow> bool" where
  "someip_message_typed m \<longleftrightarrow> someip_valid m \<and> length (sm_payload m) = SOMEIP_MAX_PAYLOAD"

lemma someip_message_typed_payload:
  "someip_message_typed m \<Longrightarrow>
   \<exists>payload. someip_payload m = Ret payload \<and> length payload = unat (sm_payload_len m)"
  by (simp add: someip_message_typed_def someip_valid_def someip_payload_def)

lemma someip_node_steps:
  "someip_bus_transmit sim_someip_node_ops (someip_bus_new d) m =
     (if someip_valid m
      then let (r, n) = sim_someip_send (sn_network d) (sn_index d) m in
        (r, someip_bus_new (d\<lparr>sn_network := n\<rparr>))
      else (Inl InvalidFrame, someip_bus_new d))"
  "someip_bus_receive sim_someip_node_ops (someip_bus_new d) =
     (let (r, n) = sim_someip_recv (sn_network d) (sn_index d) in
      (r, someip_bus_new (d\<lparr>sn_network := n\<rparr>)))"
  by (auto simp: someip_bus_transmit_def someip_bus_receive_def someip_bus_new_def someip_valid_def
      someip_validate_message_def sim_someip_node_ops_def Let_def split: prod.splits)

lemma someip_reach_typed:
  "someip_reach n \<Longrightarrow> queues_typed someip_message_typed SIM_SOMEIP_RX_QUEUE_LEN (ssn_nodes n)"
proof (induction rule: someip_reach.induct)
  case (someip_transmit n i m r b)
  then have "someip_valid m \<Longrightarrow> someip_message_typed m" by (simp add: someip_message_typed_def)
  with someip_transmit show ?case
    using someip_net.send_typed [of someip_message_typed n m i]
    by (auto simp: someip_node_steps split: if_splits prod.splits)
next
  case (someip_receive n i r b)
  then show ?case
    using someip_net.recv_typed(1) [of someip_message_typed n i]
    by (auto simp: someip_node_steps split: prod.splits)
qed (simp_all add: sim_someip_network_new_def sim_someip_attach_def sim_someip_set_link_down_def)



section \<open>Properties\<close>

text \<open>C13: Typing of the simulated CAN network. In every state a program can reach by creating networks
  and nodes, switching the bus off and on, transmitting any frame value through a bus, sending
  constructed frames through a node and receiving: no receive queue is longer than its capacity, and
  a received frame has an identifier in range and at most eight bytes, which can be read without a
  panic; the state after receiving is again such a state.\<close>
theorem sim_can_well_typed:
  assumes "can_reach n" "i < length (scn_nodes n)"
  shows "length (scn_nodes n ! i) \<le> SIM_RX_QUEUE_LEN \<and>
    (\<forall>f n'. node_receive n i = (Inr f, n') \<longrightarrow>
       can_reach n' \<and> can_id_ok (cf_id f) \<and> can_frame_len f \<le> CAN_MAX_DLC \<and>
       (\<exists>data. can_frame_data f = Ret data \<and> length data = can_frame_len f))"
proof -
  note typed = can_reach_typed [OF assms(1)]
  have "can_frame_typed f \<and> can_reach n'" if "node_receive n i = (Inr f, n')" for f n'
    using can_net.recv_typed(2) [OF typed assms(2), of f] can_receive [OF assms] that
    by (simp add: node_receive_eq)
  then show ?thesis
    using typed assms(2) can_frame_typed_data
    by (auto simp: queues_typed_nth can_frame_typed_def can_valid_def)
qed

lemma can_pair_reach: "can_reach can_pair"
  using can_attach [OF can_attach [OF can_new]]
  by (simp add: can_pair_def Let_def case_prod_unfold)

lemma sim_can_well_typed_witness:
  "length (scn_nodes can_pair ! 1) \<le> 16 \<and>
   (\<exists>data. can_frame_data (demo_frame 5) = Ret data \<and> length data = 1)"
proof -
  let ?n = "snd (node_transmit can_pair 0 (demo_frame 5))"
  have "scn_nodes can_pair = [[], []]" "\<not> scn_bus_off can_pair"
    using can_pair_quiet by (simp_all add: quiet_pair_def)
  moreover have "can_valid (demo_frame 5)"
    by (simp add: can_valid_def demo_frame_def can_frame_len_def CAN_MAX_DLC_def can_id_ok_def
        STANDARD_MAX_def word_le_nat_alt)
  ultimately have n: "scn_nodes ?n = [[], [demo_frame 5]]"
    by (simp add: node_transmit_eq sim_can_defs broadcast_queues_def SIM_RX_QUEUE_LEN_def)
  have reach: "can_reach ?n"
    using can_transmit [OF can_pair_reach, of 0 "demo_frame 5"] \<open>scn_nodes can_pair = _\<close>
    by (simp add: demo_frame_def CAN_MAX_DLC_def)
  obtain n' where "node_receive ?n 1 = (Inr (demo_frame 5), n')"
    using n by (simp add: node_receive_eq sim_can_recv_def pop_queue_def)
  then show ?thesis
    using sim_can_well_typed [OF reach, of 1] sim_can_well_typed [OF can_pair_reach, of 1] n
      \<open>scn_nodes can_pair = _\<close>
    by (auto simp: SIM_RX_QUEUE_LEN_def) (simp add: can_frame_len_def demo_frame_def)
qed

text \<open>Typing of the simulated LIN cluster and SOME/IP network: in every state a program can reach
  by creating, attaching, switching off and on, transmitting any frame or message value through a bus
  and receiving, no receive queue is longer than its capacity and every queued frame or message can be
  read without a panic; no SOME/IP request to service 0 is ever on the network.\<close>
theorem sim_lin_someip_well_typed:
  "lin_reach n \<and> i < length (slc_nodes n) \<longrightarrow>
     length (slc_queues n ! i) \<le> SIM_LIN_RX_QUEUE_LEN \<and>
     (\<forall>f \<in> set (slc_queues n ! i). \<exists>data. lin_frame_data f = Ret data \<and> length data \<le> LIN_MAX_DLC)"
  "someip_reach e \<and> i < length (ssn_nodes e) \<longrightarrow>
     length (ssn_nodes e ! i) \<le> SIM_SOMEIP_RX_QUEUE_LEN \<and>
     (\<forall>m \<in> set (ssn_nodes e ! i). (\<exists>payload. someip_payload m = Ret payload) \<and>
        (sh_message_type (sm_header m) = Request \<longrightarrow> mid_service (sh_message_id (sm_header m)) \<noteq> 0))"
proof -
  show "lin_reach n \<and> i < length (slc_nodes n) \<longrightarrow>
     length (slc_queues n ! i) \<le> SIM_LIN_RX_QUEUE_LEN \<and>
     (\<forall>f \<in> set (slc_queues n ! i). \<exists>data. lin_frame_data f = Ret data \<and> length data \<le> LIN_MAX_DLC)"
    using lin_reach_typed [of n] lin_frame_typed_data
    by (auto simp: queues_typed_nth lin_frame_typed_def lin_valid_def) metis
  show "someip_reach e \<and> i < length (ssn_nodes e) \<longrightarrow>
     length (ssn_nodes e ! i) \<le> SIM_SOMEIP_RX_QUEUE_LEN \<and>
     (\<forall>m \<in> set (ssn_nodes e ! i). (\<exists>payload. someip_payload m = Ret payload) \<and>
        (sh_message_type (sm_header m) = Request \<longrightarrow> mid_service (sh_message_id (sm_header m)) \<noteq> 0))"
    using someip_reach_typed [of e] someip_message_typed_payload
    by (auto simp: queues_typed_nth someip_message_typed_def someip_valid_def) metis
qed

end
