(* ===== verification/Ed25519.thy ===== *)
theory Ed25519
  imports Ota
begin

text \<open>
  \<open>Ed25519Signer\<close> of \<open>core/src/ota.rs\<close> (feature \<open>crypto-ed25519\<close>, signatures of 64 bytes). The library
  \<open>ed25519_compact\<close> is a parameter: its types are type variables, its functions the fields of
  \<open>ed25519_compact\<close>, and what the code relies on is \<open>ed25519_contract\<close>. Under the contract the
  signer keeps the contract of a signature scheme (\<open>signature_spec\<close>), for signers built from a seed.
\<close>


section \<open>The library\<close>

record ('d, 'k, 's, 'p, 'g, 'n, 'e) ed25519_compact =
  ec_seed_new :: "u8 list \<Rightarrow> 'd"
  ec_from_seed :: "'d \<Rightarrow> 'k"
  ec_sk :: "'k \<Rightarrow> 's"
  ec_pk :: "'k \<Rightarrow> 'p"
  ec_pk_bytes :: "'p \<Rightarrow> u8 list"
  ec_sign :: "'s \<Rightarrow> u8 list \<Rightarrow> 'n option \<Rightarrow> 'g"
  ec_signature_as_ref :: "'g \<Rightarrow> u8 list"
  ec_signature_from_slice :: "u8 list \<Rightarrow> 'e + 'g"
  ec_verify :: "'p \<Rightarrow> u8 list \<Rightarrow> 'g \<Rightarrow> 'e + unit"

text \<open>
  What the library documents of key pairs made from a 32-byte seed: the public key has 32 bytes, a
  signature has 64 bytes and is read back from them, and the public key verifies it.
\<close>

definition ed25519_contract :: "('d, 'k, 's, 'p, 'g, 'n, 'e) ed25519_compact \<Rightarrow> bool" where
  "ed25519_contract L \<longleftrightarrow>
     (\<forall>seed. length seed = 32 \<longrightarrow>
        (let kp = ec_from_seed L (ec_seed_new L seed) in
         length (ec_pk_bytes L (ec_pk L kp)) = 32 \<and>
         (\<forall>data noise. let g = ec_sign L (ec_sk L kp) data noise in
            length (ec_signature_as_ref L g) = 64 \<and>
            ec_signature_from_slice L (ec_signature_as_ref L g) = Inr g \<and>
            ec_verify L (ec_pk L kp) data g = Inr ())))"


section \<open>The signer\<close>

record 'k ed25519_signer =
  es_keypair :: 'k

definition ed25519_from_seed ::
  "('d, 'k, 's, 'p, 'g, 'n, 'e) ed25519_compact \<Rightarrow> u8 list \<Rightarrow> 'k ed25519_signer" where
  "ed25519_from_seed L seed = \<lparr>es_keypair = ec_from_seed L (ec_seed_new L seed)\<rparr>"

definition ed25519_public_key_bytes ::
  "('d, 'k, 's, 'p, 'g, 'n, 'e) ed25519_compact \<Rightarrow> 'k ed25519_signer \<Rightarrow> u8 list" where
  "ed25519_public_key_bytes L v = ec_pk_bytes L (ec_pk L (es_keypair v))"

definition ed25519_sign ::
  "('d, 'k, 's, 'p, 'g, 'n, 'e) ed25519_compact \<Rightarrow> 'k ed25519_signer \<Rightarrow> u8 list \<Rightarrow> u8 list \<Rightarrow>
   u8 list outcome" where
  "ed25519_sign L v data sig =
     (let signature = ec_sign L (ec_sk L (es_keypair v)) data None in
      copy_into sig 0 (length sig) (ec_signature_as_ref L signature))"

definition ed25519_verify ::
  "('d, 'k, 's, 'p, 'g, 'n, 'e) ed25519_compact \<Rightarrow> 'k ed25519_signer \<Rightarrow> u8 list \<Rightarrow> u8 list \<Rightarrow> bool"
where
  "ed25519_verify L v data sig =
     (case ec_signature_from_slice L sig of
        Inr signature \<Rightarrow>
          (case ec_verify L (ec_pk L (es_keypair v)) data signature of Inr _ \<Rightarrow> True | Inl _ \<Rightarrow> False)
      | Inl _ \<Rightarrow> False)"

definition ed25519_scheme ::
  "('d, 'k, 's, 'p, 'g, 'n, 'e) ed25519_compact \<Rightarrow> 'k ed25519_signer signature_scheme" where
  "ed25519_scheme L = \<lparr>ss_sign = ed25519_sign L, ss_verify = ed25519_verify L\<rparr>"

text \<open>The signers \<open>from_seed\<close> builds.\<close>

definition ed25519_seeded ::
  "('d, 'k, 's, 'p, 'g, 'n, 'e) ed25519_compact \<Rightarrow> 'k ed25519_signer \<Rightarrow> bool" where
  "ed25519_seeded L v \<longleftrightarrow> (\<exists>seed. length seed = 32 \<and> v = ed25519_from_seed L seed)"

lemma ed25519_contractD:
  assumes "ed25519_contract L" "ed25519_seeded L v" "g = ec_sign L (ec_sk L (es_keypair v)) data noise"
  shows "length (ec_signature_as_ref L g) = 64"
    "ec_signature_from_slice L (ec_signature_as_ref L g) = Inr g"
    "ec_verify L (ec_pk L (es_keypair v)) data g = Inr ()"
  using assms by (auto simp: ed25519_contract_def ed25519_seeded_def ed25519_from_seed_def Let_def)

lemma ed25519_sign_eq:
  assumes "ed25519_contract L" "ed25519_seeded L v" "length buf = 64"
  shows "ed25519_sign L v data buf =
    Ret (ec_signature_as_ref L (ec_sign L (ec_sk L (es_keypair v)) data None))"
  using ed25519_contractD(1) [OF assms(1,2) refl, of data None] assms(3)
  by (simp add: ed25519_sign_def)

lemma ed25519_signature_spec:
  assumes "ed25519_contract L"
  shows "signature_spec (ed25519_scheme L) 64 (ed25519_seeded L)"
proof
  fix v and buf data :: "u8 list"
  assume v: "ed25519_seeded L v" and len: "length buf = 64"
  note c = ed25519_contractD [OF assms v refl, of data None]
  show "\<exists>sig. ss_sign (ed25519_scheme L) v data buf = Ret sig \<and> length sig = 64 \<and>
      ss_verify (ed25519_scheme L) v data sig"
    using c by (simp add: ed25519_scheme_def ed25519_sign_eq [OF assms v len] ed25519_verify_def)
qed


section \<open>A library that keeps the contract\<close>

text \<open>
  The contract can hold: a key pair is its seed, and a signature is the sum of the message and of
  the seed, written 64 times. It is no signature scheme to protect anything with.
\<close>

definition checksum_sig :: "u8 list \<Rightarrow> u8 list \<Rightarrow> u8 list" where
  "checksum_sig key data = replicate 64 (sum_list key + sum_list data)"

definition checksum_lib ::
  "(u8 list, u8 list, u8 list, u8 list, u8 list, unit, unit) ed25519_compact" where
  "checksum_lib =
     \<lparr>ec_seed_new = \<lambda>seed. seed, ec_from_seed = \<lambda>seed. seed, ec_sk = \<lambda>k. k, ec_pk = \<lambda>k. k,
      ec_pk_bytes = \<lambda>p. p, ec_sign = \<lambda>k data _. checksum_sig k data,
      ec_signature_as_ref = \<lambda>g. g,
      ec_signature_from_slice = \<lambda>bs. if length bs = 64 then Inr bs else Inl (),
      ec_verify = \<lambda>p data g. if g = checksum_sig p data then Inr () else Inl ()\<rparr>"

lemma checksum_lib_contract: "ed25519_contract checksum_lib"
  by (simp add: ed25519_contract_def checksum_lib_def checksum_sig_def)

interpretation ed25519: signature_spec "ed25519_scheme checksum_lib" 64 "ed25519_seeded checksum_lib"
  by (rule ed25519_signature_spec [OF checksum_lib_contract])


section \<open>Packages\<close>

text \<open>The packager of the test \<open>ed25519_signer_can_drive_stage\<close>.\<close>

definition ed25519_package ::
  "('d, 'k, 's, 'p, 'g, 'n, 'e) ed25519_compact \<Rightarrow> 'k ed25519_signer \<Rightarrow> u8 \<Rightarrow> u8 list \<Rightarrow>
   (u8 list \<times> update_package) outcome" where
  "ed25519_package L signer slot payload =
     (let pkg = \<lparr>up_slot = slot, up_payload_len = of_nat (length payload)\<rparr>;
          signed = replicate (HEADER_LEN + OTA_MAX_PAYLOAD) 0 in
      outcome_bind (slice_to signed HEADER_LEN) (\<lambda>head.
      outcome_bind (encode_package_header pkg head) (\<lambda>head.
      outcome_bind (copy_into signed 0 HEADER_LEN head) (\<lambda>signed.
      outcome_bind (copy_into signed HEADER_LEN (HEADER_LEN + length payload) payload) (\<lambda>signed.
      outcome_bind (slice_to signed (HEADER_LEN + length payload)) (\<lambda>message.
      outcome_bind (ed25519_sign L signer message (replicate (OTA_SIGNATURE_LEN True) 0)) (\<lambda>sig.
      Ret (sig, pkg))))))))"

lemma ed25519_package_eq:
  assumes "length payload \<le> OTA_MAX_PAYLOAD"
  shows "ed25519_package L signer slot payload =
    (let pkg = \<lparr>up_slot = slot, up_payload_len = of_nat (length payload)\<rparr> in
     outcome_bind (ed25519_sign L signer (package_message pkg payload)
         (replicate (OTA_SIGNATURE_LEN True) 0)) (\<lambda>sig. Ret (sig, pkg)))"
  using assms
  by (simp add: ed25519_package_def encode_package_header_eq package_message_def HEADER_LEN_def
      OTA_MAX_PAYLOAD_def Let_def)

lemma ed25519_package_verified:
  assumes "ed25519_contract L" "ed25519_seeded L v" "length payload \<le> OTA_MAX_PAYLOAD"
    and "length payload \<le> os_slot_capacity S s"
  shows "\<exists>sig pkg. ed25519_package L v slot payload = Ret (sig, pkg) \<and> length sig = OTA_SIGNATURE_LEN True \<and>
    up_slot pkg = slot \<and>
    stage_verified S (ed25519_scheme L) \<lparr>oe_storage = s, oe_signer = v\<rparr> pkg payload sig"
proof -
  have len: "length (replicate (OTA_SIGNATURE_LEN True) (0 :: u8)) = 64" by (simp add: OTA_SIGNATURE_LEN_def)
  from signature_spec.signed_package_verified [OF ed25519_signature_spec [OF assms(1)] assms(2) len assms(3) refl assms(4),
      of slot]
  show ?thesis
    by (auto simp: ed25519_package_eq [OF assms(3)] Let_def ed25519_scheme_def OTA_SIGNATURE_LEN_def)
qed


section \<open>Properties\<close>

text \<open>C27: Updates signed with Ed25519, over any library that keeps its contract: a payload that fits,
  packaged and signed with the signer of a 32-byte seed for the inactive slot, is staged, promoted
  and committed by an engine with that signer, its slot is then the active one and holds the
  payload. Signing never panics. A package whose signature bytes the library does not parse, or whose
  signature its public key does not verify, is refused as badly signed and nothing is written.\<close>
theorem ed25519_update_installs:
  assumes "ed25519_contract L" "length seed = 32" "v = ed25519_from_seed L seed"
    and "length payload \<le> SLOT_CAP" "32 \<le> usize_bits t" "slots_ok SLOT_CAP (ms_slots s)" "slot \<le> 1"
    and "e = ota_engine_new s v"
  shows "\<exists>sig pkg e1 e2 e3. ed25519_package L v slot payload = Ret (sig, pkg) \<and> length sig = 64 \<and>
    ota_stage (mem_ops t) (ed25519_scheme L) e pkg payload sig = Ret (Inr (), e1) \<and>
    ota_promote t (mem_ops t) e1 = Ret (Inr slot, e2) \<and>
    ota_commit (mem_ops t) e2 = Ret (Inr slot, e3) \<and>
    ota_state (mem_ops t) e3 = Inr (if slot = 0 then ActiveSlot0 else ActiveSlot1) \<and>
    take (length payload) (ms_slots (oe_storage e3) ! unat slot) = payload \<and>
    (\<forall>bad. (case ec_signature_from_slice L bad of Inl _ \<Rightarrow> True
            | Inr g \<Rightarrow> ec_verify L (ec_pk L (es_keypair v)) (package_message pkg payload) g \<noteq> Inr ()) \<longrightarrow>
       ota_stage (mem_ops t) (ed25519_scheme L) e pkg payload bad = Ret (Inl BadSignature, e))"
proof -
  have v: "ed25519_seeded L v" using assms(2,3) by (auto simp: ed25519_seeded_def)
  have len: "length payload \<le> OTA_MAX_PAYLOAD" "length payload \<le> os_slot_capacity (mem_ops t) s"
    using assms(4) by (simp_all add: SLOT_CAP_def OTA_MAX_PAYLOAD_def mem_ops_def mem_slot_capacity_def)
  from ed25519_package_verified [OF assms(1) v len, of slot] obtain sig pkg where
    pkg: "ed25519_package L v slot payload = Ret (sig, pkg)" "length sig = 64" "up_slot pkg = slot"
    and ver: "stage_verified (mem_ops t) (ed25519_scheme L) \<lparr>oe_storage = s, oe_signer = v\<rparr> pkg payload sig"
    unfolding OTA_SIGNATURE_LEN_def by auto
  have bad: "ota_stage (mem_ops t) (ed25519_scheme L) e pkg payload bad = Ret (Inl BadSignature, e)"
    if "case ec_signature_from_slice L bad of Inl _ \<Rightarrow> True
        | Inr g \<Rightarrow> ec_verify L (ec_pk L (es_keypair v)) (package_message pkg payload) g \<noteq> Inr ()" for bad
    using that ver assms(8)
    by (auto simp: ota_stage_eq stage_verified_def ed25519_scheme_def ed25519_verify_def ota_engine_new_def
        split: sum.splits)
  show ?thesis
    using mem_lifecycle [OF ver assms(6) _ assms(5)] pkg assms(7,8) bad
    by (auto simp: ota_engine_new_def)
qed

lemma ed25519_update_installs_witness:
  "\<exists>sig pkg e1 e2 e3. let v = ed25519_from_seed checksum_lib (replicate 32 0x11);
      e = ota_engine_new mem_storage_new v in
    ed25519_package checksum_lib v 1 [0x5A] = Ret (sig, pkg) \<and>
    ota_stage (mem_ops mcu_debug) (ed25519_scheme checksum_lib) e pkg [0x5A] sig = Ret (Inr (), e1) \<and>
    ota_promote mcu_debug (mem_ops mcu_debug) e1 = Ret (Inr 1, e2) \<and>
    ota_commit (mem_ops mcu_debug) e2 = Ret (Inr 1, e3) \<and>
    ota_stage (mem_ops mcu_debug) (ed25519_scheme checksum_lib) e pkg [0x5A] [] = Ret (Inl BadSignature, e)"
proof -
  let ?v = "ed25519_from_seed checksum_lib (replicate 32 0x11)"
  have "ec_signature_from_slice checksum_lib [] = Inl ()" by (simp add: checksum_lib_def)
  then show ?thesis
    using ed25519_update_installs [OF checksum_lib_contract _ refl _ _ mem_new_ok _ refl,
        of "replicate 32 0x11" "[0x5A]" mcu_debug 1]
    by (fastforce simp: mcu_debug_def SLOT_CAP_def Let_def)
qed

end
