(* ===== verification/Ota_Refine.thy ===== *)
theory Ota_Refine
  imports Ota
begin

text \<open>
  The update engine as a refinement of a small abstract machine: two images and a phase (an image is
  committed, a candidate is staged, a candidate is on trial). Every operation of the engine over every
  storage that keeps \<open>ota_storage\<close>, with failing writes and power loss, is a step of that machine that
  reports the same. What is proved of the machine then holds of the engine: until a commit, the image that was committed
  stays as it is, byte for byte, and is the one to fall back to.
\<close>


section \<open>The abstract updater\<close>

datatype ab_phase = Committed u8 | Candidate u8 | Trial u8 u8

record ab_updater =
  ab_phase :: ab_phase
  ab_image :: "u8 \<Rightarrow> u8 list"

text \<open>
  Steps, with what they report: a call that is refused or whose journal write fails reports an error and
  has no effect (\<open>ab_idle\<close>); a staging puts an accepted payload into its slot, or loses power or fails in
  the middle and leaves anything there; the other steps move the phase and report a slot: the one on
  trial, or for a reboot the one that runs then. An operation that reports no error has its effect.
\<close>

definition ab_accepts :: "'v signature_scheme \<Rightarrow> 'v \<Rightarrow> update_package \<Rightarrow> u8 list \<Rightarrow> u8 list \<Rightarrow> bool" where
  "ab_accepts V v p payload sig \<longleftrightarrow>
     length payload = unat (up_payload_len p) \<and> length payload \<le> OTA_MAX_PAYLOAD \<and>
     ss_verify V v (package_message p payload) sig"

fun ab_start :: "ab_phase \<Rightarrow> ab_phase" where
  "ab_start (Candidate c) = Trial c (1 - c)"
| "ab_start (Trial a f) = Committed f"
| "ab_start (Committed a) = Committed a"

fun ab_running :: "ab_phase \<Rightarrow> u8" where
  "ab_running (Candidate c) = 1 - c"
| "ab_running (Trial a f) = a"
| "ab_running (Committed a) = a"

text \<open>The errors of a call without effect, by the phase it finds; a reboot passes on that of the storage.\<close>

fun ab_errors :: "ab_phase \<Rightarrow> ota_event \<Rightarrow> ota_error set" where
  "ab_errors ph (Stage p payload sig) = {BadPackage, PayloadTooLarge, BadSignature}"
| "ab_errors ph (StageTorn p payload sig) = {}"
| "ab_errors ph Promote = (if \<exists>c. ph = Candidate c then {Storage} else {NoCandidate})"
| "ab_errors ph Commit = (if \<exists>a f. ph = Trial a f then {Storage} else {InvalidState})"
| "ab_errors ph Rollback = (if \<exists>a f. ph = Trial a f then {Storage} else {InvalidState})"
| "ab_errors ph Reboot = UNIV"

inductive ab_step ::
  "'v signature_scheme \<Rightarrow> 'v \<Rightarrow> ab_updater \<Rightarrow> ota_event \<Rightarrow> ota_error + u8 option \<Rightarrow> ab_updater \<Rightarrow> bool"
  for V :: "'v signature_scheme" and v :: 'v
where
  ab_idle: "err \<in> ab_errors (ab_phase u) ev \<Longrightarrow> ab_step V v u ev (Inl err) u"
| ab_stage: "ab_accepts V v p payload sig \<Longrightarrow> take (length payload) img = payload \<Longrightarrow>
     ab_step V v u (Stage p payload sig) (Inr None)
       (u\<lparr>ab_image := (ab_image u)(up_slot p := img), ab_phase := Candidate (up_slot p)\<rparr>)"
| ab_torn: "ab_accepts V v p payload sig \<Longrightarrow> ev = Stage p payload sig \<or> ev = StageTorn p payload sig \<Longrightarrow>
     err \<in> {WriteFailed, Storage} \<Longrightarrow>
     ab_step V v u ev (Inl err) (u\<lparr>ab_image := (ab_image u)(up_slot p := img)\<rparr>)"
| ab_promote: "ab_phase u = Candidate c \<Longrightarrow>
     ab_step V v u Promote (Inr (Some c)) (u\<lparr>ab_phase := Trial c (1 - c)\<rparr>)"
| ab_commit: "ab_phase u = Trial a f \<Longrightarrow> ab_step V v u Commit (Inr (Some a)) (u\<lparr>ab_phase := Committed a\<rparr>)"
| ab_rollback: "ab_phase u = Trial a f \<Longrightarrow> ab_step V v u Rollback (Inr (Some a)) (u\<lparr>ab_phase := Committed f\<rparr>)"
| ab_reboot: "ab_step V v u Reboot (Inr (Some (ab_running (ab_start (ab_phase u)))))
     (u\<lparr>ab_phase := ab_start (ab_phase u)\<rparr>)"

inductive_cases ab_stepE: "ab_step V v u ev r u'"

text \<open>The discipline: a package goes into the slot that is not committed, while one is.\<close>

fun ab_allowed :: "ab_phase \<Rightarrow> ota_event \<Rightarrow> bool" where
  "ab_allowed ph (Stage p _ _) \<longleftrightarrow> (\<exists>a. ph = Committed a \<and> a \<le> 1 \<and> up_slot p = 1 - a)"
| "ab_allowed ph (StageTorn p _ _) \<longleftrightarrow> (\<exists>a. ph = Committed a \<and> a \<le> 1 \<and> up_slot p = 1 - a)"
| "ab_allowed ph _ \<longleftrightarrow> True"

text \<open>A run, as the list of what was called and what it reported.\<close>

inductive ab_run ::
  "'v signature_scheme \<Rightarrow> 'v \<Rightarrow> ab_updater \<Rightarrow> (ota_event \<times> (ota_error + u8 option)) list \<Rightarrow> ab_updater \<Rightarrow> bool"
  for V :: "'v signature_scheme" and v :: 'v
where
  ab_run_Nil: "ab_run V v u [] u"
| ab_run_Cons: "ab_step V v u ev r u1 \<Longrightarrow> ab_allowed (ab_phase u) ev \<Longrightarrow> ab_run V v u1 evs u' \<Longrightarrow>
     ab_run V v u ((ev, r) # evs) u'"

text \<open>Until a commit, slot \<open>a\<close> is the committed one or the one to fall back to.\<close>

definition ab_holds :: "u8 \<Rightarrow> ab_phase \<Rightarrow> bool" where
  "ab_holds a ph \<longleftrightarrow> ph = Committed a \<or> ph = Candidate (1 - a) \<or> ph = Trial (1 - a) a"

lemma other_slot: "(a :: u8) \<le> 1 \<Longrightarrow> 1 - (1 - a) = a" "(a :: u8) \<le> 1 \<Longrightarrow> 1 - a \<noteq> a"
  by (auto simp: slot_le_1)

lemma ab_step_holds:
  assumes "ab_step V v u ev r u'" "ab_allowed (ab_phase u) ev" "ev \<noteq> Commit" "a \<le> 1"
    "ab_holds a (ab_phase u)"
  shows "ab_holds a (ab_phase u') \<and> ab_image u' a = ab_image u a"
  using assms other_slot [OF assms(4)]
  by (cases rule: ab_stepE [OF assms(1)]) (auto simp: ab_holds_def)

lemma ab_run_holds:
  "ab_run V v u evs u' \<Longrightarrow> Commit \<notin> fst ` set evs \<Longrightarrow> a \<le> 1 \<Longrightarrow> ab_holds a (ab_phase u) \<Longrightarrow>
   ab_holds a (ab_phase u') \<and> ab_image u' a = ab_image u a"
proof (induction rule: ab_run.induct)
  case (ab_run_Cons u ev r u1 evs u')
  then show ?case using ab_step_holds [OF ab_run_Cons.hyps(1,2), of a] by auto
qed simp


section \<open>The simulation\<close>

fun phase_of :: "slot_state \<Rightarrow> ab_phase" where
  "phase_of ActiveSlot0 = Committed 0"
| "phase_of ActiveSlot1 = Committed 1"
| "phase_of (Pending c) = Candidate c"
| "phase_of (Testing a f) = Trial a f"

text \<open>There are two slots; what a view says of other slot numbers does not matter.\<close>

definition ab_of :: "'s storage_view \<Rightarrow> ('s, 'v) ota_engine \<Rightarrow> ab_updater" where
  "ab_of W e =
     \<lparr>ab_phase = phase_of (sv_journal W (oe_storage e)),
      ab_image = (\<lambda>k. if k \<le> 1 then sv_image W (oe_storage e) k else [])\<rparr>"

fun slot_in_range :: "ota_event \<Rightarrow> bool" where
  "slot_in_range (Stage p _ _) \<longleftrightarrow> up_slot p \<le> 1"
| "slot_in_range (StageTorn p _ _) \<longleftrightarrow> up_slot p \<le> 1"
| "slot_in_range _ \<longleftrightarrow> True"

lemma phase_of_simps [simp]:
  "a \<le> 1 \<Longrightarrow> phase_of (if a = 0 then ActiveSlot0 else ActiveSlot1) = Committed a"
  "journal_ok st \<Longrightarrow> phase_of (resolved_state st) = ab_start (phase_of st)"
  by (auto simp: slot_le_1) (cases st; auto simp: slot_le_1)

text \<open>Two starts end on the slot that is held.\<close>

lemma held_slot_returns:
  assumes "ab_holds a (phase_of st)" "a \<le> 1"
  shows "resolved_state (resolved_state st) = (if a = 0 then ActiveSlot0 else ActiveSlot1)"
    "running_slot (resolved_state (resolved_state st)) = a"
  using assms by (cases st; auto simp: ab_holds_def slot_le_1)+

lemma stage_allowed_phase: "stage_allowed st ev \<longleftrightarrow> ab_allowed (phase_of st) ev"
  by (cases ev; cases st) auto

lemma stage_allowed_slot: "stage_allowed st ev \<Longrightarrow> slot_in_range ev"
  by (cases ev) auto

context ota_storage
begin

text \<open>The last step of an operation writes the journal or, if that fails, changes nothing.\<close>

lemma write_journal_sim:
  assumes "write_journal S f st x e = Ret (r, e')" "sv_ok W (oe_storage e)" "journal_ok st"
  shows "sv_ok W (oe_storage e') \<and> oe_signer e' = oe_signer e \<and>
    (r = Inr x \<and> ab_of W e' = (ab_of W e)\<lparr>ab_phase := phase_of st\<rparr> \<or>
     (\<exists>err. r = Inl (f err)) \<and> ab_of W e' = ab_of W e)"
proof -
  from write_state [OF assms(2,3)] obtain q s' where
    "os_write_state S (oe_storage e) st = Ret (q, s')" "sv_ok W s'"
    "sv_image W s' = sv_image W (oe_storage e)"
    "sv_journal W s' = (if q = Inr () then st else sv_journal W (oe_storage e))" by blast
  with assms(1) show ?thesis by (cases q) (auto simp: write_journal_def ab_of_def)
qed

text \<open>The same as a step, if the abstract machine can report the error and make the move.\<close>

lemma journal_move:
  assumes "write_journal S f st x e = Ret (r, e')" "sv_ok W (oe_storage e)" "journal_ok st"
    and "ab_step V (oe_signer e) (ab_of W e) ev (Inr (Some x)) ((ab_of W e)\<lparr>ab_phase := phase_of st\<rparr>)"
    and "\<And>err. f err \<in> ab_errors (ab_phase (ab_of W e)) ev"
  shows "sv_ok W (oe_storage e') \<and> oe_signer e' = oe_signer e \<and>
    ab_step V (oe_signer e) (ab_of W e) ev (map_sum id Some r) (ab_of W e')"
  using write_journal_sim [OF assms(1-3)] assms(4) ab_idle [OF assms(5)] by auto

lemma stage_sim:
  assumes "ota_stage S V e p payload sig = Ret (r, e')" "sv_ok W (oe_storage e)" "up_slot p \<le> 1"
  shows "sv_ok W (oe_storage e') \<and> oe_signer e' = oe_signer e \<and>
    ab_step V (oe_signer e) (ab_of W e) (Stage p payload sig) (map_sum id (\<lambda>_. None) r) (ab_of W e')"
proof (cases "stage_verified S V e p payload sig")
  case False
  then have "e' = e" "r \<in> Inl ` {BadPackage, PayloadTooLarge, BadSignature}"
    using assms(1) by (auto simp: ota_stage_eq stage_verified_def split: if_splits)
  then show ?thesis using assms(2) by (auto intro!: ab_idle)
next
  case True
  then have acc: "ab_accepts V (oe_signer e) p payload sig"
    and len: "length payload \<le> os_slot_capacity S (oe_storage e)"
    by (simp_all add: stage_verified_def ab_accepts_def)
  from write_slot [OF assms(2,3) len] obtain q s' where
    w: "os_write_slot S (oe_storage e) (up_slot p) 0 payload = Ret (q, s')" "sv_ok W s'"
    "sv_journal W s' = sv_journal W (oe_storage e)"
    "sv_image W s' (1 - up_slot p) = sv_image W (oe_storage e) (1 - up_slot p)"
    "q = Inr () \<longrightarrow> take (length payload) (sv_image W s' (up_slot p)) = payload" by blast
  let ?e = "e\<lparr>oe_storage := s'\<rparr>" and ?img = "sv_image W s' (up_slot p)"
  have img: "ab_of W ?e = (ab_of W e)\<lparr>ab_image := (ab_image (ab_of W e))(up_slot p := ?img)\<rparr>"
    using w(3,4) assms(3) by (auto simp: ab_of_def slot_le_1)
  have stage: "ota_stage S V e p payload sig =
    (case q of Inl _ \<Rightarrow> Ret (Inl WriteFailed, ?e)
     | Inr _ \<Rightarrow> write_journal S (\<lambda>_. Storage) (Pending (up_slot p)) () ?e)"
    using True w(1) by (simp add: ota_stage_eq stage_verified_def Let_def)
  have torn: "ab_step V (oe_signer e) (ab_of W e) (Stage p payload sig) (Inl err) (ab_of W ?e)"
    if "err \<in> {WriteFailed, Storage}" for err
    unfolding img by (rule ab_torn [OF acc _ that]) simp
  show ?thesis
  proof (cases q)
    case (Inl err)
    then show ?thesis using stage assms(1) torn w(2) by auto
  next
    case (Inr u)
    have "write_journal S (\<lambda>_. Storage) (Pending (up_slot p)) () ?e = Ret (r, e')"
      using stage assms(1) Inr by simp
    from write_journal_sim [OF this] have "sv_ok W (oe_storage e') \<and> oe_signer e' = oe_signer ?e \<and>
      (r = Inr () \<and> ab_of W e' = (ab_of W ?e)\<lparr>ab_phase := phase_of (Pending (up_slot p))\<rparr> \<or>
       r = Inl Storage \<and> ab_of W e' = ab_of W ?e)"
      using w(2) assms(3) by simp
    moreover have "ab_step V (oe_signer e) (ab_of W e) (Stage p payload sig) (Inr None)
      ((ab_of W ?e)\<lparr>ab_phase := phase_of (Pending (up_slot p))\<rparr>)"
      using ab_stage [OF acc, of ?img "ab_of W e"] w(5) Inr unfolding img by simp
    ultimately show ?thesis using torn [of Storage] by auto
  qed
qed

lemma promote_sim:
  assumes "ota_promote t S e = Ret (r, e')" "sv_ok W (oe_storage e)"
  shows "sv_ok W (oe_storage e') \<and> oe_signer e' = oe_signer e \<and>
    ab_step V (oe_signer e) (ab_of W e) Promote (map_sum id Some r) (ab_of W e')"
proof (cases "sv_journal W (oe_storage e)")
  case (Pending c)
  then have c: "c \<le> 1" using journal [OF assms(2)] by simp
  then have ok: "journal_ok (Testing c (1 - c))" by (auto simp: slot_le_1)
  have "write_journal S (\<lambda>_. Storage) (Testing c (1 - c)) c e = Ret (r, e')"
    using assms(1) Pending c read_state [OF assms(2)] by (simp add: ota_promote_def)
  note move = journal_move [OF this assms(2) ok, of V Promote]
  have ph: "ab_phase (ab_of W e) = Candidate c" using Pending by (simp add: ab_of_def)
  show ?thesis by (rule move) (use ab_promote [OF ph, of V "oe_signer e"] ph in simp_all)
qed (use assms read_state [OF assms(2)] in \<open>auto simp: ota_promote_def ab_of_def intro!: ab_idle\<close>)

text \<open>A commit and a rollback end a trial with one slot or the other.\<close>

lemma end_state: "k \<le> 1 \<Longrightarrow> journal_ok (if k = 0 then ActiveSlot0 else ActiveSlot1)"
  by simp

lemma commit_sim:
  assumes "ota_commit S e = Ret (r, e')" "sv_ok W (oe_storage e)"
  shows "sv_ok W (oe_storage e') \<and> oe_signer e' = oe_signer e \<and>
    ab_step V (oe_signer e) (ab_of W e) Commit (map_sum id Some r) (ab_of W e')"
proof (cases "sv_journal W (oe_storage e)")
  case (Testing a f)
  then have a: "a \<le> 1" "ab_phase (ab_of W e) = Trial a f"
    using journal [OF assms(2)] by (simp_all add: ab_of_def)
  have "write_journal S (\<lambda>_. Storage) (if a = 0 then ActiveSlot0 else ActiveSlot1) a e = Ret (r, e')"
    using assms(1) Testing read_state [OF assms(2)] by (simp add: ota_commit_def)
  from journal_move [OF this assms(2) end_state [OF a(1)], of V Commit] show ?thesis
    using a ab_commit [OF a(2), of V "oe_signer e"] by simp
qed (use assms read_state [OF assms(2)] in \<open>auto simp: ota_commit_def ab_of_def intro!: ab_idle\<close>)

lemma rollback_sim:
  assumes "ota_rollback S e = Ret (r, e')" "sv_ok W (oe_storage e)"
  shows "sv_ok W (oe_storage e') \<and> oe_signer e' = oe_signer e \<and>
    ab_step V (oe_signer e) (ab_of W e) Rollback (map_sum id Some r) (ab_of W e')"
proof (cases "sv_journal W (oe_storage e)")
  case (Testing a f)
  then have f: "f \<le> 1" "ab_phase (ab_of W e) = Trial a f"
    using journal [OF assms(2)] by (simp_all add: ab_of_def)
  have "write_journal S (\<lambda>_. Storage) (if f = 0 then ActiveSlot0 else ActiveSlot1) a e = Ret (r, e')"
    using assms(1) Testing read_state [OF assms(2)] by (simp add: ota_rollback_def)
  from journal_move [OF this assms(2) end_state [OF f(1)], of V Rollback] show ?thesis
    using f ab_rollback [OF f(2), of V "oe_signer e"] by simp
qed (use assms read_state [OF assms(2)] in \<open>auto simp: ota_rollback_def ab_of_def intro!: ab_idle\<close>)

lemma recover_sim:
  assumes "ota_recover t S e = Ret (r, e')" "sv_ok W (oe_storage e)"
  shows "sv_ok W (oe_storage e') \<and> oe_signer e' = oe_signer e \<and>
    ab_step V (oe_signer e) (ab_of W e) Reboot (map_sum id Some r) (ab_of W e')"
proof -
  note j = journal [OF assms(2)]
  let ?st = "resolved_state (sv_journal W (oe_storage e))"
  have "write_journal S id ?st (running_slot ?st) e = Ret (r, e')"
    using assms(1) ota_recover_eq [OF read_state [OF assms(2)] j] by simp
  moreover have st: "phase_of ?st = ab_start (ab_phase (ab_of W e))" using j by (simp add: ab_of_def)
  moreover have "running_slot ?st = ab_running (ab_start (ab_phase (ab_of W e)))"
    unfolding st [symmetric] by (cases ?st) simp_all
  ultimately show ?thesis
    using ab_reboot [of V "oe_signer e" "ab_of W e"]
    by (intro journal_move [OF _ assms(2) resolved_journal_ok [OF j]]) simp_all
qed

lemma step_sim:
  assumes "ota_step t S W V e ev r e'" "sv_ok W (oe_storage e)" "slot_in_range ev"
  shows "sv_ok W (oe_storage e') \<and> oe_signer e' = oe_signer e \<and>
    ab_step V (oe_signer e) (ab_of W e) ev r (ab_of W e')"
  using assms
proof cases
  case (step_stage p payload sig q)
  then show ?thesis using stage_sim [OF step_stage(3) assms(2)] assms(3) by auto
next
  case (step_torn p payload sig s')
  then have acc: "ab_accepts V (oe_signer e) p payload sig"
    by (simp add: stage_verified_def ab_accepts_def)
  have "ab_of W e' = (ab_of W e)\<lparr>ab_image := (ab_image (ab_of W e))(up_slot p := sv_image W s' (up_slot p))\<rparr>"
    using step_torn assms(3) by (auto simp: ab_of_def slot_le_1)
  then show ?thesis using ab_torn [OF acc, of ev WriteFailed] step_torn by auto
qed (simp_all add: promote_sim commit_sim rollback_sim recover_sim assms(2))

end


section \<open>Runs of the engine\<close>

inductive ota_run ::
  "target \<Rightarrow> 's ota_storage_ops \<Rightarrow> 's storage_view \<Rightarrow> 'v signature_scheme \<Rightarrow>
   ('s, 'v) ota_engine \<Rightarrow> (ota_event \<times> (ota_error + u8 option)) list \<Rightarrow> ('s, 'v) ota_engine \<Rightarrow> bool"
  for t :: target and S :: "'s ota_storage_ops" and W :: "'s storage_view"
    and V :: "'v signature_scheme"
where
  ota_run_Nil: "ota_run t S W V e [] e"
| ota_run_Cons: "ota_step t S W V e ev r e1 \<Longrightarrow> stage_allowed (sv_journal W (oe_storage e)) ev \<Longrightarrow>
     ota_run t S W V e1 evs e' \<Longrightarrow> ota_run t S W V e ((ev, r) # evs) e'"

context ota_storage
begin

lemma run_sim:
  "ota_run t S W V e evs e' \<Longrightarrow> sv_ok W (oe_storage e) \<Longrightarrow>
   sv_ok W (oe_storage e') \<and> oe_signer e' = oe_signer e \<and>
   ab_run V (oe_signer e) (ab_of W e) evs (ab_of W e')"
proof (induction rule: ota_run.induct)
  case (ota_run_Nil e)
  then show ?case by (simp add: ab_run_Nil)
next
  case (ota_run_Cons e ev r e1 evs e')
  note step = step_sim [OF ota_run_Cons.hyps(1) ota_run_Cons.prems
      stage_allowed_slot [OF ota_run_Cons.hyps(2)]]
  moreover have "ab_allowed (ab_phase (ab_of W e)) ev"
    using ota_run_Cons.hyps(2) by (simp add: ab_of_def stage_allowed_phase)
  ultimately show ?case using ota_run_Cons.IH ab_run_Cons by metis
qed

lemma run_holds:
  assumes "ota_run t S W V e evs e'" "sv_ok W (oe_storage e)" "Commit \<notin> fst ` set evs" "a \<le> 1"
    "sv_journal W (oe_storage e) = (if a = 0 then ActiveSlot0 else ActiveSlot1)"
  shows "ab_holds a (phase_of (sv_journal W (oe_storage e')))"
    "sv_image W (oe_storage e') a = sv_image W (oe_storage e) a"
proof -
  have init: "ab_holds a (ab_phase (ab_of W e))" using assms(4,5) by (simp add: ab_of_def ab_holds_def)
  have "ab_run V (oe_signer e) (ab_of W e) evs (ab_of W e')" using run_sim [OF assms(1,2)] by simp
  from ab_run_holds [OF this assms(3,4) init] show "ab_holds a (phase_of (sv_journal W (oe_storage e')))"
    "sv_image W (oe_storage e') a = sv_image W (oe_storage e) a"
    using assms(4) by (simp_all add: ab_of_def)
qed

end


section \<open>Properties\<close>

text \<open>A run of the storage in memory: a package staged, promoted, and a restart in the trial.\<close>

definition demo_calls :: "update_package \<Rightarrow> u8 list \<Rightarrow> (ota_event \<times> (ota_error + u8 option)) list" where
  "demo_calls pkg sig =
     [(Stage pkg [0xAB] sig, Inr None), (Promote, Inr (Some 1)), (Reboot, Inr (Some 0))]"

lemma demo_run:
  assumes "make_package n v 1 [0xAB] = Ret (sig, pkg)" "e0 = ota_engine_new mem_storage_new v"
  shows "\<exists>e. ota_run host_debug (mem_ops host_debug) mem_view (demo_scheme n) e0
    (demo_calls pkg sig) e \<and> ms_state (oe_storage e) = ActiveSlot0"
proof -
  have "length [0xAB :: u8] \<le> SLOT_CAP" by (simp add: SLOT_CAP_def)
  note ver = make_package_verified [OF this assms(1), of host_debug mem_storage_new]
  then obtain slots where st: "ota_stage (mem_ops host_debug) (demo_scheme n) e0 pkg [0xAB] sig =
      Ret (Inr (), \<lparr>oe_storage = mem_storage_new\<lparr>ms_slots := slots, ms_state := Pending 1\<rparr>, oe_signer = v\<rparr>)"
    using mem_stage [of host_debug "demo_scheme n" mem_storage_new v pkg "[0xAB]" sig] mem_new_ok assms(2)
    by (auto simp: ota_engine_new_def host_debug_def)
  let ?e = "\<lambda>st. \<lparr>oe_storage = mem_storage_new\<lparr>ms_slots := slots, ms_state := st\<rparr>, oe_signer = v\<rparr>"
  have "ota_promote host_debug (mem_ops host_debug) (?e (Pending 1)) = Ret (Inr 1, ?e (Testing 1 0))"
    "ota_recover host_debug (mem_ops host_debug) (?e (Testing 1 0)) = Ret (Inr 0, ?e ActiveSlot0)"
    by (simp_all add: mem_journal_ops mem_recover)
  note steps = step_promote [OF this(1), of mem_view "demo_scheme n", unfolded map_sum.simps]
    step_reboot [OF this(2), of mem_view "demo_scheme n", unfolded map_sum.simps]
  have "ota_run host_debug (mem_ops host_debug) mem_view (demo_scheme n) (?e (Pending 1))
    [(Promote, Inr (Some 1)), (Reboot, Inr (Some 0))] (?e ActiveSlot0)"
    by (rule ota_run_Cons [OF steps(1) _ ota_run_Cons [OF steps(2) _ ota_run_Nil]]) simp_all
  moreover have "stage_allowed (sv_journal mem_view (oe_storage e0)) (Stage pkg [0xAB] sig)"
    using ver assms(2) by (simp add: mem_view_def ota_engine_new_def mem_storage_new_def)
  ultimately have "ota_run host_debug (mem_ops host_debug) mem_view (demo_scheme n) e0
    (demo_calls pkg sig) (?e ActiveSlot0)"
    unfolding demo_calls_def using ota_run_Cons [OF step_stage [OF st, unfolded map_sum.simps]] by blast
  then show ?thesis by (intro exI [of _ "?e ActiveSlot0"]) simp
qed

text \<open>C11: The engine refines an abstract A/B updater. Over every storage that keeps its promise, each
  operation on slots 0 and 1 (a staging of another slot is outside the contract), with failing writes and
  with power loss inside a staging, is a step of the abstract machine that reports the same result, an
  error or a slot, under the abstraction that forgets the storage, and leaves the storage in a state that
  keeps the promise. The machine stands still only with an error that fits its phase. So a run of the
  engine that stages with discipline (only while an image is committed, and into the other slot) is a run of
  the machine with the same calls and results.\<close>
theorem ota_refines_ab_updater:
  assumes "ota_storage S W" "sv_ok W (oe_storage e)"
  shows "(ota_step t S W V e ev r e' \<and> slot_in_range ev \<longrightarrow>
      sv_ok W (oe_storage e') \<and> ab_step V (oe_signer e) (ab_of W e) ev r (ab_of W e')) \<and>
    (ota_run t S W V e calls e' \<longrightarrow> ab_run V (oe_signer e) (ab_of W e) calls (ab_of W e'))"
  using ota_storage.step_sim [OF assms(1) _ assms(2)] ota_storage.run_sim [OF assms(1) _ assms(2)]
  by blast

lemma ota_refines_ab_updater_witness:
  "\<exists>pkg sig. \<exists>e :: (mem_storage, demo_signer) ota_engine. ms_state (oe_storage e) = ActiveSlot0 \<and>
    ab_run (demo_scheme 32) (demo_signer_new 7)
      (ab_of mem_view (ota_engine_new mem_storage_new (demo_signer_new 7)))
      (demo_calls pkg sig) (ab_of mem_view e)"
proof -
  let ?e = "ota_engine_new mem_storage_new (demo_signer_new 7)"
  obtain sig pkg where "make_package 32 (demo_signer_new 7) 1 [0xAB] = Ret (sig, pkg)"
    by (simp add: make_package_eq OTA_MAX_PAYLOAD_def Let_def)
  from demo_run [OF this refl] obtain e where
    run: "ota_run host_debug (mem_ops host_debug) mem_view (demo_scheme 32) ?e (demo_calls pkg sig) e"
    and st: "ms_state (oe_storage e) = ActiveSlot0" by blast
  have "sv_ok mem_view (oe_storage ?e)"
    using mem_new_ok by (simp add: mem_view_def ota_engine_new_def mem_storage_new_def)
  have "ab_run (demo_scheme 32) (oe_signer ?e) (ab_of mem_view ?e)
    (demo_calls pkg sig) (ab_of mem_view e)"
    by (rule mp [OF conjunct2 [OF ota_refines_ab_updater [OF mem.ota_storage_axioms
      \<open>sv_ok mem_view (oe_storage ?e)\<close>]] run])
  then show ?thesis
    using st by (intro exI [of _ pkg] exI [of _ sig] exI [of _ e]) (simp add: ota_engine_new_def)
qed

text \<open>C14: Nothing but a commit gives up the running image. From a vehicle with slot \<open>a\<close> committed, after
  any sequence of promotions, rollbacks, restarts and stagings (also torn ones, each while an image is
  committed and into the other slot) without a commit, storage writes failing at will: the image in
  slot \<open>a\<close> is byte for byte the same and it is committed or the one to fall back to. If then \<open>recover\<close>
  succeeds twice in a row, the second one reports slot \<open>a\<close>, which is committed again, with its image as
  it was.\<close>
theorem ota_running_image_intact_until_commit:
  assumes "ota_storage S W" "sv_ok W (oe_storage e)" "a \<le> 1"
    and "sv_journal W (oe_storage e) = (if a = 0 then ActiveSlot0 else ActiveSlot1)"
    and "ota_run t S W V e calls e'" "Commit \<notin> fst ` set calls"
  shows "sv_image W (oe_storage e') a = sv_image W (oe_storage e) a \<and>
    ab_holds a (phase_of (sv_journal W (oe_storage e'))) \<and>
    (\<forall>b c e1 e2. ota_recover t S e' = Ret (Inr b, e1) \<longrightarrow> ota_recover t S e1 = Ret (Inr c, e2) \<longrightarrow>
       c = a \<and> sv_journal W (oe_storage e2) = (if a = 0 then ActiveSlot0 else ActiveSlot1) \<and>
       sv_image W (oe_storage e2) a = sv_image W (oe_storage e) a)"
proof -
  note h = ota_storage.run_holds [OF assms(1,5,2,6,3,4)]
  have ok: "sv_ok W (oe_storage e')" using ota_storage.run_sim [OF assms(1,5,2)] by simp
  have "c = a \<and> sv_journal W (oe_storage e2) = (if a = 0 then ActiveSlot0 else ActiveSlot1) \<and>
      sv_image W (oe_storage e2) a = sv_image W (oe_storage e') a"
    if "ota_recover t S e' = Ret (Inr b, e1)" "ota_recover t S e1 = Ret (Inr c, e2)" for b c e1 e2
  proof -
    note r1 = ota_storage.recovered_by [OF assms(1) ok that(1)]
    note r2 = ota_storage.recovered_by [OF assms(1) r1(1) that(2)]
    from held_slot_returns [OF h(1) assms(3)] r1 r2 show ?thesis by simp
  qed
  with h show ?thesis by metis
qed

lemma ota_running_image_intact_until_commit_witness:
  "\<exists>pkg sig. \<exists>(e :: (mem_storage, demo_signer) ota_engine) e1 e2.
    ota_run host_debug (mem_ops host_debug) mem_view (demo_scheme 32)
      (ota_engine_new mem_storage_new (demo_signer_new 7)) (demo_calls pkg sig) e \<and>
    ota_recover host_debug (mem_ops host_debug) e = Ret (Inr 0, e1) \<and>
    ota_recover host_debug (mem_ops host_debug) e1 = Ret (Inr 0, e2) \<and>
    ms_slots (oe_storage e2) ! 0 = replicate SLOT_CAP 0"
proof -
  let ?e = "ota_engine_new mem_storage_new (demo_signer_new 7)"
  obtain sig pkg where "make_package 32 (demo_signer_new 7) 1 [0xAB] = Ret (sig, pkg)"
    by (simp add: make_package_eq OTA_MAX_PAYLOAD_def Let_def)
  from demo_run [OF this refl] obtain e where
    run: "ota_run host_debug (mem_ops host_debug) mem_view (demo_scheme 32) ?e (demo_calls pkg sig) e"
    and st: "ms_state (oe_storage e) = ActiveSlot0"
    by blast
  have start: "sv_ok mem_view (oe_storage ?e)" "sv_journal mem_view (oe_storage ?e) = (if 0 = (0 :: u8) then ActiveSlot0 else ActiveSlot1)"
    using mem_new_ok by (simp_all add: mem_view_def ota_engine_new_def mem_storage_new_def)
  have calls: "Commit \<notin> fst ` set (demo_calls pkg sig)" by (simp add: demo_calls_def)
  have "\<exists>e1 e2. ota_recover host_debug (mem_ops host_debug) e = Ret (Inr 0, e1) \<and>
      ota_recover host_debug (mem_ops host_debug) e1 = Ret (Inr 0, e2)"
    using mem_recover [of "oe_storage e" host_debug host_debug "oe_signer e"] st
      mem_recover [of "oe_storage e\<lparr>ms_state := ActiveSlot0\<rparr>" host_debug host_debug "oe_signer e"]
    by (cases e) simp
  then obtain e1 e2 where r: "ota_recover host_debug (mem_ops host_debug) e = Ret (Inr 0, e1)"
    "ota_recover host_debug (mem_ops host_debug) e1 = Ret (Inr 0, e2)" by blast
  then have "sv_image mem_view (oe_storage e2) 0 = sv_image mem_view (oe_storage ?e) 0"
    using ota_running_image_intact_until_commit [OF mem.ota_storage_axioms start(1) _ start(2) run calls] by simp
  then have "ms_slots (oe_storage e2) ! 0 = replicate SLOT_CAP 0"
    by (simp add: mem_view_def ota_engine_new_def mem_storage_new_def)
  with run r show ?thesis by blast
qed

end
