(* ===== verification/Cli_Main.thy ===== *)
theory Cli_Main
  imports Cli Diagnostics
begin

text \<open>
  \<open>cli/src/main.rs\<close> as a whole: the commands and what each does to the files and the output. Parsing the
  arguments is the work of \<open>clap\<close> (a command is a value of \<open>commands\<close>). What is outside the program is the
  record \<open>cli_env\<close>: the file system with its faults, whether a directory can be created, and the \<open>toml\<close>
  library (from the bytes of a database to the entries of its \<open>[[signal]]\<close> array, or \<open>None\<close> where the tool
  stops with a message). A path is its text; two spellings of one path count as two files.
\<close>


section \<open>Computations with files and output\<close>

record cli_env =
  ce_files :: file_system
  ce_mkdir :: "string \<Rightarrow> bool"
  ce_toml :: "u8 list \<Rightarrow> signal_entry list option"

record world =
  w_files :: files
  w_dirs :: "string set"
  w_out :: "string list"

text \<open>A panic ends the computation and leaves the world as it is then.\<close>

type_synonym 'a io = "world \<Rightarrow> 'a outcome \<times> world"

definition io_bind :: "'a io \<Rightarrow> ('a \<Rightarrow> 'b io) \<Rightarrow> 'b io" where
  "io_bind m k w = (case m w of (Panic, w') \<Rightarrow> (Panic, w') | (Ret x, w') \<Rightarrow> k x w')"

definition io_lift :: "'a outcome \<Rightarrow> 'a io" where
  "io_lift m w = (m, w)"

definition print_line :: "string \<Rightarrow> unit io" where
  "print_line s w = (Ret (), w\<lparr>w_out := w_out w @ [s]\<rparr>)"

text \<open>\<open>read(..).expect(..)\<close>, \<open>write(..).expect(..)\<close> and \<open>create_dir_all(..).expect(..)\<close>.\<close>

definition read_file :: "cli_env \<Rightarrow> string \<Rightarrow> u8 list io" where
  "read_file E p w = (if fs_open (ce_files E) (w_files w) p then expect_some (w_files w p) else Panic, w)"

definition write_file :: "cli_env \<Rightarrow> string \<Rightarrow> u8 list \<Rightarrow> unit io" where
  "write_file E p bytes w =
     (let (ok, m) = create_and_write (ce_files E) (w_files w) p bytes in
      (if ok then Ret () else Panic, w\<lparr>w_files := m\<rparr>))"

definition create_dirs :: "cli_env \<Rightarrow> string \<Rightarrow> unit io" where
  "create_dirs E p w = (if ce_mkdir E p then (Ret (), w\<lparr>w_dirs := insert p (w_dirs w)\<rparr>) else (Panic, w))"

lemma io_bind_simps [simp]:
  "io_bind (io_lift Panic) k w = (Panic, w)" "io_bind (io_lift (Ret x)) k w = k x w"
  "io_bind (print_line s) k' w = k' () (w\<lparr>w_out := w_out w @ [s]\<rparr>)"
  "io_bind (read_file E p) l w =
     (case w_files w p of Some bs \<Rightarrow> if fs_open (ce_files E) (w_files w) p then l bs w else (Panic, w)
      | None \<Rightarrow> (Panic, w))"
  "io_bind (write_file E p bs) k' w =
     (let (ok, m) = create_and_write (ce_files E) (w_files w) p bs; w' = w\<lparr>w_files := m\<rparr> in
      if ok then k' () w' else (Panic, w'))"
  "io_bind (create_dirs E p) k' w =
     (if ce_mkdir E p then k' () (w\<lparr>w_dirs := insert p (w_dirs w)\<rparr>) else (Panic, w))"
  by (simp_all add: io_bind_def io_lift_def print_line_def read_file_def write_file_def create_dirs_def
      Let_def split: option.split prod.split)


section \<open>Text and paths\<close>

definition text_bytes :: "string \<Rightarrow> u8 list" where
  "text_bytes s = map of_char s"

text \<open>The format \<open>{:?}\<close> of a slice of bytes.\<close>

fun comma_separated :: "string list \<Rightarrow> string" where
  "comma_separated [] = []"
| "comma_separated [s] = s"
| "comma_separated (s # t # ss) = s @ '', '' @ comma_separated (t # ss)"

definition show_bytes :: "u8 list \<Rightarrow> string" where
  "show_bytes bs = ''['' @ comma_separated (map (\<lambda>b. show_base 10 (unat b)) bs) @ '']''"

text \<open>\<open>Path::with_extension\<close>: the last component without the part after its last dot (a leading dot does
  not count), then the extension. A path that ends in a slash and a dot, which Rust reads as the
  directory before it, is left alone here.\<close>

definition file_stem :: "string \<Rightarrow> string" where
  "file_stem f =
     (let ext = takeWhile (\<lambda>c. c \<noteq> dot) (rev f); n = length f - Suc (length ext) in
      if dot \<notin> set f \<or> n = 0 then f else take n f)"

definition with_extension :: "string \<Rightarrow> string \<Rightarrow> string" where
  "with_extension p ext =
     (let q = rev (dropWhile (\<lambda>c. c = slash) (rev p));
          f = rev (takeWhile (\<lambda>c. c \<noteq> slash) (rev q)) in
      if f = [] \<or> f = [dot] \<or> f = [dot, dot] then p
      else take (length q - length f) q @ file_stem f @ [dot] @ ext)"


section \<open>The data provider of \<open>diag\<close>\<close>

record prov_data =
  pv_store :: "u8 list"

definition prov_did_read_len :: "prov_data \<Rightarrow> u16 \<Rightarrow> nat option" where
  "prov_did_read_len d did = (if did = 0x0001 then Some 2 else None)"

definition prov_did_read :: "prov_data \<Rightarrow> u16 \<Rightarrow> u8 list \<Rightarrow> u8 list outcome" where
  "prov_did_read d did out =
     outcome_bind (slice_to (pv_store d) (length out)) (\<lambda>src. copy_into out 0 (length out) src)"

definition prov_did_write :: "prov_data \<Rightarrow> u16 \<Rightarrow> u8 list \<Rightarrow> (bool \<times> prov_data) outcome" where
  "prov_did_write d did data =
     outcome_bind (copy_into (pv_store d) 0 (length data) data) (\<lambda>store.
     Ret (True, d\<lparr>pv_store := store\<rparr>))"

definition prov_provider :: "prov_data uds_data_provider" where
  "prov_provider =
     \<lparr>dp_did_read_len = prov_did_read_len, dp_did_read = prov_did_read,
      dp_did_write = prov_did_write\<rparr>"

definition prov_data_new :: prov_data where
  "prov_data_new = \<lparr>pv_store = replicate 32 0\<rparr>"

interpretation prov: uds_provider prov_provider
  "\<lambda>d did. take (case prov_did_read_len d did of Some n \<Rightarrow> n | None \<Rightarrow> 0) (pv_store d)"
  "\<lambda>d. length (pv_store d) = 32"
  by unfold_locales
    (auto simp: prov_provider_def prov_did_read_def prov_did_write_def prov_did_read_len_def outcome_simps
      split: if_splits)

text \<open>Unlike the provider of the example it does not check the length: a write of more than 32 bytes
  panics. No request of one frame is that long.\<close>

lemma prov_write_panics_iff:
  "length (pv_store d) = 32 \<Longrightarrow> prov_did_write d did data = Panic \<longleftrightarrow> 32 < length data"
  by (auto simp: prov_did_write_def outcome_simps)


section \<open>The commands\<close>

definition cargo_toml :: "string \<Rightarrow> string" where
  "cargo_toml name =
     ''[package]'' @ newline @ ''name = '' @ quote_mark @ name @ quote_mark @ newline @
     ''version = '' @ quote_mark @ ''0.1.0'' @ quote_mark @ newline @
     ''edition = '' @ quote_mark @ ''2021'' @ quote_mark @ newline @
     ''license = '' @ quote_mark @ ''MIT OR Apache-2.0'' @ quote_mark @ newline @ newline @
     ''[dependencies]'' @ newline @
     ''tpt-chassis-core = { path = '' @ quote_mark @ ''../core'' @ quote_mark @ '', version = '' @
       quote_mark @ ''0.1.0'' @ quote_mark @ '' }'' @ newline @
     ''tpt-chassis-sim = { path = '' @ quote_mark @ ''../sim'' @ quote_mark @ '', version = '' @
       quote_mark @ ''0.1.0'' @ quote_mark @ '' }'' @ newline"

definition main_rs :: string where
  "main_rs =
     ''fn main() {'' @ newline @ ''    println!('' @ quote_mark @
     ''TODO: build your ECU on TPT Chassis'' @ quote_mark @ '');'' @ newline @ ''}'' @ newline"

definition cmd_new :: "cli_env \<Rightarrow> string \<Rightarrow> unit io" where
  "cmd_new E name =
     io_bind (create_dirs E (path_join name ''src'')) (\<lambda>_.
     io_bind (write_file E (path_join name ''Cargo.toml'') (text_bytes (cargo_toml name))) (\<lambda>_.
     io_bind (write_file E (path_join name ''src/main.rs'') (text_bytes main_rs)) (\<lambda>_.
     print_line (''scaffolded new ECU crate in ./'' @ name))))"

definition cmd_sim_io :: "unit io" where
  "cmd_sim_io =
     io_bind (io_lift cmd_sim) (\<lambda>(sent, received, data).
     print_line (''sim: sent id=0x'' @ show_base 16 (unat sent) @ '', received id=0x'' @
       show_base 16 (unat received) @ '' data='' @ show_bytes data))"

definition cmd_ota_sign_io :: "cli_env \<Rightarrow> nat \<Rightarrow> string \<Rightarrow> u32 \<Rightarrow> u8 \<Rightarrow> unit io" where
  "cmd_ota_sign_io E n payload key slot =
     io_bind (read_file E payload) (\<lambda>bytes.
     io_bind (io_lift (cmd_ota_sign n bytes key slot)) (\<lambda>(slot, len, sig).
     print_line (''ota sign: slot='' @ show_base 10 (unat slot) @ '' payload_len='' @ show_base 10 len @
       '' signature='' @ sig)))"

definition cmd_ota_stage_io :: "cli_env \<Rightarrow> nat \<Rightarrow> string \<Rightarrow> u32 \<Rightarrow> u8 \<Rightarrow> unit io" where
  "cmd_ota_stage_io E n payload key slot =
     io_bind (read_file E payload) (\<lambda>bytes.
     io_bind (io_lift (cmd_ota_stage n bytes key slot)) (\<lambda>out.
     let pkg_path = with_extension payload ''pkg'' in
     io_bind (write_file E pkg_path out) (\<lambda>_.
     print_line (''ota stage: wrote '' @ pkg_path @ '' ('' @ show_base 10 (length out) @ '' bytes)''))))"

text \<open>One round of the request loop of \<open>cmd_diag\<close> on the bus, and the loop with what it prints.\<close>

definition diag_round :: "sim_can_network \<Rightarrow> prov_data uds_server \<Rightarrow> can_id \<Rightarrow> can_id \<Rightarrow> u8 list \<Rightarrow>
    (u8 list \<times> sim_can_network \<times> prov_data uds_server) outcome" where
  "diag_round n s ecu_id resp_id req =
     outcome_bind (send_data n 0 ecu_id req) (\<lambda>n.
     outcome_bind (serve_request prov_provider n s resp_id) (\<lambda>(data, k, n, s).
     outcome_bind (slice_to data k) (\<lambda>shown. Ret (shown, n, s))))"

fun diag_loop :: "sim_can_network \<Rightarrow> prov_data uds_server \<Rightarrow> can_id \<Rightarrow> can_id \<Rightarrow> u8 list list \<Rightarrow> unit io" where
  "diag_loop n s ecu_id resp_id [] = io_lift (Ret ())"
| "diag_loop n s ecu_id resp_id (req # reqs) =
     io_bind (io_lift (diag_round n s ecu_id resp_id req)) (\<lambda>(shown, n, s).
     io_bind (print_line (''diag: req='' @ show_bytes req @ '' -> resp='' @ show_bytes shown)) (\<lambda>_.
     diag_loop n s ecu_id resp_id reqs))"

definition cmd_diag :: "unit io" where
  "cmd_diag =
     io_bind (io_lift (expect_some (can_id_standard 0x7E0))) (\<lambda>ecu_id.
     io_bind (io_lift (expect_some (can_id_standard 0x7E8))) (\<lambda>resp_id.
     diag_loop can_pair (uds_server_new prov_data_new) ecu_id resp_id
       [[0x10, 0x03], [0x22, 0x00, 0x01], [0x3E, 0x00]]))"

definition cmd_signals ::
  "cli_env \<Rightarrow> string \<Rightarrow> string option \<Rightarrow> unit io" where
  "cmd_signals E db out =
     io_bind (read_file E db) (\<lambda>text.
     io_bind (io_lift (expect_some (ce_toml E text))) (\<lambda>signals.
     let code = signals_code signals in
     case out of
       Some path \<Rightarrow>
         io_bind (write_file E path (text_bytes code)) (\<lambda>_.
         print_line (''signals: generated '' @ show_base 10 (length signals) @ '' accessors -> '' @ path))
     | None \<Rightarrow> print_line code))"

datatype ota_cmd = OtaSign string u32 u8 | OtaStage string u32 u8

datatype commands = NewCrate string | SimCmd | OtaCmd ota_cmd | DiagCmd | SignalsCmd string "string option"

fun cli_main :: "cli_env \<Rightarrow> nat \<Rightarrow> commands \<Rightarrow> unit io" where
  "cli_main E n (NewCrate name) = cmd_new E name"
| "cli_main E n SimCmd = cmd_sim_io"
| "cli_main E n (OtaCmd (OtaSign payload key slot)) = cmd_ota_sign_io E n payload key slot"
| "cli_main E n (OtaCmd (OtaStage payload key slot)) = cmd_ota_stage_io E n payload key slot"
| "cli_main E n DiagCmd = cmd_diag"
| "cli_main E n (SignalsCmd db out) = cmd_signals E db out"



section \<open>What the commands do\<close>

text \<open>The files a command names as its own output.\<close>

fun cli_targets :: "commands \<Rightarrow> string set" where
  "cli_targets (NewCrate name) = {path_join name ''Cargo.toml'', path_join name ''src/main.rs''}"
| "cli_targets (OtaCmd (OtaStage payload key slot)) = {with_extension payload ''pkg''}"
| "cli_targets (SignalsCmd db (Some path)) = {path}"
| "cli_targets c = {}"

text \<open>A computation that changes no file outside \<open>T\<close>, removes no directory and only adds to the output.\<close>

definition io_within :: "string set \<Rightarrow> 'a io \<Rightarrow> bool" where
  "io_within T m \<longleftrightarrow>
     (\<forall>w. {p. w_files (snd (m w)) p \<noteq> w_files w p} \<subseteq> T \<and> w_dirs w \<subseteq> w_dirs (snd (m w)) \<and>
          prefix (w_out w) (w_out (snd (m w))))"

lemma io_within_bind:
  assumes "io_within T m" "\<And>x. io_within T (k x)"
  shows "io_within T (io_bind m k)"
  unfolding io_within_def
proof
  fix w
  obtain r w' where m: "m w = (r, w')" by (cases "m w")
  have 1: "{p. w_files w' p \<noteq> w_files w p} \<subseteq> T" "w_dirs w \<subseteq> w_dirs w'" "prefix (w_out w) (w_out w')"
    using assms(1) [unfolded io_within_def, rule_format, of w] by (simp_all add: m)
  show "{p. w_files (snd (io_bind m k w)) p \<noteq> w_files w p} \<subseteq> T \<and> w_dirs w \<subseteq> w_dirs (snd (io_bind m k w)) \<and>
      prefix (w_out w) (w_out (snd (io_bind m k w)))"
  proof (cases r)
    case Panic
    then show ?thesis using 1 by (simp add: io_bind_def m)
  next
    case (Ret x)
    have 2: "{p. w_files (snd (k x w')) p \<noteq> w_files w' p} \<subseteq> T" "w_dirs w' \<subseteq> w_dirs (snd (k x w'))"
      "prefix (w_out w') (w_out (snd (k x w')))"
      using assms(2) [of x, unfolded io_within_def, rule_format, of w'] by simp_all
    have "snd (io_bind m k w) = snd (k x w')" by (simp add: io_bind_def m Ret)
    moreover have "{p. w_files (snd (k x w')) p \<noteq> w_files w p} \<subseteq> T"
    proof
      fix p assume "p \<in> {p. w_files (snd (k x w')) p \<noteq> w_files w p}"
      then show "p \<in> T" using 1(1) 2(1) by (cases "w_files w' p = w_files w p") auto
    qed
    ultimately show ?thesis using 1(2) 2(2) prefix_order.trans [OF 1(3) 2(3)] by auto
  qed
qed

lemma io_within_steps [simp]:
  "io_within T (io_lift r)" "io_within T (print_line s)" "io_within T (read_file E p)"
  "p \<in> T \<Longrightarrow> io_within T (write_file E p bs)" "io_within T (create_dirs E p)"
  by (auto simp: io_within_def io_lift_def print_line_def read_file_def write_file_def create_dirs_def Let_def
      create_and_write_def split: prod.split write_result.splits if_splits)

lemma io_within_cond [simp]:
  "\<lbrakk>\<And>x y. io_within T (f x y)\<rbrakk> \<Longrightarrow> io_within T (case q of (x, y) \<Rightarrow> f x y)"
  by (cases q) simp

lemma diag_loop_within: "io_within T (diag_loop n s i j reqs)"
  by (induction reqs arbitrary: n s) (auto intro!: io_within_bind split: prod.split)

lemma cli_main_within: "io_within (cli_targets c) (cli_main E n c)"
  by (cases "(E, n, c)" rule: cli_main.cases)
    (auto simp: cmd_new_def cmd_sim_io_def cmd_ota_sign_io_def cmd_ota_stage_io_def cmd_diag_def
      cmd_signals_def Let_def diag_loop_within intro!: io_within_bind split: prod.split option.split)


text \<open>One round of \<open>diag\<close> is one answer of the server; a request it does not answer stops the tool.\<close>

lemma diag_round_eq:
  assumes "length (pv_store (us_data s)) = 32" "quiet_pair n" "length req \<le> CAN_MAX_DLC"
    and ids: "can_id_standard 0x7E0 = Some ecu_id" "can_id_standard 0x7E8 = Some resp_id"
  shows "diag_round n s ecu_id resp_id req =
    outcome_bind (wire_reply (uds_answer prov_provider
      (\<lambda>d did. take (case prov_did_read_len d did of Some n \<Rightarrow> n | None \<Rightarrow> 0) (pv_store d)) s req))
      (\<lambda>(data, s'). Ret (data, n, s'))"
proof -
  obtain f n' where n': "send_data n 0 ecu_id req = Ret n'" "take_frame n' 1 = Ret (f, n)"
    "can_frame_data f = Ret req"
    by (rule quiet_hop [OF assms(2) _ standard_ok [OF ids(1)] assms(3), of 0]) simp_all
  then show ?thesis
    using prov.serve_request_eq [OF assms(1,2) ids(2) n'(2,3)]
    by (cases "wire_reply (uds_answer prov_provider
          (\<lambda>d did. take (case prov_did_read_len d did of Some n \<Rightarrow> n | None \<Rightarrow> 0) (pv_store d)) s req)")
      (auto simp: diag_round_def)
qed

lemma prov_fields:
  "dp_did_read_len prov_provider = prov_did_read_len" "dp_did_write prov_provider = prov_did_write"
  by (simp_all add: prov_provider_def)

lemma show_requests:
  "show_bytes [0x10, 3] = ''[16, 3]''" "show_bytes [0x50, 3, 0, 0x32] = ''[80, 3, 0, 50]''"
  "show_bytes [0x22, 0, 1] = ''[34, 0, 1]''" "show_bytes [0x62, 0, 1, 0, 0] = ''[98, 0, 1, 0, 0]''"
  "show_bytes [0x3E, 0] = ''[62, 0]''" "show_bytes [0x7E, 0] = ''[126, 0]''"
  "show_bytes [0xDE, 0xAD, 0xBE, 0xEF] = ''[222, 173, 190, 239]''" "show_base 16 256 = ''100''"
  by code_simp+


text \<open>\<open>ota stage\<close> on a payload it can read and a path it can write.\<close>

lemma cmd_ota_stage_io_eq:
  assumes "w_files w payload = Some bytes" "fs_open (ce_files E) (w_files w) payload"
  shows "cmd_ota_stage_io E n payload key slot w =
    (let p = \<lparr>up_slot = slot, up_payload_len = of_nat (length bytes)\<rparr>;
         out = package_header p @ bytes @ demo_hash n (demo_signer_new key) (package_message p bytes);
         path = with_extension payload ''pkg'';
         (ok, m) = create_and_write (ce_files E) (w_files w) path out in
     if ok
     then (Ret (), w\<lparr>w_files := m,
       w_out := w_out w @ [''ota stage: wrote '' @ path @ '' ('' @ show_base 10 (length out) @ '' bytes)'']\<rparr>)
     else (Panic, w\<lparr>w_files := m\<rparr>))"
  using assms by (simp add: cmd_ota_stage_io_def cmd_ota_stage_eq Let_def print_line_def split: prod.split)

text \<open>A machine on which nothing fails.\<close>

definition calm_env :: cli_env where
  "calm_env = \<lparr>ce_files = writable_files (\<lambda>_. True), ce_mkdir = \<lambda>_. True, ce_toml = \<lambda>_. None\<rparr>"

lemma extension_examples:
  "with_extension ''out/fw.bin'' ''pkg'' = ''out/fw.pkg''" "with_extension ''fw'' ''pkg'' = ''fw.pkg''"
  "with_extension ''fw.pkg'' ''pkg'' = ''fw.pkg''" "with_extension ''a.b/.cfg'' ''pkg'' = ''a.b/.cfg.pkg''"
  by code_simp+


section \<open>Properties\<close>

text \<open>C16: From the tool to the vehicle: \<open>ota stage\<close> on a payload that can be read and fits a slot, for slot 0 or 1, with a package that can be written,
  writes one file, the package beside the payload. An ECU with the same key that takes this file apart stages, promotes and
  commits the update; then its active slot is the one of the command and holds the payload, and the
  other slot still holds the old image.\<close>
theorem tool_package_installs:
  assumes "w_files w payload = Some bytes" "fs_open (ce_files E) (w_files w) payload"
    and "\<forall>bs. fs_write (ce_files E) (w_files w) (with_extension payload ''pkg'') bs = Written"
    and "length bytes \<le> SLOT_CAP" "slot \<le> 1" "32 \<le> usize_bits t" "slots_ok SLOT_CAP (ms_slots s)"
  shows "\<exists>w' written p sig e1 e2 e3.
    cli_main E n (OtaCmd (OtaStage payload key slot)) w = (Ret (), w') \<and>
    w_files w' = (w_files w)(with_extension payload ''pkg'' \<mapsto> written) \<and>
    read_package_file written = Some (p, bytes, sig) \<and>
    ota_stage (mem_ops t) (demo_scheme n) (ota_engine_new s (demo_signer_new key)) p bytes sig = Ret (Inr (), e1) \<and>
    ota_promote t (mem_ops t) e1 = Ret (Inr slot, e2) \<and>
    ota_commit (mem_ops t) e2 = Ret (Inr slot, e3) \<and>
    ota_state (mem_ops t) e3 = Inr (if slot = 0 then ActiveSlot0 else ActiveSlot1) \<and>
    take (length bytes) (ms_slots (oe_storage e3) ! unat slot) = bytes \<and>
    ms_slots (oe_storage e3) ! unat (1 - slot) = ms_slots s ! unat (1 - slot)"
proof -
  let ?p = "\<lparr>up_slot = slot, up_payload_len = of_nat (length bytes)\<rparr>"
  let ?sig = "demo_hash n (demo_signer_new key) (package_message ?p bytes)"
  let ?written = "package_header ?p @ bytes @ ?sig"
  have fits: "length bytes \<le> OTA_MAX_PAYLOAD" "length bytes \<le> os_slot_capacity (mem_ops t) s"
    "length bytes < 2 ^ 32"
    using assms(4) by (simp_all add: SLOT_CAP_def OTA_MAX_PAYLOAD_def mem_ops_def mem_slot_capacity_def)
  have read: "read_package_file ?written = Some (?p, bytes, ?sig)"
    using read_package_file_written [OF _ fits(3), of n key slot ?written] assms(5)
    by (simp add: cmd_ota_stage_eq Let_def)
  have ver: "stage_verified (mem_ops t) (demo_scheme n)
      \<lparr>oe_storage = s, oe_signer = demo_signer_new key\<rparr> ?p bytes ?sig"
    using cli_signature_verified [OF fits(1,2) refl] by (simp add: ota_engine_new_def)
  obtain e1 e2 e3 where life:
    "ota_stage (mem_ops t) (demo_scheme n) (ota_engine_new s (demo_signer_new key)) ?p bytes ?sig = Ret (Inr (), e1)"
    "ota_promote t (mem_ops t) e1 = Ret (Inr slot, e2)" "ota_commit (mem_ops t) e2 = Ret (Inr slot, e3)"
    "ota_state (mem_ops t) e3 = Inr (if slot = 0 then ActiveSlot0 else ActiveSlot1)"
    "take (length bytes) (ms_slots (oe_storage e3) ! unat slot) = bytes"
    "ms_slots (oe_storage e3) ! unat (1 - slot) = ms_slots s ! unat (1 - slot)"
    using mem_lifecycle [OF ver assms(7) _ assms(6)] assms(5) by (auto simp: ota_engine_new_def)
  obtain w' where w': "cmd_ota_stage_io E n payload key slot w = (Ret (), w')"
    "w_files w' = (w_files w)(with_extension payload ''pkg'' \<mapsto> ?written)"
    using assms(3) by (simp add: cmd_ota_stage_io_eq [OF assms(1,2)] create_and_write_def Let_def)
  show ?thesis
    by (intro exI [of _ w'] exI [of _ ?written] exI [of _ ?p] exI [of _ ?sig] exI [of _ e1]
        exI [of _ e2] exI [of _ e3]) (simp add: w' read life)
qed

lemma tool_package_installs_witness:
  "\<exists>w' written. \<exists>e1 :: (mem_storage, demo_signer) ota_engine. cli_main calm_env 32 (OtaCmd (OtaStage ''fw.bin'' 0xCAFE 1))
     \<lparr>w_files = [''fw.bin'' \<mapsto> [0xAB]], w_dirs = {}, w_out = []\<rparr> = (Ret (), w') \<and>
   w_files w' ''fw.pkg'' = Some written \<and> ota_state (mem_ops host_debug) e1 = Inr ActiveSlot1 \<and>
   take 1 (ms_slots (oe_storage e1) ! 1) = [0xAB]"
proof -
  let ?w = "\<lparr>w_files = [''fw.bin'' \<mapsto> [0xAB]], w_dirs = {}, w_out = []\<rparr>"
  have e: "with_extension ''fw.bin'' ''pkg'' = ''fw.pkg''" by code_simp
  have prems: "w_files ?w ''fw.bin'' = Some [0xAB]" "fs_open (ce_files calm_env) (w_files ?w) ''fw.bin''"
    "\<forall>bs. fs_write (ce_files calm_env) (w_files ?w) (with_extension ''fw.bin'' ''pkg'') bs = Written"
    "length [0xAB::u8] \<le> SLOT_CAP" "32 \<le> usize_bits host_debug"
    by (simp_all add: SLOT_CAP_def host_debug_def calm_env_def)
  obtain w' written and e3 :: "(mem_storage, demo_signer) ota_engine" where
    "cli_main calm_env 32 (OtaCmd (OtaStage ''fw.bin'' 0xCAFE 1)) ?w = (Ret (), w')"
    "w_files w' = (w_files ?w)(with_extension ''fw.bin'' ''pkg'' \<mapsto> written)"
    "ota_state (mem_ops host_debug) e3 = Inr (if (1::u8) = 0 then ActiveSlot0 else ActiveSlot1)"
    "take (length [0xAB::u8]) (ms_slots (oe_storage e3) ! unat (1::u8)) = [0xAB]"
    using tool_package_installs [where payload = "''fw.bin''" and bytes = "[0xAB]" and t = host_debug
        and w = ?w and E = calm_env and slot = 1 and s = mem_storage_new and n = 32
        and key = "0xCAFE", OF prems(1,2,3,4) order_refl prems(5) mem_new_ok]
    by blast
  then show ?thesis
    by (intro exI [of _ w'] exI [of _ written] exI [of _ e3]) (simp add: e del: cli_main.simps)
qed

text \<open>On a payload whose name already ends in \<open>.pkg\<close> the package replaces the payload.\<close>
theorem tool_stage_replaces_payload:
  "\<exists>written. w_files (snd (cli_main calm_env n (OtaCmd (OtaStage ''fw.pkg'' key slot))
       \<lparr>w_files = [''fw.pkg'' \<mapsto> bytes], w_dirs = {}, w_out = []\<rparr>)) ''fw.pkg'' = Some written \<and>
     length written = HEADER_LEN + length bytes + n"
  using extension_examples(3)
  by (simp add: cmd_ota_stage_io_eq calm_env_def Let_def HEADER_LEN_def demo_hash_def)

text \<open>C40: The tool writes only what its arguments name. Whatever a command does, and wherever it stops, the
  files that differ afterwards are among its targets (the two files of a new crate, the package beside
  the payload, the output of \<open>signals\<close>), no directory goes, and what was printed stays.\<close>
theorem cli_writes_only_its_targets:
  "{p. w_files (snd (cli_main E n c w)) p \<noteq> w_files w p} \<subseteq> cli_targets c \<and>
   w_dirs w \<subseteq> w_dirs (snd (cli_main E n c w)) \<and>
   prefix (w_out w) (w_out (snd (cli_main E n c w)))"
  using cli_main_within unfolding io_within_def by blast

text \<open>The demonstrations run to their end and change no file: \<open>diag\<close> prints the three requests with
  the answers of its server (extended session, identifier 1, tester present), and \<open>sim\<close> the frame it sent
  as the one received.\<close>
theorem cli_demos_print:
  "cli_main E n DiagCmd w = (Ret (), w\<lparr>w_out := w_out w @
     [''diag: req=[16, 3] -> resp=[80, 3, 0, 50]'', ''diag: req=[34, 0, 1] -> resp=[98, 0, 1, 0, 0]'',
      ''diag: req=[62, 0] -> resp=[126, 0]'']\<rparr>) \<and>
   cli_main E n SimCmd w = (Ret (), w\<lparr>w_out := w_out w @
     [''sim: sent id=0x100, received id=0x100 data=[222, 173, 190, 239]'']\<rparr>)"
  by (simp add: cmd_diag_def cmd_sim_io_def diag_ids diag_round_eq can_pair_quiet CAN_MAX_DLC_def
      uds_server_new_def prov_data_new_def uds_answer_def uds_service_from_u8_def prov_fields
      prov_did_read_len_def tester_present_answer_def demo_dids two_zeros show_requests demo_pair_delivers
      io_lift_def print_line_def)

end
