(* ===== verification/Ecu_Template.thy ===== *)
theory Ecu_Template
  imports Can_Link Autosar Autonomy
begin

text \<open>
  The starter program \<open>templates/ecu-crate/src/main.rs\<close>, less what it prints: it decodes a lane offset from
  a payload, puts it on the bus, and sends ten times the offset as a steering command. The payload
  and the offset it asserts are constants of the file; they are arguments here, since a user of the
  template replaces them by what the vehicle sends.
\<close>


section \<open>The program\<close>

text \<open>\<open>u64::to_le_bytes\<close>, and \<open>as i64 * 10\<close> followed by \<open>as u64\<close>.\<close>

definition le_bytes64 :: "u64 \<Rightarrow> u8 list" where
  "le_bytes64 w = map (\<lambda>i. ucast (drop_bit (8 * i) w)) [0..<8]"

definition steering_word :: "target \<Rightarrow> i16 \<Rightarrow> u64 outcome" where
  "steering_word t offset =
     arith t (- (2 ^ 63) \<le> sint offset * 10 \<and> sint offset * 10 < 2 ^ 63) (scast offset * 10)"

definition ecu_template_run :: "target \<Rightarrow> u64 \<Rightarrow> i16 \<Rightarrow> (i16 \<times> u32 \<times> i16) outcome" where
  "ecu_template_run t payload want =
     (let (node, n) = sim_can_attach sim_can_network_new in
      outcome_bind (expect_some (signal_new 0 16)) (\<lambda>lane_offset.
      outcome_bind (expect_some (can_id_standard 0x200)) (\<lambda>cid.
      outcome_bind (signal_unpack t lane_offset payload) (\<lambda>raw.
      let offset_cm = ucast raw in
      outcome_bind (assert_that (offset_cm = want)) (\<lambda>_.
      outcome_bind (slice_to (le_bytes64 payload) 2) (\<lambda>bytes.
      outcome_bind (send_data n 0 cid bytes) (\<lambda>n.
      outcome_bind (expect_some (signal_new 0 16)) (\<lambda>steer.
      outcome_bind (steering_word t offset_cm) (\<lambda>v.
      outcome_bind (signal_pack t steer 0 v) (\<lambda>packed.
      outcome_bind (expect_some packed) (\<lambda>cmd_word.
      outcome_bind (expect_some (can_id_standard 0x300)) (\<lambda>out_id.
      outcome_bind (slice_to (le_bytes64 cmd_word) 2) (\<lambda>bytes.
      outcome_bind (send_data n 0 out_id bytes) (\<lambda>n.
      outcome_bind (i16_mul t offset_cm 10) (\<lambda>shown.
      Ret (offset_cm, can_id_raw cid, shown))))))))))))))))"

definition ecu_template :: "target \<Rightarrow> unit outcome" where
  "ecu_template t = outcome_bind (ecu_template_run t 0x0014 20) (\<lambda>printed. Ret ())"


section \<open>A node alone on the network\<close>

lemma lone_send_data:
  assumes "scn_nodes n = [[]]" "\<not> scn_bus_off n" "can_id_ok cid" "length data \<le> CAN_MAX_DLC"
  shows "send_data n 0 cid data = Ret n"
proof -
  obtain f where f: "can_frame_new cid data = Ret (Some f)"
    using assms(4) by (simp add: can_frame_new_small)
  have "node_transmit n 0 f = (Inr (), n)"
    using assms(1,2) can_frame_ok_validates [OF can_frame_new_ok [OF f assms(3)]]
    by (cases n) (simp add: node_defs Let_def broadcast_queues_def)
  then show ?thesis by (simp add: send_data_def f)
qed


section \<open>Offsets\<close>

lemma steering_word_eq: "steering_word t offset = Ret (scast offset * 10)"
proof -
  have "- 32768 \<le> sint offset" "sint offset < 32768"
    using sint_ge [of offset] sint_lt [of offset] by simp_all
  then show ?thesis by (simp add: steering_word_def)
qed

lemma steering_word_fits:
  "unat (scast (offset :: i16) * 10 :: u64) < 65536 \<longleftrightarrow> 0 \<le> sint offset \<and> sint offset * 10 < 65536"
proof -
  have r: "- 32768 \<le> sint offset" "sint offset < 32768"
    using sint_ge [of offset] sint_lt [of offset] by simp_all
  have "(scast offset * 10 :: u64) = word_of_int (sint offset * 10)"
    by (simp only: scast_eq of_int_mult of_int_numeral)
  then have u: "uint (scast offset * 10 :: u64) = (sint offset * 10) mod 2 ^ 64"
    by (simp only: unsigned_of_int take_bit_eq_mod len_num0 len_bit0 len_num1) simp
  have "unat (scast offset * 10 :: u64) < 65536 \<longleftrightarrow> uint (scast offset * 10 :: u64) < 65536"
    by (simp only: unat_eq_nat_uint nat_less_iff uint_ge_0) simp
  also have "\<dots> \<longleftrightarrow> 0 \<le> sint offset \<and> sint offset * 10 < 65536"
  proof (cases "0 \<le> sint offset")
    case True
    then show ?thesis using r unfolding u by simp
  next
    case False
    have "(sint offset * 10) mod 2 ^ 64 = (sint offset * 10 + 2 ^ 64) mod 2 ^ 64" by simp
    also have "\<dots> = sint offset * 10 + 2 ^ 64"
      using r False by (intro mod_pos_pos_trivial) auto
    also have "\<dots> \<ge> 65536" using r by simp
    finally have "\<not> (sint offset * 10) mod 2 ^ 64 < 65536" by (simp only: not_less)
    then show ?thesis using False unfolding u by blast
  qed
  finally show ?thesis .
qed

text \<open>The frames carry two bytes, so both are always sent.\<close>

lemma template_ids:
  "can_id_standard 0x200 = Some \<lparr>cid_raw = 0x200, cid_extended = False\<rparr>"
  "can_id_standard 0x300 = Some \<lparr>cid_raw = 0x300, cid_extended = False\<rparr>"
  by (simp_all add: can_id_standard_def STANDARD_MAX_def)

lemma sixteen_bits:
  "signal_new 0 16 = Some \<lparr>sig_start_bit = 0, sig_length = 16\<rparr>" "signal_ok \<lparr>sig_start_bit = 0, sig_length = 16\<rparr>"
  by (simp_all add: signal_new_def signal_ok_def)


section \<open>Properties\<close>

text \<open>C39: The starter program runs to its end on every target. On other payloads it decodes the low sixteen
  bits as a signed offset and needs an offset that is not negative: the steering command is packed
  as an unsigned number, so every offset to the other side panics, as does one above 3276 (6553 in a
  release build).\<close>
theorem ecu_template_steers_one_way:
  "ecu_template t = Ret () \<and>
   ecu_template_run t payload (ucast payload) =
     (if 0 \<le> sint (ucast payload :: i16) \<and>
         sint (ucast payload :: i16) * 10 \<le> (if overflow_checks t then 32767 else 65535)
      then Ret (ucast payload, 0x200, ucast payload * 10) else Panic)"
proof -
  let ?n = "sim_can_network_new\<lparr>scn_nodes := [[]]\<rparr>"
  have n: "sim_can_attach sim_can_network_new = (0, ?n)" "scn_nodes ?n = [[]]" "\<not> scn_bus_off ?n"
    by (simp_all add: sim_can_attach_def sim_can_network_new_def Let_def)
  note send = lone_send_data [OF n(2,3)]
  have run: "ecu_template_run t payload (ucast payload) =
     (if 0 \<le> sint (ucast payload :: i16) \<and>
         sint (ucast payload :: i16) * 10 \<le> (if overflow_checks t then 32767 else 65535)
      then Ret (ucast payload, 0x200, ucast payload * 10) else Panic)" for payload
  proof -
    have "ucast (take_bit 16 payload) = (ucast payload :: i16)"
      by (intro bit_word_eqI) (simp add: bit_simps)
    then show ?thesis
      by (auto simp: ecu_template_run_def n(1) sixteen_bits template_ids signal_unpack_eq signal_pack_eq
          steering_word_eq steering_word_fits send can_id_constructors_ok(1) [OF template_ids(1)]
          can_id_constructors_ok(1) [OF template_ids(2)] le_bytes64_def CAN_MAX_DLC_def can_id_raw_def
          i16_mul_def arith_def Let_def)
  qed
  show ?thesis using run [of "0x14"] run [of payload] by (simp add: ecu_template_def)
qed

end
