(* ===== verification/Isotp_Refine.thy ===== *)
theory Isotp_Refine
  imports Isotp
begin

text \<open>
  \<open>IsoTpLink::feed\<close> of \<open>core/src/isotp.rs\<close> against an abstract receiver: frames are parsed into the
  protocol units of ISO 15765-2, and the receiver is either idle or has a list of bytes, the announced
  length and the next sequence number. The buffer, the fill level and the flag of the link are gone;
  what is left over from earlier messages cannot matter.
\<close>


section \<open>The abstract receiver\<close>

datatype isotp_pdu =
    Single_Frame "u8 list"
  | First_Frame nat "u8 list option"
  | Consecutive_Frame nat "u8 list"
  | Malformed

definition parse_pdu :: "u8 list \<Rightarrow> isotp_pdu" where
  "parse_pdu frame =
     (case frame of
        [] \<Rightarrow> Malformed
      | b # rest \<Rightarrow>
          let low = unat (b AND 0x0F); kind = drop_bit 4 b in
          if kind = 0 then
            if low = 0 \<or> low > 7 \<or> low > length rest then Malformed else Single_Frame (take low rest)
          else if kind = 1 then
            (case rest of
               [] \<Rightarrow> First_Frame (256 * low) None
             | c # data \<Rightarrow> First_Frame (256 * low + unat c) (Some data))
          else if kind = 2 then Consecutive_Frame low rest
          else Malformed)"

datatype isotp_rx = Rx_Idle | Rx_Collecting nat nat "u8 list"

fun rx_step :: "nat \<Rightarrow> isotp_rx \<Rightarrow> isotp_pdu \<Rightarrow> ((isotp_error + isotp_event) \<times> isotp_rx) outcome" where
  "rx_step cap s (Single_Frame msg) =
     (if cap < length msg then Panic else Ret (Inr (Complete msg), Rx_Idle))"
| "rx_step cap s (First_Frame n data) =
     (if n < 7 \<or> cap < n then Ret (Inl Overflow, s)
      else case data of
        None \<Rightarrow> Panic
      | Some bytes \<Rightarrow>
          if cap < length bytes then Panic else Ret (Inr NeedFlowControl, Rx_Collecting n 1 bytes))"
| "rx_step cap Rx_Idle (Consecutive_Frame sn data) = Ret (Inl UnexpectedFrame, Rx_Idle)"
| "rx_step cap (Rx_Collecting n k got) (Consecutive_Frame sn data) =
     (if sn \<noteq> k then Ret (Inl WrongSequence, Rx_Collecting n k got)
      else if n < length (got @ data) then Ret (Inl Overflow, Rx_Collecting n ((k + 1) mod 16) got)
      else if n = length (got @ data) then Ret (Inr (Complete (got @ data)), Rx_Idle)
      else Ret (Inr Incomplete, Rx_Collecting n ((k + 1) mod 16) (got @ data)))"
| "rx_step cap s Malformed = Ret (Inl InvalidPci, s)"

fun rx_run :: "nat \<Rightarrow> isotp_rx \<Rightarrow> isotp_pdu list \<Rightarrow> ((isotp_error + isotp_event) list \<times> isotp_rx) outcome" where
  "rx_run cap s [] = Ret ([], s)"
| "rx_run cap s (p # ps) =
     outcome_bind (rx_step cap s p) (\<lambda>(r, s').
     outcome_bind (rx_run cap s' ps) (\<lambda>(rs, s''). Ret (r # rs, s'')))"

text \<open>A receive loop that goes on after an error.\<close>

fun feed_every :: "isotp_link \<Rightarrow> u8 list list \<Rightarrow> ((isotp_error + isotp_event) list \<times> isotp_link) outcome" where
  "feed_every l [] = Ret ([], l)"
| "feed_every l (f # fs) =
     outcome_bind (feed l f) (\<lambda>(r, l').
     outcome_bind (feed_every l' fs) (\<lambda>(rs, l''). Ret (r # rs, l'')))"

definition rx_of :: "isotp_link \<Rightarrow> isotp_rx" where
  "rx_of l =
     (if il_receiving l then Rx_Collecting (il_total l) (unat (il_sn l)) (take (il_filled l) (il_buf l))
      else Rx_Idle)"

definition seen :: "('r \<times> isotp_link) outcome \<Rightarrow> ('r \<times> isotp_rx) outcome" where
  "seen m = outcome_bind m (\<lambda>(r, l). Ret (r, rx_of l))"

lemma seen_simps [simp]: "seen Panic = Panic" "seen (Ret (r, l)) = Ret (r, rx_of l)"
  by (simp_all add: seen_def)


section \<open>One frame\<close>

lemma low_nibble_eq: "unat ((b :: u8) AND 0x0F) = unat s \<longleftrightarrow> b AND 0x0F = s"
  by (simp add: word_unat_eq_iff)

lemma feed_single_seen:
  assumes "drop_bit 4 b = 0"
  shows "seen (feed_single l b (b # rest)) = rx_step (length (il_buf l)) (rx_of l) (parse_pdu (b # rest))"
  using assms
  by (auto simp: feed_single_def parse_pdu_def isotp_consts Let_def copy_into_def rx_of_def)

lemma feed_first_seen:
  assumes "drop_bit 4 b = 1"
  shows "seen (feed_first l b (b # rest)) = rx_step (length (il_buf l)) (rx_of l) (parse_pdu (b # rest))"
proof (cases rest)
  case Nil
  then show ?thesis
    using assms by (auto simp: feed_first_def parse_pdu_def isotp_consts Let_def get_opt_def push_bit_eq_mult)
next
  case (Cons c data)
  have "unat c < 256" using unsigned_less [of c] by simp
  then have "push_bit 8 (unat (b AND 0x0F)) OR unat c = 256 * unat (b AND 0x0F) + unat c"
    by (rule bit8)
  then show ?thesis
    using assms Cons
    by (auto simp: feed_first_def parse_pdu_def isotp_consts Let_def get_opt_def copy_into_def rx_of_def)
qed

lemma feed_consecutive_seen:
  assumes "drop_bit 4 b = 2" "isotp_inv l"
  shows "seen (feed_consecutive l b (b # rest)) = rx_step (length (il_buf l)) (rx_of l) (parse_pdu (b # rest))"
proof -
  have p: "parse_pdu (b # rest) = Consecutive_Frame (unat (b AND 0x0F)) rest"
    using assms(1) by (simp add: parse_pdu_def Let_def)
  have inv: "il_filled l \<le> length (il_buf l)" "il_total l \<le> length (il_buf l)"
    "unat ((il_sn l + 1) AND 0x0F) = (unat (il_sn l) + 1) mod 16"
    using assms(2) succ_nib by (simp_all add: isotp_inv_def)
  then show ?thesis
    by (auto simp: p feed_consecutive_def rx_of_def low_nibble_eq Let_def copy_into_def)
qed

lemma feed_seen:
  assumes "isotp_inv l"
  shows "seen (feed l frame) = rx_step (length (il_buf l)) (rx_of l) (parse_pdu frame)"
proof (cases frame)
  case Nil
  then show ?thesis by (simp add: feed_def get_opt_def parse_pdu_def)
next
  case (Cons b rest)
  show ?thesis
    using feed_single_seen [of b l rest] feed_first_seen [of b l rest] feed_consecutive_seen [OF _ assms, of b rest]
    by (auto simp: Cons feed_def get_opt_def Let_def parse_pdu_def)
qed


section \<open>Any sequence of frames\<close>

lemma feed_every_seen:
  "isotp_inv l \<Longrightarrow> seen (feed_every l fs) = rx_run (length (il_buf l)) (rx_of l) (map parse_pdu fs)"
proof (induction fs arbitrary: l)
  case (Cons f fs)
  show ?case
  proof (cases "feed l f")
    case Panic
    then show ?thesis using feed_seen [OF Cons.prems, of f] by simp
  next
    case (Ret p)
    obtain r l' where p: "feed l f = Ret (r, l')" using Ret by (cases p) simp
    note inv = feed_preserves [OF Cons.prems p]
    have "rx_step (length (il_buf l)) (rx_of l) (parse_pdu f) = Ret (r, rx_of l')"
      using feed_seen [OF Cons.prems, of f] p by simp
    moreover have "seen (feed_every l' fs) = rx_run (length (il_buf l)) (rx_of l') (map parse_pdu fs)"
      using Cons.IH [of l'] inv by simp
    ultimately show ?thesis
      by (cases "feed_every l' fs") (auto simp: p simp flip: \<open>seen (feed_every l' fs) = _\<close>)
  qed
qed simp


section \<open>Properties\<close>

text \<open>C21: The ISO-TP link implements the abstract receiver: on every sequence of frames, errors and panics
  included, the results of \<open>feed\<close> and the state it ends in are those of the receiver on the parsed frames.\<close>
theorem isotp_link_refines_receiver:
  assumes "isotp_inv l"
  shows "seen (feed_every l fs) = rx_run (length (il_buf l)) (rx_of l) (map parse_pdu fs)"
  using assms by (rule feed_every_seen)

lemma isotp_link_refines_receiver_witness:
  "seen (feed_every (isotp_link_new 16) [[0x10, 8, 1, 2, 3, 4, 5, 6], [0x22, 7, 8], [0x21, 7, 8], [0x21, 9]]) =
     Ret ([Inr NeedFlowControl, Inl WrongSequence, Inr (Complete [1, 2, 3, 4, 5, 6, 7, 8]), Inl UnexpectedFrame],
       Rx_Idle)"
proof -
  have "rx_of (isotp_link_new 16) = Rx_Idle" "length (il_buf (isotp_link_new 16)) = 16"
    by (simp_all add: rx_of_def isotp_link_new_def)
  moreover have "map parse_pdu [[0x10, 8, 1, 2, 3, 4, 5, 6], [0x22, 7, 8], [0x21, 7, 8], [0x21, 9]] =
    [First_Frame 8 (Some [1, 2, 3, 4, 5, 6]), Consecutive_Frame 2 [7, 8], Consecutive_Frame 1 [7, 8],
     Consecutive_Frame 1 [9]]"
    by code_simp
  ultimately show ?thesis
    using isotp_link_refines_receiver [OF isotp_inv_new, of 16
        "[[0x10, 8, 1, 2, 3, 4, 5, 6], [0x22, 7, 8], [0x21, 7, 8], [0x21, 9]]"]
    by simp
qed

text \<open>No byte of an earlier message shows through: two links of one capacity that are both idle, or
  collect the same bytes, give the same results on every sequence of frames, whatever their buffers
  hold beyond.\<close>
theorem isotp_no_leak:
  assumes "isotp_inv l" "isotp_inv l'" "length (il_buf l) = length (il_buf l')" "rx_of l = rx_of l'"
  shows "seen (feed_every l fs) = seen (feed_every l' fs)"
  using assms by (simp add: feed_every_seen)

lemma isotp_no_leak_witness:
  "seen (feed_every ((isotp_link_new 8)\<lparr>il_buf := replicate 8 0xFF\<rparr>) fs) = seen (feed_every (isotp_link_new 8) fs)"
  by (rule isotp_no_leak) (simp_all add: isotp_inv_def isotp_link_new_def rx_of_def)

end
