(* ===== verification/Ota_Reliable.thy ===== *)
theory Ota_Reliable
  imports Zephyr_Ota Agl_Ota
begin

text \<open>
  The update life cycle over storage that does not fail, once for all backends: \<open>reliable_storage\<close> adds to
  \<open>ota_storage\<close> that every write succeeds, and the operations of the engine become equations on the
  journal and the images. The storage in memory, the Zephyr backend without flash and the AGL backend
  on a file system without faults are interpretations.
\<close>


section \<open>Storage that does not fail\<close>

locale reliable_storage = ota_storage S W
  for S :: "'s ota_storage_ops" and W :: "'s storage_view" +
  assumes state_written: "sv_ok W s \<Longrightarrow> journal_ok st \<Longrightarrow> os_write_state S s st = Ret (r, s') \<Longrightarrow> r = Inr ()"
    and slot_written: "sv_ok W s \<Longrightarrow> k \<le> 1 \<Longrightarrow> length data \<le> os_slot_capacity S s \<Longrightarrow>
          os_write_slot S s k 0 data = Ret (r, s') \<Longrightarrow> r = Inr ()"
begin

lemma journal_written:
  assumes "sv_ok W s" "journal_ok st"
  obtains s' where "write_journal S f st x \<lparr>oe_storage = s, oe_signer = v\<rparr> = Ret (Inr x, \<lparr>oe_storage = s', oe_signer = v\<rparr>)"
    "sv_ok W s'" "sv_journal W s' = st" "sv_image W s' = sv_image W s"
proof -
  obtain r s' where w: "os_write_state S s st = Ret (r, s')" "sv_ok W s'" "sv_image W s' = sv_image W s"
    "sv_journal W s' = (if r = Inr () then st else sv_journal W s)"
    using write_state [OF assms] by blast
  have "r = Inr ()" by (rule state_written [OF assms w(1)])
  with w show thesis by (intro that [of s']) (simp_all add: write_journal_def)
qed

lemma staged:
  assumes "stage_verified S V \<lparr>oe_storage = s, oe_signer = v\<rparr> p payload sig" "sv_ok W s" "up_slot p \<le> 1"
  obtains s' where "ota_stage S V \<lparr>oe_storage = s, oe_signer = v\<rparr> p payload sig =
      Ret (Inr (), \<lparr>oe_storage = s', oe_signer = v\<rparr>)"
    "sv_ok W s'" "sv_journal W s' = Pending (up_slot p)"
    "sv_image W s' (1 - up_slot p) = sv_image W s (1 - up_slot p)"
    "take (length payload) (sv_image W s' (up_slot p)) = payload"
proof -
  have len: "length payload \<le> os_slot_capacity S s" using assms(1) by (simp add: stage_verified_def)
  obtain r s1 where w: "os_write_slot S s (up_slot p) 0 payload = Ret (r, s1)" "sv_ok W s1"
    "sv_image W s1 (1 - up_slot p) = sv_image W s (1 - up_slot p)"
    "r = Inr () \<longrightarrow> take (length payload) (sv_image W s1 (up_slot p)) = payload"
    using write_slot [OF assms(2,3) len] by blast
  have r: "r = Inr ()" by (rule slot_written [OF assms(2,3) len w(1)])
  obtain s' where j: "write_journal S (\<lambda>_. Storage) (Pending (up_slot p)) () \<lparr>oe_storage = s1, oe_signer = v\<rparr> =
      Ret (Inr (), \<lparr>oe_storage = s', oe_signer = v\<rparr>)"
    "sv_ok W s'" "sv_journal W s' = Pending (up_slot p)" "sv_image W s' = sv_image W s1"
    by (rule journal_written [OF w(2), of "Pending (up_slot p)"]) (use assms(3) in simp_all)
  show thesis
    by (rule that [of s'])
      (use assms(1) w j r in \<open>simp_all add: ota_stage_eq stage_verified_def Let_def\<close>)
qed

lemma promoted:
  assumes "sv_ok W s" "sv_journal W s = Pending c"
  obtains s' where "ota_promote t S \<lparr>oe_storage = s, oe_signer = v\<rparr> = Ret (Inr c, \<lparr>oe_storage = s', oe_signer = v\<rparr>)"
    "sv_ok W s'" "sv_journal W s' = Testing c (1 - c)" "sv_image W s' = sv_image W s"
proof -
  have c: "c \<le> 1" using journal [OF assms(1)] assms(2) by simp
  then have ok: "journal_ok (Testing c (1 - c))" by (auto simp: slot_le_1)
  obtain s' where j: "write_journal S (\<lambda>_. Storage) (Testing c (1 - c)) c \<lparr>oe_storage = s, oe_signer = v\<rparr> =
      Ret (Inr c, \<lparr>oe_storage = s', oe_signer = v\<rparr>)"
    "sv_ok W s'" "sv_journal W s' = Testing c (1 - c)" "sv_image W s' = sv_image W s"
    by (rule journal_written [OF assms(1) ok])
  show thesis
    by (rule that [OF _ j(2-4)]) (use c assms j(1) read_state [OF assms(1)] in \<open>simp add: ota_promote_def\<close>)
qed

lemma ended:
  assumes "sv_ok W s" "sv_journal W s = Testing a f"
  obtains s1 s2 where
    "ota_commit S \<lparr>oe_storage = s, oe_signer = v\<rparr> = Ret (Inr a, \<lparr>oe_storage = s1, oe_signer = v\<rparr>)"
    "sv_ok W s1" "sv_journal W s1 = (if a = 0 then ActiveSlot0 else ActiveSlot1)" "sv_image W s1 = sv_image W s"
    "ota_rollback S \<lparr>oe_storage = s, oe_signer = v\<rparr> = Ret (Inr a, \<lparr>oe_storage = s2, oe_signer = v\<rparr>)"
    "sv_ok W s2" "sv_journal W s2 = (if f = 0 then ActiveSlot0 else ActiveSlot1)" "sv_image W s2 = sv_image W s"
proof -
  have ok: "journal_ok (if b then ActiveSlot0 else ActiveSlot1)" for b by simp
  obtain s1 where "write_journal S (\<lambda>_. Storage) (if a = 0 then ActiveSlot0 else ActiveSlot1) a
      \<lparr>oe_storage = s, oe_signer = v\<rparr> = Ret (Inr a, \<lparr>oe_storage = s1, oe_signer = v\<rparr>)"
    "sv_ok W s1" "sv_journal W s1 = (if a = 0 then ActiveSlot0 else ActiveSlot1)" "sv_image W s1 = sv_image W s"
    by (rule journal_written [OF assms(1) ok])
  moreover obtain s2 where "write_journal S (\<lambda>_. Storage) (if f = 0 then ActiveSlot0 else ActiveSlot1) a
      \<lparr>oe_storage = s, oe_signer = v\<rparr> = Ret (Inr a, \<lparr>oe_storage = s2, oe_signer = v\<rparr>)"
    "sv_ok W s2" "sv_journal W s2 = (if f = 0 then ActiveSlot0 else ActiveSlot1)" "sv_image W s2 = sv_image W s"
    by (rule journal_written [OF assms(1) ok])
  ultimately show thesis
    using that read_state [OF assms(1)] assms(2) by (simp add: ota_commit_def ota_rollback_def)
qed

lemma recovered:
  assumes "sv_ok W s"
  obtains s' where "ota_recover t S \<lparr>oe_storage = s, oe_signer = v\<rparr> =
      Ret (Inr (running_slot (resolved_state (sv_journal W s))), \<lparr>oe_storage = s', oe_signer = v\<rparr>)"
    "sv_ok W s'" "sv_journal W s' = resolved_state (sv_journal W s)" "sv_image W s' = sv_image W s"
proof -
  note j = journal [OF assms]
  have "os_read_state S (oe_storage \<lparr>oe_storage = s, oe_signer = v\<rparr>) = Inr (sv_journal W s)"
    by (simp add: read_state [OF assms])
  note eq = ota_recover_eq [OF this j, of t]
  obtain s' where "write_journal S id (resolved_state (sv_journal W s)) (running_slot (resolved_state (sv_journal W s)))
      \<lparr>oe_storage = s, oe_signer = v\<rparr> =
      Ret (Inr (running_slot (resolved_state (sv_journal W s))), \<lparr>oe_storage = s', oe_signer = v\<rparr>)"
    "sv_ok W s'" "sv_journal W s' = resolved_state (sv_journal W s)" "sv_image W s' = sv_image W s"
    by (rule journal_written [OF assms resolved_journal_ok [OF j]])
  with eq show thesis using that by simp
qed

lemma state_read: "sv_ok W s \<Longrightarrow> ota_state S \<lparr>oe_storage = s, oe_signer = v\<rparr> = Inr (sv_journal W s)"
  by (simp add: ota_state_def read_state)

lemma lifecycle:
  assumes "stage_verified S V \<lparr>oe_storage = s, oe_signer = v\<rparr> p payload sig" "sv_ok W s" "up_slot p \<le> 1"
  shows "\<exists>s1 s2 committed rolled started restarted.
    let k = up_slot p; e = (\<lambda>s. \<lparr>oe_storage = s, oe_signer = v\<rparr>);
        active = (\<lambda>k. if k = 0 then ActiveSlot0 else ActiveSlot1) in
    ota_stage S V (e s) p payload sig = Ret (Inr (), e s1) \<and> ota_promote t S (e s1) = Ret (Inr k, e s2) \<and>
    ota_commit S (e s2) = Ret (Inr k, e committed) \<and> ota_state S (e committed) = Inr (active k) \<and>
    ota_rollback S (e s2) = Ret (Inr k, e rolled) \<and> ota_state S (e rolled) = Inr (active (1 - k)) \<and>
    ota_recover t S (e s1) = Ret (Inr k, e started) \<and> ota_state S (e started) = Inr (Testing k (1 - k)) \<and>
    ota_recover t S (e s2) = Ret (Inr (1 - k), e restarted) \<and> ota_state S (e restarted) = Inr (active (1 - k)) \<and>
    list_all (\<lambda>s'. take (length payload) (sv_image W s' k) = payload \<and>
      sv_image W s' (1 - k) = sv_image W s (1 - k)) [s1, s2, committed, rolled, started, restarted]"
proof -
  obtain s1 where 1: "ota_stage S V \<lparr>oe_storage = s, oe_signer = v\<rparr> p payload sig =
      Ret (Inr (), \<lparr>oe_storage = s1, oe_signer = v\<rparr>)"
    "sv_ok W s1" "sv_journal W s1 = Pending (up_slot p)"
    "sv_image W s1 (1 - up_slot p) = sv_image W s (1 - up_slot p)"
    "take (length payload) (sv_image W s1 (up_slot p)) = payload"
    by (rule staged [OF assms])
  obtain s2 where 2: "ota_promote t S \<lparr>oe_storage = s1, oe_signer = v\<rparr> =
      Ret (Inr (up_slot p), \<lparr>oe_storage = s2, oe_signer = v\<rparr>)"
    "sv_ok W s2" "sv_journal W s2 = Testing (up_slot p) (1 - up_slot p)" "sv_image W s2 = sv_image W s1"
    by (rule promoted [OF 1(2,3)])
  obtain s3 s4 where 3:
    "ota_commit S \<lparr>oe_storage = s2, oe_signer = v\<rparr> = Ret (Inr (up_slot p), \<lparr>oe_storage = s3, oe_signer = v\<rparr>)"
    "sv_ok W s3" "sv_journal W s3 = (if up_slot p = 0 then ActiveSlot0 else ActiveSlot1)"
    "sv_image W s3 = sv_image W s2"
    "ota_rollback S \<lparr>oe_storage = s2, oe_signer = v\<rparr> = Ret (Inr (up_slot p), \<lparr>oe_storage = s4, oe_signer = v\<rparr>)"
    "sv_ok W s4" "sv_journal W s4 = (if 1 - up_slot p = 0 then ActiveSlot0 else ActiveSlot1)"
    "sv_image W s4 = sv_image W s2"
    by (rule ended [OF 2(2,3)])
  obtain s5 where 5: "ota_recover t S \<lparr>oe_storage = s1, oe_signer = v\<rparr> =
      Ret (Inr (running_slot (resolved_state (sv_journal W s1))), \<lparr>oe_storage = s5, oe_signer = v\<rparr>)"
    "sv_ok W s5" "sv_journal W s5 = resolved_state (sv_journal W s1)" "sv_image W s5 = sv_image W s1"
    by (rule recovered [OF 1(2)])
  obtain s6 where 6: "ota_recover t S \<lparr>oe_storage = s2, oe_signer = v\<rparr> =
      Ret (Inr (running_slot (resolved_state (sv_journal W s2))), \<lparr>oe_storage = s6, oe_signer = v\<rparr>)"
    "sv_ok W s6" "sv_journal W s6 = resolved_state (sv_journal W s2)" "sv_image W s6 = sv_image W s2"
    by (rule recovered [OF 2(2)])
  have r: "running_slot (resolved_state (Testing (up_slot p) (1 - up_slot p))) = 1 - up_slot p"
    using assms(3) by (auto simp: slot_le_1)
  have 5: "ota_recover t S \<lparr>oe_storage = s1, oe_signer = v\<rparr> = Ret (Inr (up_slot p), \<lparr>oe_storage = s5, oe_signer = v\<rparr>)"
    "sv_ok W s5" "sv_journal W s5 = Testing (up_slot p) (1 - up_slot p)" "sv_image W s5 = sv_image W s1"
    using 5 by (simp_all add: 1(3))
  have 6: "ota_recover t S \<lparr>oe_storage = s2, oe_signer = v\<rparr> = Ret (Inr (1 - up_slot p), \<lparr>oe_storage = s6, oe_signer = v\<rparr>)"
    "sv_ok W s6" "sv_journal W s6 = (if 1 - up_slot p = 0 then ActiveSlot0 else ActiveSlot1)"
    "sv_image W s6 = sv_image W s2"
    using 6 r unfolding 2(3) by simp_all
  show ?thesis
    by (intro exI [of _ s1] exI [of _ s2] exI [of _ s3] exI [of _ s4] exI [of _ s5] exI [of _ s6])
      (simp only: Let_def 1 2 3 5 6 state_read list.pred_inject simp_thms)
qed

end


section \<open>The backends\<close>

lemma mem_reliable: "32 \<le> usize_bits t \<Longrightarrow> reliable_storage (mem_ops t) mem_view"
proof (intro reliable_storage.intro reliable_storage_axioms.intro, goal_cases)
  case 1
  then show ?case by (rule mem_storage_spec)
next
  case (3 s k data r s')
  then show ?case
    using ram_write_slot_0 [of SLOT_CAP "ms_slots s" k data t] usize_cap [of t SLOT_CAP]
    by (auto simp: mem_ops_def mem_view_def mem_write_slot_def mem_slot_capacity_def SLOT_CAP_def)
qed (auto simp: mem_ops_def mem_write_state_def)

lemma zephyr_ram_reliable: "32 \<le> usize_bits t \<Longrightarrow> reliable_storage (zephyr_ram_ops t) zephyr_ram_view"
proof (intro reliable_storage.intro reliable_storage_axioms.intro, goal_cases)
  case 1
  then show ?case by (rule zephyr_ram_spec)
next
  case (3 s k data r s')
  then show ?case
    using ram_write_slot_0 [of RAM_SLOT_CAP "zr_slots s" k data t] usize_cap [of t RAM_SLOT_CAP]
    by (auto simp: zephyr_ram_ops_def zephyr_ram_view_def zephyr_ram_write_slot_def RAM_SLOT_CAP_def)
qed (auto simp: zephyr_ram_ops_def)

text \<open>On AGL files: no write has been cut short, so the slot files have the size of a slot.\<close>

definition agl_full_view :: "target \<Rightarrow> nat \<Rightarrow> agl_storage storage_view" where
  "agl_full_view t cap = \<lparr>sv_image = agl_image, sv_journal = agl_journal,
     sv_ok = \<lambda>s. agl_ok t s \<and> ag_slot_capacity s = cap \<and> (\<forall>k \<le> 1. length (agl_image s k) = ag_slot_capacity s)\<rparr>"

abbreviation calm_files :: file_system where
  "calm_files \<equiv> writable_files (\<lambda>_. True)"

lemma agl_write_slot_full:
  assumes "agl_ok t s" "length (agl_image s k) = ag_slot_capacity s" "length data \<le> ag_slot_capacity s"
  shows "agl_write_slot calm_files t s k 0 data = Ret (Inr (),
    s\<lparr>ag_files := (ag_files s)(slot_path s k \<mapsto> data @ drop (length data) (agl_image s k))\<rparr>)"
proof -
  have "(case existing calm_files (ag_files s) (slot_path s k) of None \<Rightarrow> Some (replicate (ag_slot_capacity s) 0)
      | Some content \<Rightarrow> open_and_read calm_files (ag_files s) (slot_path s k) content (ag_slot_capacity s)) =
      Some (agl_image s k)"
    using assms(2) by (auto simp: agl_image_def open_and_read_def read_exact_def split: option.split)
  then show ?thesis
    using assms by (simp add: agl_write_slot_def agl_ok_def copy_into_def Let_def)
qed

lemma agl_image_write:
  assumes "k \<le> 1" "j \<le> 1"
  shows "agl_image (s\<lparr>ag_files := (ag_files s)(slot_path s k \<mapsto> img)\<rparr>) j = (if j = k then img else agl_image s j)"
proof (cases "j = k")
  case False
  then have "j = 1 - k" using assms by (auto simp: slot_le_1)
  then have "slot_path s j \<noteq> slot_path s k" using slot_paths_differ [OF assms(1), of s] by simp
  then show ?thesis using False by (simp add: agl_image_def split: option.split)
qed (simp add: agl_image_def)

lemma agl_reliable: "reliable_storage (agl_ops calm_files t) (agl_full_view t cap)"
proof (intro reliable_storage.intro ota_storage.intro reliable_storage_axioms.intro, goal_cases)
  case (1 s)
  then show ?case
    using agl_read_state_ok [OF writable_journal_atomic, of t s] by (simp add: agl_ops_def agl_full_view_def)
next
  case (2 s st)
  then have s: "agl_ok t s" "ag_slot_capacity s = cap" "\<forall>k \<le> 1. length (agl_image s k) = ag_slot_capacity s"
    by (simp_all add: agl_full_view_def)
  obtain r s' where w: "agl_write_state calm_files t s st = Ret (r, s')" "agl_ok t s'" "agl_image s' = agl_image s"
    "agl_journal s' = (if r = Inr () then st else agl_journal s)"
    by (rule agl_write_state_eq [OF writable_journal_atomic s(1) 2(2)])
  have "ag_slot_capacity s' = ag_slot_capacity s"
    using w(1) by (auto simp: agl_write_state_def outcome_simps)
  with w s(2,3) show ?case by (auto simp: agl_ops_def agl_full_view_def)
next
  case (3 s k data)
  then have s: "agl_ok t s" "\<forall>k \<le> 1. length (agl_image s k) = ag_slot_capacity s" "ag_slot_capacity s = cap" "length data \<le> ag_slot_capacity s"
    by (simp_all add: agl_full_view_def agl_ops_def)
  have "1 - k \<le> 1" "1 - k \<noteq> k" using 3(2) by (auto simp: slot_le_1)
  with s 3(2) show ?case
    by (auto simp: agl_ops_def agl_full_view_def agl_write_slot_full agl_image_write agl_ok_def agl_journal_def)
next
  case (4 s)
  then show ?case using agl_read_state_ok [OF writable_journal_atomic, of t s] by (simp add: agl_full_view_def)
next
  case (5 s st r s')
  then show ?case by (auto simp: agl_ops_def agl_write_state_def outcome_simps)
next
  case (6 s k data r s')
  then show ?case by (auto simp: agl_ops_def agl_full_view_def agl_write_slot_full)
qed

interpretation mem_calm: reliable_storage "mem_ops host_debug" mem_view
  by (rule mem_reliable) (simp add: host_debug_def)

interpretation zephyr_calm: reliable_storage "zephyr_ram_ops mcu_release" zephyr_ram_view
  by (rule zephyr_ram_reliable) (simp add: mcu_release_def)

interpretation agl_calm: reliable_storage "agl_ops calm_files host_debug" "agl_full_view host_debug 4096"
  by (rule agl_reliable)


section \<open>Properties\<close>

text \<open>C37: The update life cycle on every storage that does not fail: a verified package for slot 0 or 1 is staged and
  promoted; then a commit makes its slot the active one, with the payload in it; a rollback, or a
  restart before the commit, makes the old slot the active one again; and in every case the old
  slot still holds the old image. A restart before the promotion starts the candidate.\<close>
theorem reliable_update_lifecycle:
  assumes "reliable_storage S W" "sv_ok W s" "up_slot p \<le> 1"
    and "stage_verified S V \<lparr>oe_storage = s, oe_signer = v\<rparr> p payload sig"
  shows "\<exists>s1 s2 committed rolled started restarted.
    let k = up_slot p; e = (\<lambda>s. \<lparr>oe_storage = s, oe_signer = v\<rparr>);
        active = (\<lambda>k. if k = 0 then ActiveSlot0 else ActiveSlot1) in
    ota_stage S V (e s) p payload sig = Ret (Inr (), e s1) \<and> ota_promote t S (e s1) = Ret (Inr k, e s2) \<and>
    ota_commit S (e s2) = Ret (Inr k, e committed) \<and> ota_state S (e committed) = Inr (active k) \<and>
    ota_rollback S (e s2) = Ret (Inr k, e rolled) \<and> ota_state S (e rolled) = Inr (active (1 - k)) \<and>
    ota_recover t S (e s1) = Ret (Inr k, e started) \<and> ota_state S (e started) = Inr (Testing k (1 - k)) \<and>
    ota_recover t S (e s2) = Ret (Inr (1 - k), e restarted) \<and> ota_state S (e restarted) = Inr (active (1 - k)) \<and>
    list_all (\<lambda>s'. take (length payload) (sv_image W s' k) = payload \<and>
      sv_image W s' (1 - k) = sv_image W s (1 - k)) [s1, s2, committed, rolled, started, restarted]"
  by (rule reliable_storage.lifecycle [OF assms(1,4,2,3)])

lemma reliable_update_lifecycle_witness:
  "\<exists>s1 s2 s3. ota_stage (agl_ops calm_files host_debug) (demo_scheme 4)
      \<lparr>oe_storage = agl_storage_new Map.empty 16, oe_signer = demo_signer_new 7\<rparr>
      \<lparr>up_slot = 1, up_payload_len = 1\<rparr> [0xAB]
      (demo_hash 4 (demo_signer_new 7) (package_message \<lparr>up_slot = 1, up_payload_len = 1\<rparr> [0xAB])) =
      Ret (Inr (), \<lparr>oe_storage = s1, oe_signer = demo_signer_new 7\<rparr>) \<and>
    ota_promote host_debug (agl_ops calm_files host_debug) \<lparr>oe_storage = s1, oe_signer = demo_signer_new 7\<rparr> =
      Ret (Inr 1, \<lparr>oe_storage = s2, oe_signer = demo_signer_new 7\<rparr>) \<and>
    ota_recover host_debug (agl_ops calm_files host_debug) \<lparr>oe_storage = s2, oe_signer = demo_signer_new 7\<rparr> =
      Ret (Inr 0, \<lparr>oe_storage = s3, oe_signer = demo_signer_new 7\<rparr>)"
proof -
  let ?s = "agl_storage_new Map.empty 16" and ?p = "\<lparr>up_slot = 1, up_payload_len = 1\<rparr>"
  let ?sig = "demo_hash 4 (demo_signer_new 7) (package_message ?p [0xAB])"
  have ok: "sv_ok (agl_full_view host_debug 16) ?s"
    by (simp add: agl_full_view_def agl_ok_def agl_image_def agl_storage_new_def agl_storage_with_root_def host_debug_def)
  have v: "stage_verified (agl_ops calm_files host_debug) (demo_scheme 4)
      \<lparr>oe_storage = ?s, oe_signer = demo_signer_new 7\<rparr> ?p [0xAB] ?sig"
    by (simp add: stage_verified_def agl_ops_def agl_storage_new_def agl_storage_with_root_def demo_scheme_def
        demo_verify_def OTA_MAX_PAYLOAD_def)
  show ?thesis
    using reliable_update_lifecycle [OF agl_reliable ok _ v, of host_debug] by (simp add: Let_def) blast
qed

end
