(* ===== verification/Ota_Journal.thy ===== *)
theory Ota_Journal
  imports Ota_Reliable
begin

text \<open>
  What the engine of \<open>core/src/ota.rs\<close> answers, over any storage that does not fail, as a machine on the
  journal alone. Two backends of one capacity are therefore interchangeable: the documentation of
  \<open>agl/src/ota_storage.rs\<close> says that the engine logic is unchanged between bare metal and AGL.
\<close>


section \<open>The machine on the journal\<close>

datatype engine_op =
    Op_Stage update_package "u8 list" "u8 list"
  | Op_Promote | Op_Commit | Op_Rollback | Op_Recover | Op_State

datatype op_value = Op_Done | Op_Slot u8 | Op_Found slot_state

definition active_state :: "u8 \<Rightarrow> slot_state" where
  "active_state k = (if k = 0 then ActiveSlot0 else ActiveSlot1)"

fun journal_op :: "'v signature_scheme \<Rightarrow> 'v \<Rightarrow> nat \<Rightarrow> engine_op \<Rightarrow> slot_state \<Rightarrow>
    (ota_error + op_value) \<times> slot_state" where
  "journal_op V v cap (Op_Stage p payload sig) j =
     (if length payload \<noteq> unat (up_payload_len p) then (Inl BadPackage, j)
      else if cap < length payload \<or> OTA_MAX_PAYLOAD < length payload then (Inl PayloadTooLarge, j)
      else if ss_verify V v (package_message p payload) sig then (Inr Op_Done, Pending (up_slot p))
      else (Inl BadSignature, j))"
| "journal_op V v cap Op_Promote j =
     (case j of Pending c \<Rightarrow> (Inr (Op_Slot c), Testing c (1 - c)) | _ \<Rightarrow> (Inl NoCandidate, j))"
| "journal_op V v cap Op_Commit j =
     (case j of Testing a f \<Rightarrow> (Inr (Op_Slot a), active_state a) | _ \<Rightarrow> (Inl InvalidState, j))"
| "journal_op V v cap Op_Rollback j =
     (case j of Testing a f \<Rightarrow> (Inr (Op_Slot a), active_state f) | _ \<Rightarrow> (Inl InvalidState, j))"
| "journal_op V v cap Op_Recover j =
     (Inr (Op_Slot (running_slot (resolved_state j))), resolved_state j)"
| "journal_op V v cap Op_State j = (Inr (Op_Found j), j)"

fun journal_run :: "'v signature_scheme \<Rightarrow> 'v \<Rightarrow> nat \<Rightarrow> engine_op list \<Rightarrow> slot_state \<Rightarrow>
    (ota_error + op_value) list \<times> slot_state" where
  "journal_run V v cap [] j = ([], j)"
| "journal_run V v cap (x # xs) j =
     (let (r, j) = journal_op V v cap x j; (rs, j) = journal_run V v cap xs j in (r # rs, j))"


section \<open>The engine, operation by operation\<close>

definition with_value :: "('a \<Rightarrow> op_value) \<Rightarrow> ((ota_error + 'a) \<times> 'e) outcome \<Rightarrow> ((ota_error + op_value) \<times> 'e) outcome" where
  "with_value f m = outcome_bind m (\<lambda>(r, e). Ret (map_sum id f r, e))"

fun engine_op_run :: "target \<Rightarrow> 's ota_storage_ops \<Rightarrow> 'v signature_scheme \<Rightarrow> engine_op \<Rightarrow> ('s, 'v) ota_engine \<Rightarrow>
    ((ota_error + op_value) \<times> ('s, 'v) ota_engine) outcome" where
  "engine_op_run t S V (Op_Stage p payload sig) e = with_value (\<lambda>_. Op_Done) (ota_stage S V e p payload sig)"
| "engine_op_run t S V Op_Promote e = with_value Op_Slot (ota_promote t S e)"
| "engine_op_run t S V Op_Commit e = with_value Op_Slot (ota_commit S e)"
| "engine_op_run t S V Op_Rollback e = with_value Op_Slot (ota_rollback S e)"
| "engine_op_run t S V Op_Recover e = with_value Op_Slot (ota_recover t S e)"
| "engine_op_run t S V Op_State e = with_value Op_Found (Ret (ota_state S e, e))"

fun engine_run :: "target \<Rightarrow> 's ota_storage_ops \<Rightarrow> 'v signature_scheme \<Rightarrow> engine_op list \<Rightarrow> ('s, 'v) ota_engine \<Rightarrow>
    ((ota_error + op_value) list \<times> ('s, 'v) ota_engine) outcome" where
  "engine_run t S V [] e = Ret ([], e)"
| "engine_run t S V (x # xs) e =
     outcome_bind (engine_op_run t S V x e) (\<lambda>(r, e).
     outcome_bind (engine_run t S V xs e) (\<lambda>(rs, e). Ret (r # rs, e)))"

fun op_slots_ok :: "engine_op \<Rightarrow> bool" where
  "op_slots_ok (Op_Stage p _ _) \<longleftrightarrow> up_slot p \<le> 1"
| "op_slots_ok _ \<longleftrightarrow> True"

lemma with_value_simps [simp]:
  "with_value f (Ret (Inl e, s)) = Ret (Inl e, s)" "with_value f (Ret (Inr x, s)) = Ret (Inr (f x), s)"
  by (simp_all add: with_value_def)

locale sized_storage = reliable_storage S W
  for S :: "'s ota_storage_ops" and W :: "'s storage_view" +
  fixes cap :: nat
  assumes capacity: "sv_ok W s \<Longrightarrow> os_slot_capacity S s = cap"
begin

lemma stage_op_eq:
  assumes "sv_ok W s" "up_slot p \<le> 1"
  shows "\<exists>s'. with_value (\<lambda>_. Op_Done) (ota_stage S V \<lparr>oe_storage = s, oe_signer = v\<rparr> p payload sig) =
      Ret (fst (journal_op V v cap (Op_Stage p payload sig) (sv_journal W s)), \<lparr>oe_storage = s', oe_signer = v\<rparr>) \<and>
    sv_ok W s' \<and> sv_journal W s' = snd (journal_op V v cap (Op_Stage p payload sig) (sv_journal W s))"
proof (cases "stage_verified S V \<lparr>oe_storage = s, oe_signer = v\<rparr> p payload sig")
  case True
  obtain s' where "ota_stage S V \<lparr>oe_storage = s, oe_signer = v\<rparr> p payload sig =
      Ret (Inr (), \<lparr>oe_storage = s', oe_signer = v\<rparr>)" "sv_ok W s'" "sv_journal W s' = Pending (up_slot p)"
    by (rule staged [OF True assms])
  then show ?thesis
    using True capacity [OF assms(1)] by (auto simp: stage_verified_def)
next
  case False
  then show ?thesis
    using assms(1) capacity [OF assms(1)]
    by (intro exI [of _ s]) (auto simp: ota_stage_eq stage_verified_def)
qed

lemma engine_op_eq:
  assumes "sv_ok W s" "op_slots_ok x"
  shows "\<exists>s'. engine_op_run t S V x \<lparr>oe_storage = s, oe_signer = v\<rparr> =
      Ret (fst (journal_op V v cap x (sv_journal W s)), \<lparr>oe_storage = s', oe_signer = v\<rparr>) \<and>
    sv_ok W s' \<and> sv_journal W s' = snd (journal_op V v cap x (sv_journal W s))"
proof (cases x)
  case (Op_Stage p payload sig)
  then show ?thesis using stage_op_eq [OF assms(1), of p V v payload sig] assms(2) by simp
next
  case Op_Promote
  show ?thesis
  proof (cases "sv_journal W s")
    case (Pending c)
    then show ?thesis
      by (rule promoted [OF assms(1), where t = t and v = v]) (auto simp: Op_Promote Pending)
  qed (use assms(1) in \<open>auto simp: Op_Promote ota_promote_def read_state\<close>)
next
  case Op_Commit
  show ?thesis
  proof (cases "sv_journal W s")
    case (Testing a f)
    then show ?thesis
      by (rule ended [OF assms(1), where v = v]) (auto simp: Op_Commit Testing active_state_def)
  qed (use assms(1) in \<open>auto simp: Op_Commit ota_commit_def read_state\<close>)
next
  case Op_Rollback
  show ?thesis
  proof (cases "sv_journal W s")
    case (Testing a f)
    then show ?thesis
      by (rule ended [OF assms(1), where v = v]) (auto simp: Op_Rollback Testing active_state_def)
  qed (use assms(1) in \<open>auto simp: Op_Rollback ota_rollback_def read_state\<close>)
next
  case Op_Recover
  show ?thesis
    by (rule recovered [OF assms(1), where t = t and v = v]) (auto simp: Op_Recover)
next
  case Op_State
  show ?thesis using assms(1) by (auto simp: Op_State state_read)
qed

lemma engine_run_eq:
  "sv_ok W s \<Longrightarrow> list_all op_slots_ok xs \<Longrightarrow>
   \<exists>s'. engine_run t S V xs \<lparr>oe_storage = s, oe_signer = v\<rparr> =
      Ret (fst (journal_run V v cap xs (sv_journal W s)), \<lparr>oe_storage = s', oe_signer = v\<rparr>) \<and>
    sv_ok W s' \<and> sv_journal W s' = snd (journal_run V v cap xs (sv_journal W s))"
proof (induction xs arbitrary: s)
  case (Cons x xs)
  obtain r j where j: "journal_op V v cap x (sv_journal W s) = (r, j)" by force
  have "op_slots_ok x" using Cons.prems(2) by simp
  with engine_op_eq [OF Cons.prems(1), of x t V v] j obtain s1 where
    "engine_op_run t S V x \<lparr>oe_storage = s, oe_signer = v\<rparr> = Ret (r, \<lparr>oe_storage = s1, oe_signer = v\<rparr>)"
    "sv_ok W s1" "sv_journal W s1 = j" by auto
  with Cons.IH [of s1] Cons.prems(2) j show ?case
    by (fastforce simp: Let_def split: prod.split)
qed auto

end


section \<open>The backends\<close>

lemma mem_sized: "32 \<le> usize_bits t \<Longrightarrow> sized_storage (mem_ops t) mem_view SLOT_CAP"
  by (intro sized_storage.intro sized_storage_axioms.intro mem_reliable)
    (simp_all add: mem_ops_def mem_slot_capacity_def)

lemma zephyr_sized: "32 \<le> usize_bits t \<Longrightarrow> sized_storage (zephyr_ram_ops t) zephyr_ram_view RAM_SLOT_CAP"
  by (intro sized_storage.intro sized_storage_axioms.intro zephyr_ram_reliable)
    (simp_all add: zephyr_ram_ops_def)

lemma agl_sized: "sized_storage (agl_ops calm_files t) (agl_full_view t cap) cap"
  by (intro sized_storage.intro sized_storage_axioms.intro agl_reliable)
    (simp_all add: agl_ops_def agl_full_view_def)

interpretation mem_box: sized_storage "mem_ops host_debug" mem_view SLOT_CAP
  by (rule mem_sized) (simp add: host_debug_def)

interpretation zephyr_box: sized_storage "zephyr_ram_ops mcu_release" zephyr_ram_view RAM_SLOT_CAP
  by (rule zephyr_sized) (simp add: mcu_release_def)

interpretation agl_box: sized_storage "agl_ops calm_files host_debug" "agl_full_view host_debug RAM_SLOT_CAP" RAM_SLOT_CAP
  by (rule agl_sized)

lemma agl_delivered:
  "cap < 2 ^ usize_bits t \<Longrightarrow> sv_ok (agl_full_view t cap) (agl_storage_with_root Map.empty root cap)"
  "sv_journal (agl_full_view t cap) (agl_storage_with_root Map.empty root cap) = ActiveSlot0"
  by (simp_all add: agl_full_view_def agl_ok_def agl_image_def agl_journal_def agl_storage_with_root_def)

lemma zephyr_delivered:
  "sv_ok zephyr_ram_view zephyr_ram_new" "sv_journal zephyr_ram_view zephyr_ram_new = ActiveSlot0"
  by (simp_all add: zephyr_ram_view_def zephyr_ram_new_def ram_slot_new_def slots_ok_def)


section \<open>Properties\<close>

text \<open>C36: The engine over a storage that does not fail is a machine on the journal: every sequence of
  operations on packages for slots 0 and 1 returns exactly the results this machine computes from the
  journal, the capacity and the signatures, never panics, and ends in the journal it computes.\<close>
theorem engine_is_journal_machine:
  assumes "sized_storage S W cap" "sv_ok W s" "list_all op_slots_ok xs"
  shows "\<exists>s'. engine_run t S V xs \<lparr>oe_storage = s, oe_signer = v\<rparr> =
      Ret (fst (journal_run V v cap xs (sv_journal W s)), \<lparr>oe_storage = s', oe_signer = v\<rparr>) \<and>
    sv_ok W s' \<and> sv_journal W s' = snd (journal_run V v cap xs (sv_journal W s))"
  by (rule sized_storage.engine_run_eq [OF assms])

lemma engine_is_journal_machine_witness:
  "\<exists>s'. engine_run mcu_release (zephyr_ram_ops mcu_release) (demo_scheme 4) [Op_Promote, Op_Recover, Op_State]
      \<lparr>oe_storage = zephyr_ram_new, oe_signer = demo_signer_new 7\<rparr> =
    Ret ([Inl NoCandidate, Inr (Op_Slot 0), Inr (Op_Found ActiveSlot0)],
      \<lparr>oe_storage = s', oe_signer = demo_signer_new 7\<rparr>)"
proof -
  have "sized_storage (zephyr_ram_ops mcu_release) zephyr_ram_view RAM_SLOT_CAP"
    by (rule zephyr_sized) (simp add: mcu_release_def)
  from engine_is_journal_machine [OF this zephyr_delivered(1), of "[Op_Promote, Op_Recover, Op_State]" mcu_release
      "demo_scheme 4" "demo_signer_new 7"]
  show ?thesis by (auto simp: zephyr_delivered(2) Let_def simp del: engine_run.simps)
qed

text \<open>C17: Bare metal and AGL are interchangeable: on newly delivered storage of one capacity, whatever the
  operations, as long as every package is for slot 0 or 1, the Zephyr backend in memory and the AGL
  backend on a file system without faults answer alike, on every target of 32 bits or more, root
  directory and signature scheme. (For another slot number they differ: \<open>agl_foreign_slot_bricks\<close>.)\<close>
theorem zephyr_and_agl_answer_alike:
  assumes "32 \<le> usize_bits t" "list_all op_slots_ok xs"
  shows "\<exists>results s' s''.
    engine_run t (zephyr_ram_ops t) V xs (ota_engine_new zephyr_ram_new v) = Ret (results, ota_engine_new s' v) \<and>
    engine_run t (agl_ops calm_files t) V xs
      (ota_engine_new (agl_storage_with_root Map.empty root RAM_SLOT_CAP) v) = Ret (results, ota_engine_new s'' v)"
proof -
  have cap: "RAM_SLOT_CAP < 2 ^ usize_bits t" by (rule usize_cap [OF assms(1)]) (simp add: RAM_SLOT_CAP_def)
  show ?thesis
    using sized_storage.engine_run_eq [OF zephyr_sized [OF assms(1)] zephyr_delivered(1) assms(2), of t V v]
      sized_storage.engine_run_eq [OF agl_sized agl_delivered(1) [OF cap, of root] assms(2), where t = t and V = V and v = v]
    by (auto simp: ota_engine_new_def zephyr_delivered(2) agl_delivered(2))
qed

lemma zephyr_and_agl_answer_alike_witness:
  "\<exists>results s' s''.
    engine_run host_debug (zephyr_ram_ops host_debug) (demo_scheme 4)
      [Op_Stage \<lparr>up_slot = 1, up_payload_len = 2\<rparr> [1] [], Op_Commit] (ota_engine_new zephyr_ram_new (demo_signer_new 7)) =
      Ret (results, ota_engine_new s' (demo_signer_new 7)) \<and>
    engine_run host_debug (agl_ops calm_files host_debug) (demo_scheme 4)
      [Op_Stage \<lparr>up_slot = 1, up_payload_len = 2\<rparr> [1] [], Op_Commit]
      (ota_engine_new (agl_storage_with_root Map.empty ''/data'' RAM_SLOT_CAP) (demo_signer_new 7)) =
      Ret (results, ota_engine_new s'' (demo_signer_new 7))"
  by (rule zephyr_and_agl_answer_alike) (simp_all add: host_debug_def)

end
