(* ===== verification/Isotp_Channel.thy ===== *)
theory Isotp_Channel
  imports Isotp_Refine
begin

text \<open>
  ISO-TP over a channel that loses, repeats and reorders frames (\<open>core/src/isotp.rs\<close>). The link has no
  timer and no flow control of its own; what protects a message is the sequence number of four bits.
  Up to 118 bytes the numbers of one message are distinct, and then the link delivers that message or
  nothing; beyond, a reordering can go unnoticed. A complete transfer always comes through, whatever
  the link was left with.
\<close>


section \<open>The units of a message\<close>

text \<open>The data of the consecutive frame number \<open>i\<close>, counted from 0: seven bytes, with padding.\<close>

definition cf_chunk :: "u8 list \<Rightarrow> nat \<Rightarrow> u8 list" where
  "cf_chunk msg i = take 7 (drop (6 + 7 * i) msg @ replicate 7 0)"

lemma length_cf_chunk [simp]: "length (cf_chunk msg i) = 7"
  by (simp add: cf_chunk_def)

lemma cf_chunk_full:
  assumes "6 + 7 * i + 7 \<le> length msg"
  shows "take (6 + 7 * i) msg @ cf_chunk msg i = take (6 + 7 * i + 7) msg"
proof -
  have "cf_chunk msg i = take 7 (drop (6 + 7 * i) msg)" using assms by (simp add: cf_chunk_def)
  then show ?thesis by (simp only: take_add)
qed

lemma parse_pad8_cf:
  assumes "unat sn < 16" "bs \<noteq> []"
  shows "parse_pdu (pad8 ((0x20 OR sn) # take 7 bs)) = Consecutive_Frame (unat sn) (take 7 (bs @ replicate 7 0))"
  using pci_nibbles [OF assms(1)] assms(2)
  by (cases "length bs < 7") (auto simp: parse_pdu_def pad8_def Let_def)

lemma parse_cf_frames:
  "unat sn < 16 \<Longrightarrow> map parse_pdu (cf_frames sn bs) =
     map (\<lambda>i. Consecutive_Frame ((unat sn + i) mod 16) (take 7 (drop (7 * i) bs @ replicate 7 0)))
       [0..<(length bs + 6) div 7]"
proof (induction sn bs rule: cf_frames.induct)
  case (2 sn b bs)
  let ?bs = "b # bs"
  let ?unit = "\<lambda>sn bs i. Consecutive_Frame ((unat sn + i) mod 16) (take 7 (drop (7 * i) bs @ replicate 7 0))"
  have "unat ((sn + 1) AND 0x0F) < 16" by (rule unat_low_nibble)
  note IH = "2.IH" [OF this]
  have next_unit: "?unit ((sn + 1) AND 0x0F) (drop 7 ?bs) i = ?unit sn ?bs (Suc i)" for i
  proof -
    have "(unat ((sn + 1) AND 0x0F) + i) mod 16 = (unat sn + Suc i) mod 16"
      unfolding succ_nib [OF "2.prems"] by (simp add: mod_simps)
    then show ?thesis by (simp add: add.commute drop_Cons')
  qed
  have count: "(length ?bs + 6) div 7 = Suc ((length (drop 7 ?bs) + 6) div 7)"
    by (cases "length bs < 7") (auto simp: div_if)
  have "map parse_pdu (cf_frames sn ?bs) = ?unit sn ?bs 0 # map parse_pdu (cf_frames ((sn + 1) AND 0x0F) (drop 7 ?bs))"
    using parse_pad8_cf [OF "2.prems", of ?bs] "2.prems" by simp
  also have "\<dots> = ?unit sn ?bs 0 # map (\<lambda>i. ?unit sn ?bs (Suc i)) [0..<(length (drop 7 ?bs) + 6) div 7]"
    unfolding IH next_unit ..
  also have "\<dots> = map (?unit sn ?bs) [0..<(length ?bs + 6) div 7]"
    unfolding count by (simp only: upt_conv_Cons zero_less_Suc map_Suc_upt [symmetric] list.map map_map comp_def)
  finally show ?case .
qed simp

lemma parse_first_frame:
  assumes "7 < length msg" "length msg \<le> ISOTP_MAX_MESSAGE"
  shows "parse_pdu (pad8 ((0x10 OR of_nat (length msg div 256)) # of_nat (length msg mod 256) # take ISOTP_FF_MAX msg)) =
    First_Frame (length msg) (Some (take 6 msg))"
proof -
  have len: "length msg \<le> 4095" using assms by (simp add: isotp_consts)
  note b = ff_len_bytes [of "length msg"]
  show ?thesis
    using assms(1) pci_nibbles [OF b(3) [OF len]] b(4) [OF len]
    by (simp add: parse_pdu_def pad8_def isotp_consts Let_def)
qed

lemma parse_single_frame:
  assumes "length msg \<le> ISOTP_SF_MAX"
  shows "parse_pdu (pad8 (of_nat (length msg) # msg)) = (if msg = [] then Malformed else Single_Frame msg)"
proof -
  have u: "unat (of_nat (length msg) :: u8) = length msg" using assms by (simp add: isotp_consts)
  then have "unat (of_nat (length msg) :: u8) < 16" using assms by (simp add: isotp_consts)
  note n = pci_nibbles(5,6) [OF this]
  show ?thesis
    using assms n u by (auto simp: parse_pdu_def pad8_def isotp_consts Let_def)
qed

text \<open>The protocol units of a message.\<close>

definition cf_count :: "u8 list \<Rightarrow> nat" where
  "cf_count msg = length msg div 7"

definition cf_unit :: "u8 list \<Rightarrow> nat \<Rightarrow> isotp_pdu" where
  "cf_unit msg i = Consecutive_Frame ((i + 1) mod 16) (cf_chunk msg i)"

lemma parse_isotp_frames:
  assumes "7 < length msg" "length msg \<le> ISOTP_MAX_MESSAGE"
  shows "map parse_pdu (isotp_frames msg) =
    First_Frame (length msg) (Some (take 6 msg)) # map (cf_unit msg) [0..<cf_count msg]"
proof -
  have "unat (1 :: u8) < 16" by simp
  from parse_cf_frames [OF this, of "drop 6 msg"]
  have "map parse_pdu (cf_frames 1 (drop 6 msg)) = map (cf_unit msg) [0..<cf_count msg]"
    using assms(1) by (simp add: cf_unit_def cf_chunk_def cf_count_def add.commute)
  then show ?thesis
    using assms parse_first_frame [OF assms] by (simp add: isotp_frames_def isotp_consts)
qed

lemma cf_count_less: "i < cf_count msg \<longleftrightarrow> 6 + 7 * i < length msg"
  using less_eq_div_iff_mult_less_eq [of 7 "Suc i" "length msg"] by (auto simp: cf_count_def Suc_le_eq)


section \<open>Frames lost, repeated and reordered\<close>

text \<open>
  What the receiver can be left in by frames of one message of at most 118 bytes: idle, with a prefix of
  the message and the number of the chunk that continues it, or so close to the announced length that
  every further frame overflows.
\<close>

fun rx_within :: "u8 list \<Rightarrow> isotp_rx \<Rightarrow> bool" where
  "rx_within msg Rx_Idle \<longleftrightarrow> True"
| "rx_within msg (Rx_Collecting n k got) \<longleftrightarrow> n = length msg \<and>
     (length msg < length got + 7 \<or>
      (\<exists>j. 6 + 7 * j < length msg \<and> got = take (6 + 7 * j) msg \<and> k = (j + 1) mod 16))"

lemma chunk_numbers:
  assumes "(i + 1) mod 16 = (j + 1) mod (16 :: nat)" "i < 16" "j < 16"
  shows "i = j"
  using assms by (cases "i = 15"; cases "j = 15") auto

lemma rx_withinI:
  "6 + 7 * j < length msg \<Longrightarrow> rx_within msg (Rx_Collecting (length msg) ((j + 1) mod 16) (take (6 + 7 * j) msg))"
  by auto

lemma rx_step_first_within:
  assumes "7 < length msg" "7 \<le> cap" "rx_within msg s"
  shows "\<exists>r s'. rx_step cap s (First_Frame (length msg) (Some (take 6 msg))) = Ret (r, s') \<and> rx_within msg s' \<and>
    (\<forall>m. r = Inr (Complete m) \<longrightarrow> m = msg)"
proof (cases "cap < length msg")
  case False
  then show ?thesis using assms rx_withinI [of 0 msg] by (simp del: rx_within.simps)
qed (use assms in \<open>simp del: rx_within.simps\<close>)

lemma rx_step_chunk_within:
  assumes "rx_within msg (Rx_Collecting n k got)" "length msg \<le> 118" "6 + 7 * i < length msg"
  shows "\<exists>r s'. rx_step cap (Rx_Collecting n k got) (Consecutive_Frame ((i + 1) mod 16) (cf_chunk msg i)) = Ret (r, s') \<and>
    rx_within msg s' \<and> (\<forall>m. r = Inr (Complete m) \<longrightarrow> m = msg)"
proof (cases "length msg < length got + 7 \<or> (i + 1) mod 16 \<noteq> k")
  case True
  have n: "n = length msg" using assms(1) by simp
  consider "(i + 1) mod 16 \<noteq> k" | "(i + 1) mod 16 = k" "length msg < length got + 7" using True by blast
  then show ?thesis
  proof cases
    case 1
    then show ?thesis using assms(1) by (simp only: rx_step.simps if_True not_False_eq_True) simp
  next
    case 2
    then show ?thesis using n by simp
  qed
next
  case False
  with assms(1) obtain j where n: "n = length msg"
    and j: "6 + 7 * j < length msg" "got = take (6 + 7 * j) msg" "(i + 1) mod 16 = (j + 1) mod 16" by auto
  have "i = j" by (rule chunk_numbers [OF j(3)]) (use assms(2,3) j(1) in linarith)+
  have full: "6 + 7 * j + 7 \<le> length msg" using False j(1,2) by simp
  have got: "got @ cf_chunk msg i = take (6 + 7 * Suc j) msg"
    using cf_chunk_full [OF full] j(2) \<open>i = j\<close> by (simp add: algebra_simps)
  have len: "length got = 6 + 7 * j" using full j(2) by simp
  show ?thesis
  proof (cases "length msg = 6 + 7 * Suc j")
    case True
    then show ?thesis using n False got len by (simp del: rx_within.simps(2))
  next
    case more: False
    have "(k + 1) mod 16 = (Suc j + 1) mod 16" using False j(3) by (simp add: mod_simps)
    then have "rx_within msg (Rx_Collecting n ((k + 1) mod 16) (got @ cf_chunk msg i))"
      using rx_withinI [of "Suc j" msg] n full more got by (simp del: rx_within.simps)
    then show ?thesis using n False len more full by (simp del: rx_within.simps)
  qed
qed

lemma rx_step_within:
  assumes "rx_within msg s" "7 < length msg" "length msg \<le> 118" "7 \<le> cap"
    and "p = First_Frame (length msg) (Some (take 6 msg)) \<or>
      p \<in> cf_unit msg ` {..<cf_count msg}"
  shows "\<exists>r s'. rx_step cap s p = Ret (r, s') \<and> rx_within msg s' \<and> (\<forall>m. r = Inr (Complete m) \<longrightarrow> m = msg)"
  using assms(5)
proof (elim disjE imageE)
  assume "p = First_Frame (length msg) (Some (take 6 msg))"
  then show ?thesis using rx_step_first_within [OF assms(2,4,1)] by (simp only:)
next
  fix i
  assume "p = cf_unit msg i" "i \<in> {..<cf_count msg}"
  then have "6 + 7 * i < length msg" "p = Consecutive_Frame ((i + 1) mod 16) (cf_chunk msg i)"
    by (simp_all add: cf_count_less cf_unit_def)
  then show ?thesis
    using rx_step_chunk_within [of msg _ _ _ i cap] assms(1,3) by (cases s) (simp_all only:, simp)
qed

lemma rx_run_within:
  assumes "7 < length msg" "length msg \<le> 118" "7 \<le> cap"
    and "\<forall>p \<in> set ps. p = First_Frame (length msg) (Some (take 6 msg)) \<or>
      p \<in> cf_unit msg ` {..<cf_count msg}"
    and "rx_within msg s"
  shows "\<exists>rs s'. rx_run cap s ps = Ret (rs, s') \<and> (\<forall>m. Inr (Complete m) \<in> set rs \<longrightarrow> m = msg)"
  using assms(4,5)
proof (induction ps arbitrary: s)
  case (Cons p ps)
  from rx_step_within [OF Cons.prems(2) assms(1-3), of p] Cons.prems(1) obtain r s' where
    "rx_step cap s p = Ret (r, s')" "rx_within msg s'" "\<forall>m. r = Inr (Complete m) \<longrightarrow> m = msg" by auto
  with Cons.IH [of s'] Cons.prems(1) show ?case by auto
qed simp

lemma seen_RetD: "seen m = Ret (r, s) \<Longrightarrow> \<exists>l. m = Ret (r, l) \<and> rx_of l = s"
  by (cases m) auto

lemma rx_run_single:
  assumes "\<forall>p \<in> set ps. p = (if msg = [] then Malformed else Single_Frame msg)" "length msg \<le> cap"
  shows "\<exists>rs s'. rx_run cap s ps = Ret (rs, s') \<and> (\<forall>m. Inr (Complete m) \<in> set rs \<longrightarrow> m = msg)"
  using assms(1)
proof (induction ps arbitrary: s)
  case (Cons p ps)
  then have "p = (if msg = [] then Malformed else Single_Frame msg)" by simp
  then show ?case
    using Cons.IH [of s] Cons.IH [of Rx_Idle] Cons.prems assms(2) by (cases "msg = []") auto
qed simp


section \<open>A complete transfer after anything\<close>

lemma feed_every_append:
  "feed_every l (fs @ gs) =
     outcome_bind (feed_every l fs) (\<lambda>(rs, l').
     outcome_bind (feed_every l' gs) (\<lambda>(rs', l''). Ret (rs @ rs', l'')))"
  by (induction fs arbitrary: l)
    (auto simp: outcome_bind_assoc case_prod_beta intro!: outcome_bind_cong)

lemma feed_every_inv:
  "feed_every l fs = Ret (rs, l') \<Longrightarrow> isotp_inv l \<Longrightarrow> isotp_inv l' \<and> length (il_buf l') = length (il_buf l)"
proof (induction fs arbitrary: l rs)
  case (Cons f fs)
  then obtain r l1 rs1 where f: "feed l f = Ret (r, l1)" and fs: "feed_every l1 fs = Ret (rs1, l')"
    by (auto simp: outcome_inversions)
  from feed_preserves [OF Cons.prems(2) f] Cons.IH [OF fs] show ?case by simp
qed simp

text \<open>Frames that \<open>feed_all\<close> takes without an error give the same events frame by frame.\<close>

lemma feed_all_every:
  "feed_all l fs = Ret (Inr evs, l') \<Longrightarrow> feed_every l fs = Ret (map Inr evs, l')"
proof (induction fs arbitrary: l evs)
  case (Cons f fs)
  then obtain r l1 where f: "feed l f = Ret (r, l1)" by (auto simp: outcome_inversions)
  with Cons.prems obtain ev evs' where "r = Inr ev" "evs = ev # evs'" "feed_all l1 fs = Ret (Inr evs', l')"
    by (cases r) (auto simp: outcome_inversions map_sum_eq_Inr)
  with f Cons.IH show ?case by simp
qed simp

text \<open>A first frame or a single frame that is accepted starts afresh.\<close>

lemma rx_run_restart:
  assumes "length msg \<le> cap" "isotp_deliverable (length msg)" "length msg \<le> ISOTP_MAX_MESSAGE"
  shows "rx_run cap s (map parse_pdu (isotp_frames msg)) = rx_run cap Rx_Idle (map parse_pdu (isotp_frames msg))"
proof (cases "length msg \<le> ISOTP_SF_MAX")
  case True
  then show ?thesis
    using assms parse_single_frame [OF True] by (auto simp: isotp_frames_def isotp_deliverable_def)
next
  case False
  then show ?thesis
    using assms parse_first_frame [of msg] by (simp add: isotp_frames_def isotp_consts)
qed

text \<open>The results of a transfer that comes through.\<close>

definition transfer_events :: "u8 list \<Rightarrow> isotp_event list" where
  "transfer_events msg =
     (if length msg \<le> ISOTP_SF_MAX then [Complete msg]
      else NeedFlowControl # replicate ((length msg - ISOTP_FF_MAX) div ISOTP_CF_MAX - 1) Incomplete @ [Complete msg])"

lemma feed_every_transfer:
  assumes "isotp_inv l" "ISOTP_SF_MAX \<le> length (il_buf l)" "length msg \<le> length (il_buf l)"
    and "length msg \<le> ISOTP_MAX_MESSAGE" "isotp_deliverable (length msg)"
  shows "\<exists>l'. feed_every l (isotp_frames msg) = Ret (map Inr (transfer_events msg), l')"
proof -
  let ?N = "length (il_buf l)"
  have "msg \<noteq> []" using assms(5) by (auto simp: isotp_deliverable_def)
  with feed_all_isotp_frames [OF assms(4,3,2)] obtain l1 where
    "feed_all (isotp_link_new ?N) (isotp_frames msg) = Ret (Inr (transfer_events msg), l1)"
    using assms(5) by (auto simp: transfer_events_def)
  then have "seen (feed_every (isotp_link_new ?N) (isotp_frames msg)) = Ret (map Inr (transfer_events msg), rx_of l1)"
    by (simp add: feed_all_every)
  moreover have "rx_of (isotp_link_new ?N) = Rx_Idle" "length (il_buf (isotp_link_new ?N)) = ?N"
    by (simp_all add: rx_of_def isotp_link_new_def)
  ultimately have "rx_run ?N Rx_Idle (map parse_pdu (isotp_frames msg)) = Ret (map Inr (transfer_events msg), rx_of l1)"
    using feed_every_seen [OF isotp_inv_new, of ?N "isotp_frames msg"] by simp
  then have "seen (feed_every l (isotp_frames msg)) = Ret (map Inr (transfer_events msg), rx_of l1)"
    using feed_every_seen [OF assms(1)] rx_run_restart [OF assms(3,5,4)] by simp
  from seen_RetD [OF this] show ?thesis by blast
qed


section \<open>A repeated frame in a long message\<close>

text \<open>Units whose numbers go on from the expected one, and whose data add up to the announced length.\<close>

lemma rx_run_chunks:
  assumes "j < m" "\<forall>i. length (c i) = 7" "n = length got + 7 * (m - j)"
  shows "rx_run cap (Rx_Collecting n ((j + 1) mod 16) got) (map (\<lambda>i. Consecutive_Frame ((i + 1) mod 16) (c i)) [j..<m]) =
    Ret (replicate (m - j - 1) (Inr Incomplete) @ [Inr (Complete (got @ concat (map c [j..<m])))], Rx_Idle)"
  using assms
proof (induction "m - j" arbitrary: j got)
  case (Suc d)
  have up: "[j..<m] = j # [Suc j..<m]" using Suc.prems(1) by (rule upt_conv_Cons)
  show ?case
  proof (cases "Suc j < m")
    case False
    then have "m = Suc j" using Suc.prems(1) by simp
    then show ?thesis using Suc.prems(2,3) by (simp add: up)
  next
    case True
    have "(((j + 1) mod 16) + 1) mod 16 = (Suc j + 1) mod 16" by (simp add: mod_simps)
    moreover have "rx_run cap (Rx_Collecting n ((Suc j + 1) mod 16) (got @ c j))
        (map (\<lambda>i. Consecutive_Frame ((i + 1) mod 16) (c i)) [Suc j..<m]) =
      Ret (replicate (m - Suc j - 1) (Inr Incomplete) @ [Inr (Complete ((got @ c j) @ concat (map c [Suc j..<m])))], Rx_Idle)"
      by (rule Suc.hyps(1)) (use Suc.hyps(2) Suc.prems True in auto)
    moreover have "n \<noteq> length (got @ c j)" "\<not> n < length (got @ c j)" using Suc.prems(2,3) True by auto
    moreover have "m - j - 1 = Suc (m - Suc j - 1)" using True by simp
    ultimately show ?thesis by (simp add: up del: replicate_Suc) simp
  qed
qed simp

text \<open>What a channel that repeats the frame 17 in the place of the frame 1 makes of a long message.\<close>

definition repeat_17 :: "'a list \<Rightarrow> 'a list" where
  "repeat_17 fs = hd fs # fs ! 17 # drop 2 fs"

lemma set_repeat_17: "18 \<le> length fs \<Longrightarrow> set (repeat_17 fs) \<subseteq> set fs"
  using set_drop_subset [of 2 fs] by (cases fs) (auto simp: repeat_17_def)

lemma parse_repeat_17:
  assumes "7 < length msg" "length msg \<le> ISOTP_MAX_MESSAGE" "17 \<le> cf_count msg"
  shows "map parse_pdu (repeat_17 (isotp_frames msg)) = First_Frame (length msg) (Some (take 6 msg)) #
    map (\<lambda>i. Consecutive_Frame ((i + 1) mod 16) (cf_chunk msg (if i = 0 then 16 else i))) [0..<cf_count msg]"
    and "18 \<le> length (isotp_frames msg)"
proof -
  let ?fs = "isotp_frames msg"
  note parsed = parse_isotp_frames [OF assms(1,2)]
  then have len: "length ?fs = Suc (cf_count msg)" by (metis length_Cons length_map length_upt minus_nat.diff_0)
  then show "18 \<le> length ?fs" using assms(3) by simp
  have "map parse_pdu ?fs ! 17 = Consecutive_Frame 1 (cf_chunk msg 16)"
    unfolding parsed using assms(3) by (simp add: cf_unit_def)
  then have unit: "parse_pdu (?fs ! 17) = Consecutive_Frame 1 (cf_chunk msg 16)"
    using len assms(3) by simp
  have hd: "parse_pdu (hd ?fs) = First_Frame (length msg) (Some (take 6 msg))"
    using parsed len by (cases ?fs) simp_all
  have "map parse_pdu (drop 2 ?fs) = map (cf_unit msg) [1..<cf_count msg]"
    unfolding drop_map [symmetric] parsed by (simp add: drop_map)
  then show "map parse_pdu (repeat_17 ?fs) = First_Frame (length msg) (Some (take 6 msg)) #
    map (\<lambda>i. Consecutive_Frame ((i + 1) mod 16) (cf_chunk msg (if i = 0 then 16 else i))) [0..<cf_count msg]"
    using unit hd assms(3) by (simp add: repeat_17_def upt_conv_Cons [of 0] cf_unit_def)
qed


section \<open>Properties\<close>

text \<open>C19: Over a channel that loses, repeats and reorders frames at will, an idle link with a buffer of 7 bytes or more delivers of a
  message of at most 118 bytes either exactly that message or nothing, and \<open>feed\<close> never panics: whatever list of
  frames taken from the message arrives.\<close>
theorem isotp_lossy_channel:
  assumes "isotp_inv l" "\<not> il_receiving l" "ISOTP_SF_MAX \<le> length (il_buf l)" "length msg \<le> 118"
    and "set fs \<subseteq> set (isotp_frames msg)"
  shows "\<exists>rs l'. feed_every l fs = Ret (rs, l') \<and> (\<forall>m. Inr (Complete m) \<in> set rs \<longrightarrow> m = msg)"
proof -
  let ?cap = "length (il_buf l)"
  have "\<exists>rs s'. rx_run ?cap Rx_Idle (map parse_pdu fs) = Ret (rs, s') \<and> (\<forall>m. Inr (Complete m) \<in> set rs \<longrightarrow> m = msg)"
  proof (cases "length msg \<le> ISOTP_SF_MAX")
    case True
    have "\<forall>p \<in> set (map parse_pdu fs). p = (if msg = [] then Malformed else Single_Frame msg)"
      using assms(5) True parse_single_frame [OF True] by (auto simp: isotp_frames_def)
    from rx_run_single [OF this] True assms(3) show ?thesis by simp
  next
    case False
    have "\<forall>p \<in> set (map parse_pdu fs). p = First_Frame (length msg) (Some (take 6 msg)) \<or>
      p \<in> cf_unit msg ` {..<cf_count msg}"
    proof
      fix p
      assume "p \<in> set (map parse_pdu fs)"
      then have "p \<in> set (map parse_pdu (isotp_frames msg))" using assms(5) by auto
      also have "map parse_pdu (isotp_frames msg) =
          First_Frame (length msg) (Some (take 6 msg)) # map (cf_unit msg) [0..<cf_count msg]"
        by (rule parse_isotp_frames) (use assms(4) False in \<open>simp_all add: isotp_consts\<close>)
      finally show "p = First_Frame (length msg) (Some (take 6 msg)) \<or> p \<in> cf_unit msg ` {..<cf_count msg}"
        by auto
    qed
    from rx_run_within [OF _ assms(4) _ this] False assms(3) show ?thesis by (simp add: isotp_consts)
  qed
  then obtain rs s' where "rx_run ?cap Rx_Idle (map parse_pdu fs) = Ret (rs, s')"
    "\<forall>m. Inr (Complete m) \<in> set rs \<longrightarrow> m = msg" by blast
  moreover have "rx_of l = Rx_Idle" using assms(2) by (simp add: rx_of_def)
  ultimately have "seen (feed_every l fs) = Ret (rs, s')"
    using feed_every_seen [OF assms(1), of fs] by simp
  from seen_RetD [OF this] show ?thesis using \<open>\<forall>m. Inr (Complete m) \<in> set rs \<longrightarrow> m = msg\<close> by blast
qed

lemma isotp_lossy_channel_witness:
  "\<exists>rs l'. feed_every (isotp_link_new 16) [[0x21, 7, 8, 9, 10, 11, 12, 13], [0x10, 13, 1, 2, 3, 4, 5, 6],
       [0x10, 13, 1, 2, 3, 4, 5, 6], [0x21, 7, 8, 9, 10, 11, 12, 13], [0x21, 7, 8, 9, 10, 11, 12, 13]] = Ret (rs, l') \<and>
     (\<forall>m. Inr (Complete m) \<in> set rs \<longrightarrow> m = [1, 2, 3, 4, 5, 6, 7, 8, 9, 10, 11, 12, 13])"
proof (rule isotp_lossy_channel)
  show "isotp_inv (isotp_link_new 16)" by (rule isotp_inv_new)
qed (simp_all add: isotp_link_new_def isotp_consts isotp_frames_def pad8_def)

text \<open>The bound is sharp: in a longer message the consecutive frames 1 and 17 have the same number, and a
  channel that repeats the later one in the place of the first makes the link hand out a message that
  was never sent, for every message of at least 125 bytes that can be delivered at all and in which
  the data of these frames differ.\<close>
theorem isotp_lossy_channel_sharp:
  assumes "isotp_inv l" "length msg \<le> length (il_buf l)" "length msg \<le> ISOTP_MAX_MESSAGE"
    and "125 \<le> length msg" "isotp_deliverable (length msg)" "take 7 (drop 6 msg) \<noteq> take 7 (drop 118 msg)"
  shows "set (repeat_17 (isotp_frames msg)) \<subseteq> set (isotp_frames msg) \<and>
    (\<exists>rs l' m. feed_every l (repeat_17 (isotp_frames msg)) = Ret (rs, l') \<and>
       Inr (Complete m) \<in> set rs \<and> m \<noteq> msg)"
proof -
  define c where "c i = cf_chunk msg (if i = 0 then 16 else i)" for i :: nat
  define k where "k = cf_count msg"
  let ?got = "take 6 msg @ concat (map c [0..<k])"
  have "(length msg - 6) mod 7 = 0" using assms(4,5) by (simp add: isotp_deliverable_def isotp_consts)
  then obtain j where "length msg - 6 = 7 * j" by auto
  then have "length msg = 6 + 7 * j" "17 \<le> j" using assms(4) by simp_all
  then have k: "17 \<le> k" "length msg = 6 + 7 * k" by (simp_all add: k_def cf_count_def)
  have long: "7 < length msg" using assms(4) by simp
  note parsed = parse_repeat_17 [OF long assms(3) k(1) [unfolded k_def]]
  have "rx_run (length (il_buf l)) (Rx_Collecting (length msg) ((0 + 1) mod 16) (take 6 msg))
      (map (\<lambda>i. Consecutive_Frame ((i + 1) mod 16) (c i)) [0..<k]) =
    Ret (replicate (k - 0 - 1) (Inr Incomplete) @ [Inr (Complete ?got)], Rx_Idle)"
    by (rule rx_run_chunks) (use k in \<open>auto simp: c_def\<close>)
  then have "seen (feed_every l (repeat_17 (isotp_frames msg))) =
    Ret (Inr NeedFlowControl # replicate (k - 1) (Inr Incomplete) @ [Inr (Complete ?got)], Rx_Idle)"
    using feed_every_seen [OF assms(1)] parsed(1) assms(2,4) by (simp add: c_def k_def)
  from seen_RetD [OF this] obtain l' where "feed_every l (repeat_17 (isotp_frames msg)) =
      Ret (Inr NeedFlowControl # replicate (k - 1) (Inr Incomplete) @ [Inr (Complete ?got)], l')" by blast
  moreover have "take 7 (drop 6 ?got) = take 7 (drop 118 msg)"
    using k assms(4) by (simp add: upt_conv_Cons c_def cf_chunk_def)
  then have "?got \<noteq> msg" using assms(6) by metis
  ultimately show ?thesis using set_repeat_17 [OF parsed(2)] by auto
qed

lemma isotp_lossy_channel_sharp_witness:
  "let msg = map of_nat [0..<125] in
   set (repeat_17 (isotp_frames msg)) \<subseteq> set (isotp_frames msg) \<and>
    (\<exists>rs l' m. feed_every (isotp_link_new 125) (repeat_17 (isotp_frames msg)) = Ret (rs, l') \<and>
       Inr (Complete m) \<in> set rs \<and> m \<noteq> msg)"
proof -
  let ?msg = "map of_nat [0..<125] :: u8 list"
  have "take 7 (drop 6 ?msg) \<noteq> take 7 (drop 118 ?msg)" by (simp add: take_map drop_map upt_conv_Cons)
  from isotp_lossy_channel_sharp [OF isotp_inv_new _ _ _ _ this, of 125] show ?thesis
    by (simp add: isotp_link_new_def isotp_consts isotp_deliverable_def Let_def)
qed

text \<open>C20: A link is never stuck: whatever was fed before, as long as no frame made \<open>feed\<close> panic, the frames of a
  message that the receiver can take come through and the message is delivered, each call reporting
  what it should. The receiver, with a buffer of 7 bytes or more, can take a message that fits the buffer, has
  at most 4095 bytes and no padding in its last consecutive frame.\<close>
theorem isotp_link_recovers:
  assumes "isotp_inv l" "feed_every l junk = Ret (rs, l1)"
    and "ISOTP_SF_MAX \<le> length (il_buf l)" "length msg \<le> length (il_buf l)"
    and "length msg \<le> ISOTP_MAX_MESSAGE" "isotp_deliverable (length msg)"
  shows "\<exists>l'. feed_every l (junk @ isotp_frames msg) = Ret (rs @ map Inr (transfer_events msg), l')"
proof -
  note inv = feed_every_inv [OF assms(2,1)]
  from feed_every_transfer [of l1 msg] inv assms(3-6) obtain l' where
    "feed_every l1 (isotp_frames msg) = Ret (map Inr (transfer_events msg), l')" by auto
  then show ?thesis using assms(2) by (simp add: feed_every_append)
qed

lemma isotp_link_recovers_witness:
  "\<exists>l'. feed_every (isotp_link_new 16) ([[0x10, 9, 0, 0, 0, 0, 0, 0], [0x25, 1]] @ isotp_frames [1, 2, 3]) =
     Ret ([Inr NeedFlowControl, Inl WrongSequence] @ map Inr (transfer_events [1, 2, 3]), l')"
proof -
  have "\<exists>l1. feed_every (isotp_link_new 16) [[0x10, 9, 0, 0, 0, 0, 0, 0], [0x25, 1]] =
     Ret ([Inr NeedFlowControl, Inl WrongSequence], l1)"
    by (intro exI) code_simp
  then obtain l1 where "feed_every (isotp_link_new 16) [[0x10, 9, 0, 0, 0, 0, 0, 0], [0x25, 1]] =
     Ret ([Inr NeedFlowControl, Inl WrongSequence], l1)" by blast
  from isotp_link_recovers [OF isotp_inv_new this, of "[1, 2, 3]"] show ?thesis
    by (simp add: isotp_link_new_def isotp_consts isotp_deliverable_def)
qed

text \<open>After an \<open>Overflow\<close> the link goes on with the next number: a consecutive frame that holds more than
  what is missing is refused, but its number counts, so the frame after it can complete the message
  although the data between are lost. ISO 15765-2 ends the reception.\<close>
theorem isotp_overflow_skips_data:
  assumes "isotp_inv l" "rx_of l = Rx_Collecting n k got"
    and "parse_pdu f = Consecutive_Frame k data" "n < length (got @ data)"
    and "parse_pdu g = Consecutive_Frame ((k + 1) mod 16) data'" "n = length (got @ data')"
  shows "\<exists>l'. feed_every l [f, g] = Ret ([Inl Overflow, Inr (Complete (got @ data'))], l')"
proof -
  have "seen (feed_every l [f, g]) = Ret ([Inl Overflow, Inr (Complete (got @ data'))], Rx_Idle)"
    using assms feed_every_seen [OF assms(1), of "[f, g]"] by simp
  from seen_RetD [OF this] show ?thesis by blast
qed

lemma isotp_overflow_skips_data_witness:
  "\<exists>l l'. feed (isotp_link_new 16) [0x10, 8, 1, 2, 3, 4, 5, 6] = Ret (Inr NeedFlowControl, l) \<and>
     feed_every l [[0x21, 7, 8, 0, 0, 0, 0, 0], [0x22, 9, 9]] =
       Ret ([Inl Overflow, Inr (Complete [1, 2, 3, 4, 5, 6, 9, 9])], l')"
proof -
  let ?f = "[0x10, 8, 1, 2, 3, 4, 5, 6] :: u8 list"
  have "seen (feed (isotp_link_new 16) ?f) = Ret (Inr NeedFlowControl, Rx_Collecting 8 1 [1, 2, 3, 4, 5, 6])"
    using feed_seen [OF isotp_inv_new, of 16 ?f] by (simp add: isotp_link_new_def rx_of_def parse_pdu_def)
  from seen_RetD [OF this] obtain l where l: "feed (isotp_link_new 16) ?f = Ret (Inr NeedFlowControl, l)"
    "rx_of l = Rx_Collecting 8 1 [1, 2, 3, 4, 5, 6]" by blast
  from feed_preserves [OF isotp_inv_new l(1)] have "isotp_inv l" by simp
  moreover have "parse_pdu [0x21, 7, 8, 0, 0, 0, 0, 0] = Consecutive_Frame 1 [7, 8, 0, 0, 0, 0, 0]"
    "parse_pdu [0x22, 9, 9] = Consecutive_Frame ((1 + 1) mod 16) [9, 9]" by code_simp+
  ultimately show ?thesis
    using isotp_overflow_skips_data [OF _ l(2), of "[0x21, 7, 8, 0, 0, 0, 0, 0]" "[7, 8, 0, 0, 0, 0, 0]"
        "[0x22, 9, 9]" "[9, 9]"] l(1)
    by simp
qed

end
