(* ===== verification/Ota_Faults.thy ===== *)
theory Ota_Faults
  imports Ota_Journal
begin

text \<open>
  The update engine of \<open>core/src/ota.rs\<close> over storage on which a journal write can be cut short as well. The
  journal is then unreadable, and the engine has no copy of it. The locale \<open>faulty_storage\<close> weakens
  \<open>ota_storage\<close> accordingly: a view of the storage may have no journal, and every access may go
  differently each time. What remains is that the engine never reports a slot whose image is not
  trusted, and that a completed staging writes a new journal.
\<close>


section \<open>Storage that can lose the journal\<close>

lemma ok_or_eq_Inr: "ok_or x e = Inr y \<longleftrightarrow> x = Some y"
  by (cases x) simp_all

record 's lossy_view =
  lv_slots :: "'s \<Rightarrow> u8 \<Rightarrow> u8 list"
  lv_journal :: "'s \<Rightarrow> slot_state option"
  lv_good :: "'s \<Rightarrow> bool"

text \<open>The index of the operations says how the accesses of one call go.\<close>

locale faulty_storage =
  fixes S :: "'i \<Rightarrow> 's ota_storage_ops" and W :: "'s lossy_view"
  assumes read_state: "lv_good W s \<Longrightarrow> os_read_state (S i) s = Inr st \<Longrightarrow> lv_journal W s = Some st"
    and write_state: "lv_good W s \<Longrightarrow> journal_ok st \<Longrightarrow>
          \<exists>r s'. os_write_state (S i) s st = Ret (r, s') \<and> lv_good W s' \<and> lv_slots W s' = lv_slots W s \<and>
            (lv_journal W s' = Some st \<or> r \<noteq> Inr () \<and> lv_journal W s' \<in> {lv_journal W s, None})"
    and write_slot: "lv_good W s \<Longrightarrow> k \<le> 1 \<Longrightarrow> length data \<le> os_slot_capacity (S i) s \<Longrightarrow>
          \<exists>r s'. os_write_slot (S i) s k 0 data = Ret (r, s') \<and> lv_good W s' \<and>
            lv_journal W s' = lv_journal W s \<and> lv_slots W s' (1 - k) = lv_slots W s (1 - k) \<and>
            (r = Inr () \<longrightarrow> take (length data) (lv_slots W s' k) = data)"
    and journal: "lv_good W s \<Longrightarrow> lv_journal W s = Some st \<Longrightarrow> journal_ok st"

text \<open>Storage that keeps the stronger promise is a special case.\<close>

definition with_journal :: "'s storage_view \<Rightarrow> 's lossy_view" where
  "with_journal W = \<lparr>lv_slots = sv_image W, lv_journal = Some \<circ> sv_journal W, lv_good = sv_ok W\<rparr>"

sublocale ota_storage \<subseteq> steady: faulty_storage "\<lambda>_ :: unit. S" "with_journal W"
proof (unfold_locales, goal_cases)
  case (1 s i st)
  then show ?case using read_state [of s] by (simp add: with_journal_def)
next
  case (2 s st i)
  then have "sv_ok W s" by (simp add: with_journal_def)
  from write_state [OF this 2(2)] show ?case by (fastforce simp: with_journal_def split: if_splits)
next
  case (3 s k data i)
  then have "sv_ok W s" "length data \<le> os_slot_capacity S s" by (simp_all add: with_journal_def)
  from write_slot [OF this(1) 3(2) this(2)] show ?case by (simp add: with_journal_def)
next
  case (4 s st)
  then show ?case using journal [of s] by (auto simp: with_journal_def)
qed


section \<open>Runs\<close>

text \<open>
  The slot last known to run, as an operator keeps it: from the journal while there is one. The
  discipline, with a lost journal: stage into the slot that does not run, as the engine's documentation
  asks, and only while an image is committed or the journal is lost, which it does not ask for.
\<close>

definition known_slot :: "slot_state option \<Rightarrow> u8 \<Rightarrow> u8" where
  "known_slot j g = (case j of Some st \<Rightarrow> running_slot st | None \<Rightarrow> g)"

fun op_careful :: "u8 \<Rightarrow> slot_state option \<Rightarrow> engine_op \<Rightarrow> bool" where
  "op_careful g j (Op_Stage p payload sig) \<longleftrightarrow>
     up_slot p = 1 - g \<and> (j = None \<or> j = Some ActiveSlot0 \<or> j = Some ActiveSlot1)"
| "op_careful g j _ \<longleftrightarrow> True"

text \<open>The account of where the slots' bytes are from, as in \<open>Ota\<close>.\<close>

fun op_origins :: "(u8 \<Rightarrow> origin) \<Rightarrow> engine_op \<Rightarrow> ota_error + 'x \<Rightarrow> u8 \<Rightarrow> origin" where
  "op_origins os (Op_Stage p payload sig) r = origin_staged os p payload sig r"
| "op_origins os _ r = os"

text \<open>
  A run: operations, each with accesses that go as some index says, and stagings that lose power
  between the signature check and the journal write, which leave anything in their slot. A power loss
  in a journal write is a write that fails: it may leave the old journal, the new one or none.
\<close>

inductive faulty_reach ::
  "target \<Rightarrow> ('i \<Rightarrow> 's ota_storage_ops) \<Rightarrow> 's lossy_view \<Rightarrow> 'v signature_scheme \<Rightarrow>
   u8 \<Rightarrow> (u8 \<Rightarrow> origin) \<Rightarrow> ('s, 'v) ota_engine \<Rightarrow> u8 \<Rightarrow> (u8 \<Rightarrow> origin) \<Rightarrow> ('s, 'v) ota_engine \<Rightarrow> bool"
  for t :: target and S :: "'i \<Rightarrow> 's ota_storage_ops" and W :: "'s lossy_view"
    and V :: "'v signature_scheme" and g0 :: u8 and os0 :: "u8 \<Rightarrow> origin" and e0 :: "('s, 'v) ota_engine"
where
  faulty_init: "faulty_reach t S W V g0 os0 e0 g0 os0 e0"
| faulty_step: "faulty_reach t S W V g0 os0 e0 g os e \<Longrightarrow> engine_op_run t (S i) V x e = Ret (r, e') \<Longrightarrow>
     op_careful g (lv_journal W (oe_storage e)) x \<Longrightarrow>
     faulty_reach t S W V g0 os0 e0 (known_slot (lv_journal W (oe_storage e')) g) (op_origins os x r) e'"
| faulty_torn: "faulty_reach t S W V g0 os0 e0 g os e \<Longrightarrow> stage_verified (S i) V e p payload sig \<Longrightarrow>
     op_careful g (lv_journal W (oe_storage e)) (Op_Stage p payload sig) \<Longrightarrow> lv_good W s' \<Longrightarrow>
     lv_journal W s' = lv_journal W (oe_storage e) \<Longrightarrow>
     lv_slots W s' (1 - up_slot p) = lv_slots W (oe_storage e) (1 - up_slot p) \<Longrightarrow>
     faulty_reach t S W V g0 os0 e0 g (os(up_slot p := Scrap)) (e\<lparr>oe_storage := s'\<rparr>)"

text \<open>The invariant: the slot last known to run can be trusted, and a journal leads only to slots that
  can, and agrees on which one runs.\<close>

definition faulty_safe ::
  "'s lossy_view \<Rightarrow> 'v signature_scheme \<Rightarrow> 'v \<Rightarrow> u8 list \<Rightarrow> u8 \<Rightarrow> (u8 \<Rightarrow> origin) \<Rightarrow> ('s, 'v) ota_engine \<Rightarrow> bool" where
  "faulty_safe W V v factory g os e \<longleftrightarrow>
     lv_good W (oe_storage e) \<and> oe_signer e = v \<and> g \<le> 1 \<and>
     slots_trusted V v factory os (lv_slots W (oe_storage e)) g \<and>
     (\<forall>st. lv_journal W (oe_storage e) = Some st \<longrightarrow>
        slots_safe (slots_trusted V v factory os (lv_slots W (oe_storage e))) st \<and> g = running_slot st)"

context faulty_storage
begin

text \<open>A step that changes no slot and leaves the journal as it was, lost, or replaced by a safe one.\<close>

lemma journal_step_safe:
  assumes "faulty_safe W V v factory g os e" "lv_good W s'" "lv_slots W s' = lv_slots W (oe_storage e)"
    and "lv_journal W s' = Some st \<or> lv_journal W s' \<in> {lv_journal W (oe_storage e), None}"
    and "slots_safe (slots_trusted V v factory os (lv_slots W (oe_storage e))) st"
  shows "faulty_safe W V v factory (known_slot (lv_journal W s') g) os (e\<lparr>oe_storage := s'\<rparr>)"
  using assms slots_safe_running [OF assms(5)]
  by (auto simp: faulty_safe_def known_slot_def split: option.splits)

lemma write_journal_faulty:
  assumes "faulty_safe W V v factory g os e" "journal_ok st"
    and "slots_safe (slots_trusted V v factory os (lv_slots W (oe_storage e))) st"
  shows "\<exists>r e'. write_journal (S i) f st x e = Ret (r, e') \<and>
    faulty_safe W V v factory (known_slot (lv_journal W (oe_storage e')) g) os e' \<and>
    (\<forall>y. r = Inr y \<longrightarrow> y = x \<and> lv_journal W (oe_storage e') = Some st)"
proof -
  have "lv_good W (oe_storage e)" using assms(1) by (simp add: faulty_safe_def)
  from write_state [OF this assms(2), of i] obtain r s' where
    w: "os_write_state (S i) (oe_storage e) st = Ret (r, s')" "lv_good W s'" "lv_slots W s' = lv_slots W (oe_storage e)"
    "lv_journal W s' = Some st \<or> r \<noteq> Inr () \<and> lv_journal W s' \<in> {lv_journal W (oe_storage e), None}" by blast
  have "faulty_safe W V v factory (known_slot (lv_journal W s') g) os (e\<lparr>oe_storage := s'\<rparr>)"
    by (rule journal_step_safe [OF assms(1) w(2,3) _ assms(3)]) (use w(4) in blast)
  then show ?thesis using w by (cases r) (auto simp: write_journal_def)
qed

lemma known_slot_same: "faulty_safe W V v factory g os e \<Longrightarrow> known_slot (lv_journal W (oe_storage e)) g = g"
  by (auto simp: faulty_safe_def known_slot_def split: option.split)

text \<open>A staging with care, as far as the slot that runs is concerned.\<close>

lemma careful_slot:
  assumes "faulty_safe W V v factory g os e" "op_careful g (lv_journal W (oe_storage e)) (Op_Stage p payload sig)"
  shows "1 - up_slot p = g" "g \<noteq> up_slot p"
  using assms by (auto simp: faulty_safe_def slot_le_1)

lemma other_slot_safe:
  assumes "faulty_safe W V v factory g os e" "op_careful g (lv_journal W (oe_storage e)) (Op_Stage p payload sig)"
    and "lv_good W s'" "lv_journal W s' = lv_journal W (oe_storage e)" "lv_slots W s' g = lv_slots W (oe_storage e) g"
  shows "faulty_safe W V v factory g (os(up_slot p := x)) (e\<lparr>oe_storage := s'\<rparr>)"
  using assms slots_trusted_other [of g "up_slot p" "lv_slots W s'" "lv_slots W (oe_storage e)" V v factory os x]
    careful_slot(2) [OF assms(1,2)]
  by (auto simp: faulty_safe_def)

text \<open>What a successful read of the journal says.\<close>

lemma faulty_read:
  assumes "faulty_safe W V v factory g os e" "os_read_state (S i) (oe_storage e) = Inr st"
  shows "lv_journal W (oe_storage e) = Some st" "journal_ok st" "g = running_slot st"
    "slots_safe (slots_trusted V v factory os (lv_slots W (oe_storage e))) st"
  using assms read_state [of "oe_storage e" i st] journal [of "oe_storage e" st] by (auto simp: faulty_safe_def)

text \<open>The operations that write nothing but the journal.\<close>

lemma journal_ops_faulty:
  assumes "faulty_safe W V v factory g os e" "x \<in> {Op_Promote, Op_Commit, Op_Rollback, Op_Recover, Op_State}"
  shows "\<exists>r e'. engine_op_run t (S i) V x e = Ret (r, e') \<and>
    faulty_safe W V v factory (known_slot (lv_journal W (oe_storage e')) g) os e'"
proof (cases "os_read_state (S i) (oe_storage e)")
  case (Inl err)
  then show ?thesis
    using assms known_slot_same [OF assms(1)]
    by (auto simp: ota_promote_def ota_commit_def ota_rollback_def ota_recover_def ota_state_def)
next
  case (Inr st)
  note st = faulty_read [OF assms(1) Inr]
  let ?img = "lv_slots W (oe_storage e)"
  note w = write_journal_faulty [OF assms(1), where i = i]
  from assms(2) consider "x = Op_Recover" | "x = Op_Promote" | "x = Op_Commit" | "x = Op_Rollback" | "x = Op_State"
    by auto
  then show ?thesis
  proof cases
    case 1
    have "ota_recover t (S i) e = write_journal (S i) id (resolved_state st) (running_slot (resolved_state st)) e"
      by (rule ota_recover_eq [OF Inr st(2)])
    with w [OF resolved_safe(2,1) [OF st(4)], of id "running_slot (resolved_state st)"] 1 show ?thesis
      by (auto simp: with_value_def known_slot_def map_sum_eq_Inr)
  next
    case 2
    show ?thesis
    proof (cases st)
      case (Pending c)
      then have "journal_ok (Testing c (1 - c))" "slots_safe (slots_trusted V v factory os ?img) (Testing c (1 - c))" "c \<le> 1"
        using st(4) by (auto simp: slot_le_1)
      from w [OF this(1,2), of "\<lambda>_. Storage" c] this(3) 2 Pending Inr show ?thesis
        by (auto simp: ota_promote_def with_value_def)
    qed (use 2 Inr known_slot_same [OF assms(1)] assms(1) in \<open>auto simp: ota_promote_def\<close>)
  next
    case 3
    show ?thesis
    proof (cases st)
      case (Testing a f)
      let ?st = "if a = 0 then ActiveSlot0 else ActiveSlot1"
      have "journal_ok ?st" "slots_safe (slots_trusted V v factory os ?img) ?st"
        using st(4) Testing by (auto simp: slot_le_1)
      from w [OF this, of "\<lambda>_. Storage" a] 3 Testing Inr show ?thesis
        by (auto simp: ota_commit_def with_value_def)
    qed (use 3 Inr known_slot_same [OF assms(1)] assms(1) in \<open>auto simp: ota_commit_def\<close>)
  next
    case 4
    show ?thesis
    proof (cases st)
      case (Testing a f)
      let ?st = "if f = 0 then ActiveSlot0 else ActiveSlot1"
      have "journal_ok ?st" "slots_safe (slots_trusted V v factory os ?img) ?st"
        using st(4) Testing by (auto simp: slot_le_1)
      from w [OF this, of "\<lambda>_. Storage" a] 4 Testing Inr show ?thesis
        by (auto simp: ota_rollback_def with_value_def)
    qed (use 4 Inr known_slot_same [OF assms(1)] assms(1) in \<open>auto simp: ota_rollback_def\<close>)
  next
    case 5
    then show ?thesis using assms(1) Inr known_slot_same [OF assms(1)] by (simp add: ota_state_def)
  qed
qed

text \<open>Staging into the slot that does not run.\<close>

lemma stage_faulty:
  assumes "faulty_safe W V v factory g os e" "op_careful g (lv_journal W (oe_storage e)) (Op_Stage p payload sig)"
  shows "\<exists>r e'. ota_stage (S i) V e p payload sig = Ret (r, e') \<and>
    faulty_safe W V v factory (known_slot (lv_journal W (oe_storage e')) g) (origin_staged os p payload sig r) e' \<and>
    (r = Inr () \<longrightarrow> stage_verified (S i) V e p payload sig \<and> lv_journal W (oe_storage e') = Some (Pending (up_slot p)))"
proof (cases "stage_verified (S i) V e p payload sig")
  case False
  then show ?thesis
    using assms(1) known_slot_same [OF assms(1)] by (auto simp: ota_stage_eq stage_verified_def origin_staged_def)
next
  case True
  let ?s = "oe_storage e"
  let ?installed = "os(up_slot p := Installed p payload sig)"
  have ok: "lv_good W ?s" "oe_signer e = v" "g \<le> 1" "slots_trusted V v factory os (lv_slots W ?s) g"
    using assms(1) by (simp_all add: faulty_safe_def)
  have k: "up_slot p \<le> 1" "1 - up_slot p = g" "g \<noteq> up_slot p" using assms(2) ok(3) by (auto simp: slot_le_1)
  from True have len: "length payload \<le> os_slot_capacity (S i) ?s" by (simp add: stage_verified_def)
  from write_slot [OF ok(1) k(1) len] obtain r s' where
    w: "os_write_slot (S i) ?s (up_slot p) 0 payload = Ret (r, s')" "lv_good W s'"
    "lv_journal W s' = lv_journal W ?s" "lv_slots W s' g = lv_slots W ?s g"
    "r = Inr () \<longrightarrow> take (length payload) (lv_slots W s' (up_slot p)) = payload" unfolding k(2) by blast
  let ?e = "e\<lparr>oe_storage := s'\<rparr>"
  have e: "faulty_safe W V v factory g (os(up_slot p := x)) ?e" for x
    by (rule other_slot_safe [OF assms w(2-4)])
  have stage: "ota_stage (S i) V e p payload sig =
    (case r of Inl _ \<Rightarrow> Ret (Inl WriteFailed, ?e)
     | Inr _ \<Rightarrow> write_journal (S i) (\<lambda>_. Storage) (Pending (up_slot p)) () ?e)"
    using True w(1) by (simp add: ota_stage_eq stage_verified_def Let_def)
  show ?thesis
  proof (cases r)
    case (Inl err)
    with stage e known_slot_same [OF e] show ?thesis by (simp add: origin_staged_def)
  next
    case (Inr u)
    then have "slots_trusted V v factory ?installed (lv_slots W s') (up_slot p)"
      using slots_trusted_installed [OF True] w(5) ok(2) by simp
    then have "slots_safe (slots_trusted V v factory ?installed (lv_slots W (oe_storage ?e))) (Pending (up_slot p))"
      using k e [of "Installed p payload sig"] by (simp add: faulty_safe_def)
    moreover have "origin_staged os p payload sig q = ?installed"
      if "write_journal (S i) (\<lambda>_. Storage) (Pending (up_slot p)) () ?e = Ret (q, e')" for q e'
      using write_journal_result [OF that] by (auto simp: origin_staged_def)
    ultimately show ?thesis
      using write_journal_faulty [OF e, of "Pending (up_slot p)" "Installed p payload sig" i "\<lambda>_. Storage" "()"]
        k(1) stage Inr True by fastforce
  qed
qed

lemma op_faulty:
  assumes "faulty_safe W V v factory g os e" "op_careful g (lv_journal W (oe_storage e)) x"
  shows "\<exists>r e'. engine_op_run t (S i) V x e = Ret (r, e') \<and>
    faulty_safe W V v factory (known_slot (lv_journal W (oe_storage e')) g) (op_origins os x r) e'"
proof (cases x)
  case (Op_Stage p payload sig)
  from stage_faulty [OF assms(1), of p payload sig i] assms(2) Op_Stage obtain r e' where
    "ota_stage (S i) V e p payload sig = Ret (r, e')"
    "faulty_safe W V v factory (known_slot (lv_journal W (oe_storage e')) g) (origin_staged os p payload sig r) e'"
    by blast
  then show ?thesis
    unfolding Op_Stage by (intro exI [of _ "map_sum id (\<lambda>_. Op_Done) r"] exI [of _ e']) (simp add: with_value_def)
qed (use journal_ops_faulty [OF assms(1), of x t i] in auto)

lemma reach_faulty:
  "faulty_reach t S W V g0 os0 e0 g os e \<Longrightarrow> faulty_safe W V v factory g0 os0 e0 \<Longrightarrow>
   faulty_safe W V v factory g os e"
proof (induction rule: faulty_reach.induct)
  case (faulty_step g os e i x r e')
  from op_faulty [OF faulty_step.IH [OF faulty_step.prems] faulty_step.hyps(3), of t i] faulty_step.hyps(2)
  show ?case by auto
next
  case (faulty_torn g os e i p payload sig s')
  from faulty_torn.hyps(6) have "lv_slots W s' g = lv_slots W (oe_storage e) g"
    using careful_slot [OF faulty_torn.IH [OF faulty_torn.prems] faulty_torn.hyps(3)] by simp
  then show ?case by (rule other_slot_safe [OF faulty_torn.IH [OF faulty_torn.prems] faulty_torn.hyps(3-5)])
qed simp

text \<open>A reboot in a reachable state: it reports the slot the journal then says is running.\<close>

lemma recover_faulty:
  assumes "faulty_safe W V v factory g os e"
  shows "\<exists>r e'. ota_recover t (S i) e = Ret (r, e') \<and>
    faulty_safe W V v factory (known_slot (lv_journal W (oe_storage e')) g) os e' \<and>
    (\<forall>a. r = Inr a \<longrightarrow> (\<exists>st. lv_journal W (oe_storage e') = Some st \<and> a = running_slot st) \<and>
       trusted V v factory a (os a) (lv_slots W (oe_storage e') a))"
proof (cases "os_read_state (S i) (oe_storage e)")
  case (Inl err)
  then show ?thesis using assms known_slot_same [OF assms] by (simp add: ota_recover_def)
next
  case (Inr st)
  note st = faulty_read [OF assms Inr]
  have rec: "ota_recover t (S i) e = write_journal (S i) id (resolved_state st) (running_slot (resolved_state st)) e"
    by (rule ota_recover_eq [OF Inr st(2)])
  from write_journal_faulty [OF assms resolved_safe(2,1) [OF st(4)], of i id "running_slot (resolved_state st)", folded rec]
  obtain r e' where r: "ota_recover t (S i) e = Ret (r, e')"
    "faulty_safe W V v factory (known_slot (lv_journal W (oe_storage e')) g) os e'"
    "\<forall>y. r = Inr y \<longrightarrow> y = running_slot (resolved_state st) \<and> lv_journal W (oe_storage e') = Some (resolved_state st)"
    by blast
  have "slots_trusted V v factory os (lv_slots W (oe_storage e')) (running_slot q)"
    if "lv_journal W (oe_storage e') = Some q" for q
    using r(2) slots_safe_running [of _ q] that by (auto simp: faulty_safe_def)
  with r show ?thesis by (auto simp: slots_trusted_def)
qed

text \<open>Without a journal nothing but staging does anything; a staging that succeeds writes a new one.\<close>

lemma lost_journal:
  assumes "lv_good W (oe_storage e)" "lv_journal W (oe_storage e) = None"
    and "x \<in> {Op_Promote, Op_Commit, Op_Rollback, Op_Recover, Op_State}"
  shows "\<exists>err. engine_op_run t (S i) V x e = Ret (Inl err, e)"
proof -
  obtain err where "os_read_state (S i) (oe_storage e) = Inl err"
    using read_state [OF assms(1), of i] assms(2) by (cases "os_read_state (S i) (oe_storage e)") auto
  then show ?thesis
    using assms(3) by (auto simp: ota_promote_def ota_commit_def ota_rollback_def ota_recover_def ota_state_def)
qed

end

end
