(* ===== verification/Agl_Faults.thy ===== *)
theory Agl_Faults
  imports Ota_Faults
begin

text \<open>
  The backend of \<open>agl/src/ota_storage.rs\<close> on a file system that may do almost anything to any access: hide a
  slot file, refuse to open or create a file, cut a write of a slot or of the journal short, differently
  for every call. It is a \<open>faulty_storage\<close>, so the engine over it never reports a slot that cannot be
  trusted; what it can lose is the journal. What the file system must not do is to hide the journal file:
  the backend then takes the vehicle for a new one.
\<close>


section \<open>The view of the files\<close>

definition agl_journal_file :: "agl_storage \<Rightarrow> slot_state option" where
  "agl_journal_file s =
     (case ag_files s (state_path s) of
        None \<Rightarrow> Some ActiveSlot0
      | Some content \<Rightarrow> if length content < 2 then None else slot_state_decode (content ! 0) (content ! 1))"

definition agl_lossy_view :: "target \<Rightarrow> agl_storage lossy_view" where
  "agl_lossy_view t =
     \<lparr>lv_slots = agl_image, lv_journal = agl_journal_file, lv_good = \<lambda>s. ag_slot_capacity s < 2 ^ usize_bits t\<rparr>"

text \<open>The metadata of the journal file can be read, so it is never taken to be missing.\<close>

definition journal_visible :: "file_system \<Rightarrow> bool" where
  "journal_visible F \<longleftrightarrow> (\<forall>m s. fs_stat F m (state_path s))"

lemma agl_read_journal_file:
  "journal_visible F \<Longrightarrow> agl_read_state F s = Inr st \<Longrightarrow> agl_journal_file s = Some st"
  by (cases "ag_files s (state_path s)")
    (auto simp: agl_read_state_def agl_journal_file_def journal_visible_def open_and_read_def read_exact_def ok_or_eq_Inr
      split: if_splits)

lemma create_and_write_cases:
  "create_and_write F m p bytes = (ok, m') \<Longrightarrow>
   m' p = Some bytes \<or> \<not> ok \<and> (m' = m \<or> (\<exists>n. m' p = Some (take n bytes)))"
  by (auto simp: create_and_write_def split: write_result.splits)

lemma agl_write_journal_file:
  assumes "journal_ok st"
  shows "\<exists>r s'. agl_write_state F t s st = Ret (r, s') \<and> ag_slot_capacity s' = ag_slot_capacity s \<and>
    agl_image s' = agl_image s \<and>
    (agl_journal_file s' = Some st \<or> r \<noteq> Inr () \<and> agl_journal_file s' \<in> {agl_journal_file s, None})"
proof -
  obtain b0 b1 where b: "slot_state_encode t st = Ret [b0, b1]" "slot_state_decode b0 b1 = Some st"
    using slot_state_encode_decode [OF assms] by blast
  obtain ok m where w: "create_and_write F (ag_files s) (state_path s) [b0, b1] = (ok, m)"
    by (cases "create_and_write F (ag_files s) (state_path s) [b0, b1]")
  let ?s = "s\<lparr>ag_files := m\<rparr>"
  have other: "m q = ag_files s q" if "q \<noteq> state_path s" for q
    using create_and_write_other [OF that, of F "ag_files s" "[b0, b1]"] w by simp
  have i: "agl_image ?s = agl_image s" using other by (simp add: agl_image_def fun_eq_iff split: option.split)
  have "agl_journal_file ?s = Some st \<or> \<not> ok \<and> agl_journal_file ?s \<in> {agl_journal_file s, None}"
    using create_and_write_cases [OF w]
  proof (elim disjE conjE exE)
    fix n
    assume "m (state_path s) = Some (take n [b0, b1])" "\<not> ok"
    then show ?thesis using b(2) by (cases "n < 2") (auto simp: agl_journal_file_def)
  qed (auto simp: agl_journal_file_def b(2))
  then show ?thesis
    by (intro exI [of _ "if ok then Inr () else Inl Storage"] exI [of _ ?s]) (auto simp: agl_write_state_def b(1) w i)
qed

lemma agl_write_slot_lossy:
  assumes "ag_slot_capacity s < 2 ^ usize_bits t" "k \<le> 1" "length data \<le> ag_slot_capacity s"
  shows "\<exists>r s'. agl_write_slot F t s k 0 data = Ret (r, s') \<and> ag_slot_capacity s' = ag_slot_capacity s \<and>
    agl_journal_file s' = agl_journal_file s \<and> agl_image s' (1 - k) = agl_image s (1 - k) \<and>
    (r = Inr () \<longrightarrow> take (length data) (agl_image s' k) = data)"
proof -
  from agl_write_slot_files [OF assms(1,3), of F k] obtain r m where
    w: "agl_write_slot F t s k 0 data = Ret (r, s\<lparr>ag_files := m\<rparr>)" "\<And>q. q \<noteq> slot_path s k \<Longrightarrow> m q = ag_files s q"
    "r = Inr () \<Longrightarrow> take (length data) (agl_image (s\<lparr>ag_files := m\<rparr>) k) = data" by blast
  have "agl_journal_file (s\<lparr>ag_files := m\<rparr>) = agl_journal_file s" using w(2) by (simp add: agl_journal_file_def)
  with w agl_image_other [OF assms(2) w(2)] show ?thesis
    by (intro exI [of _ r] exI [of _ "s\<lparr>ag_files := m\<rparr>"]) simp
qed

lemma agl_faulty_storage:
  assumes "\<forall>i. journal_visible (Fs i)"
  shows "faulty_storage (\<lambda>i. agl_ops (Fs i) t) (agl_lossy_view t)"
proof (unfold_locales, goal_cases)
  case (1 s i st)
  then show ?case using agl_read_journal_file [of "Fs i" s st] assms by (simp add: agl_ops_def agl_lossy_view_def)
next
  case (2 s st i)
  then show ?case
    using agl_write_journal_file [OF 2(2), of "Fs i" t s] by (auto simp: agl_ops_def agl_lossy_view_def)
next
  case (3 s k data i)
  then show ?case
    using agl_write_slot_lossy [of s t k data "Fs i"] by (auto simp: agl_ops_def agl_lossy_view_def)
next
  case (4 s st)
  then show ?case
    using slot_state_decode_encode
    by (auto simp: agl_lossy_view_def agl_journal_file_def split: option.splits if_splits)
qed

text \<open>Any file system, with the journal file made visible.\<close>

definition show_journal :: "file_system \<Rightarrow> file_system" where
  "show_journal F = F\<lparr>fs_stat := \<lambda>m p. p \<in> range state_path \<or> fs_stat F m p\<rparr>"

lemma show_journal_visible [simp]: "journal_visible (show_journal F)"
  by (simp add: show_journal_def journal_visible_def)

interpretation agl_faulty: faulty_storage "\<lambda>F. agl_ops (show_journal F) t" "agl_lossy_view t"
  by (rule agl_faulty_storage) simp


text \<open>A file system that works.\<close>

lemma calm_read: "agl_journal_file s = Some st \<Longrightarrow> agl_read_state calm_files s = Inr st"
  by (auto simp: agl_read_state_def agl_journal_file_def open_and_read_def read_exact_def
      split: option.splits if_splits)

lemma calm_write:
  assumes "journal_ok st"
  shows "\<exists>s'. agl_write_state calm_files t s st = Ret (Inr (), s') \<and> agl_image s' = agl_image s"
proof -
  from agl_write_journal_file [OF assms, of calm_files t s] obtain r s' where
    w: "agl_write_state calm_files t s st = Ret (r, s')" "agl_image s' = agl_image s" by blast
  then have "r = Inr ()" by (auto simp: agl_write_state_def outcome_inversions)
  with w show ?thesis by blast
qed


lemma calm_stage:
  assumes "stage_verified (agl_ops calm_files t) V (ota_engine_new s v) p payload sig"
    and "ag_files s (slot_path s (up_slot p)) = None" "ag_slot_capacity s < 2 ^ usize_bits t" "up_slot p \<le> 1"
  shows "\<exists>e'. ota_stage (agl_ops calm_files t) V (ota_engine_new s v) p payload sig = Ret (Inr (), e')"
proof -
  have "length payload \<le> ag_slot_capacity s"
    using assms(1) by (simp add: stage_verified_def agl_ops_def ota_engine_new_def)
  then have "\<exists>s'. agl_write_slot calm_files t s (up_slot p) 0 payload = Ret (Inr (), s')"
    using assms(2,3) by (simp add: agl_write_slot_def Let_def)
  then obtain s' where "agl_write_slot calm_files t s (up_slot p) 0 payload = Ret (Inr (), s')" by blast
  moreover have "journal_ok (Pending (up_slot p))" using assms(4) by simp
  from calm_write [OF this, of t s'] obtain s'' where "agl_write_state calm_files t s' (Pending (up_slot p)) = Ret (Inr (), s'')"
    by blast
  ultimately show ?thesis
    using ota_stage_authentic [of "agl_ops calm_files t" V "ota_engine_new s v" p payload sig] assms(1)
    by (simp add: agl_ops_def write_journal_def ota_engine_new_def)
qed

text \<open>A delivered vehicle: no slot file yet, and no journal file or a lost one.\<close>

lemma agl_delivered_safe:
  assumes "ag_files s (slot_path s 0) = None" "agl_journal_file s \<in> {None, Some ActiveSlot0}"
    and "ag_slot_capacity s < 2 ^ usize_bits t" "cap = ag_slot_capacity s"
  shows "faulty_safe (agl_lossy_view t) V v (replicate cap 0) 0 (\<lambda>_. Factory) (ota_engine_new s v)"
  using assms by (auto simp: faulty_safe_def agl_lossy_view_def ota_engine_new_def slots_trusted_def agl_image_def)


section \<open>Properties\<close>

text \<open>C18: The engine on AGL files, on a file system that may refuse or cut short every access, differently each
  time, writes of the journal included, and hide slot files, as long as the metadata of the journal
  file can be read (\<open>agl_hidden_journal_boots_slot0\<close> says why). Start where the slot known to run, and
  every slot the journal leads to, can be trusted, and stage only into the slot not known to run, and only
  while the journal says that an image is committed or is unreadable. Then, after any operations, torn
  stagings included: the slot last known to run holds what it should (the factory image, or at its beginning the
  payload, possibly empty, of the package last staged into it, whose signature verifies); a reboot returns; and if it
  reports a slot, that is the one the journal file then says is running, and it holds what it should.\<close>
theorem agl_never_boots_untrusted:
  assumes "\<forall>i. journal_visible (Fs i)"
    and "faulty_reach t (\<lambda>i. agl_ops (Fs i) t) (agl_lossy_view t) V g0 os0 e0 g os e"
    and "faulty_safe (agl_lossy_view t) V v factory g0 os0 e0"
  shows "trusted V v factory g (os g) (agl_image (oe_storage e) g) \<and>
    (\<exists>r e'. ota_recover t (agl_ops (Fs i) t) e = Ret (r, e') \<and>
       (\<forall>a. r = Inr a \<longrightarrow>
         (\<exists>st. agl_journal_file (oe_storage e') = Some st \<and> a = running_slot st) \<and>
         trusted V v factory a (os a) (agl_image (oe_storage e') a)))"
proof -
  note F = agl_faulty_storage [OF assms(1), of t]
  note safe = faulty_storage.reach_faulty [OF F assms(2,3)]
  with faulty_storage.recover_faulty [OF F safe, of t i] show ?thesis
    by (auto simp: faulty_safe_def slots_trusted_def agl_lossy_view_def)
qed

lemma agl_never_boots_untrusted_witness:
  "let F = \<lparr>fs_stat = \<lambda>_ _. True, fs_open = \<lambda>_ _. True, fs_write = \<lambda>_ _ _. Torn 1\<rparr>; s = agl_storage_new Map.empty 16;
       s' = s\<lparr>ag_files := [state_path s \<mapsto> [0]]\<rparr>; v = demo_signer_new 7 in
   ota_recover host_debug (agl_ops F host_debug) (ota_engine_new s v) = Ret (Inl Storage, ota_engine_new s' v) \<and>
   trusted (demo_scheme 32) v (replicate 16 0) 0 Factory (agl_image s' 0) \<and>
   ota_recover host_debug (agl_ops calm_files host_debug) (ota_engine_new s' v) = Ret (Inl Storage, ota_engine_new s' v)"
proof -
  let ?F = "\<lparr>fs_stat = \<lambda>_ _. True, fs_open = \<lambda>_ _. True, fs_write = \<lambda>_ _ _. Torn 1\<rparr> :: file_system"
  let ?s = "agl_storage_new Map.empty 16"
  let ?s' = "?s\<lparr>ag_files := [state_path ?s \<mapsto> [0]]\<rparr>"
  let ?v = "demo_signer_new 7" and ?W = "agl_lossy_view host_debug"
  have torn: "ota_recover host_debug (agl_ops ?F host_debug) (ota_engine_new ?s ?v) =
      Ret (Inl Storage, ota_engine_new ?s' ?v)"
    by (simp add: ota_recover_def agl_ops_def agl_read_state_def agl_storage_new_def agl_storage_with_root_def
        ota_engine_new_def write_journal_def agl_write_state_def create_and_write_def)
  have lost: "known_slot (lv_journal ?W (oe_storage (ota_engine_new ?s' ?v))) 0 = 0"
    by (simp add: known_slot_def agl_lossy_view_def agl_journal_file_def ota_engine_new_def)
  have "faulty_reach host_debug (\<lambda>F. agl_ops (if F then ?F else calm_files) host_debug) ?W (demo_scheme 32)
      0 (\<lambda>_. Factory) (ota_engine_new ?s ?v)
      (known_slot (lv_journal ?W (oe_storage (ota_engine_new ?s' ?v))) 0)
      (op_origins (\<lambda>_. Factory) Op_Recover (Inl Storage :: ota_error + op_value)) (ota_engine_new ?s' ?v)"
    by (rule faulty_step [where i = True, OF faulty_init])
      (simp_all only: if_True engine_op_run.simps torn with_value_simps op_careful.simps)
  moreover have "faulty_safe ?W (demo_scheme 32) ?v (replicate 16 0) 0 (\<lambda>_. Factory) (ota_engine_new ?s ?v)"
    by (rule agl_delivered_safe) (simp_all add: agl_journal_file_def agl_storage_new_def agl_storage_with_root_def
        host_debug_def slot_path_def state_path_def)
  moreover have "\<forall>F. journal_visible (if F then ?F else calm_files)" by (simp add: journal_visible_def)
  ultimately have "trusted (demo_scheme 32) ?v (replicate 16 0) 0 Factory (agl_image ?s' 0)"
    using agl_never_boots_untrusted [of "\<lambda>F. if F then ?F else calm_files" host_debug "demo_scheme 32" 0
        "\<lambda>_. Factory" "ota_engine_new ?s ?v" 0 "\<lambda>_. Factory" "ota_engine_new ?s' ?v" ?v "replicate 16 0"]
    unfolding lost by (simp add: ota_engine_new_def)
  moreover have "ota_recover host_debug (agl_ops calm_files host_debug) (ota_engine_new ?s' ?v) =
      Ret (Inl Storage, ota_engine_new ?s' ?v)"
    by (simp add: ota_recover_def agl_ops_def agl_read_state_def open_and_read_def read_exact_def ota_engine_new_def)
  ultimately show ?thesis using torn by (simp add: Let_def)
qed

text \<open>C38: A lost journal is not lost for ever. Let the vehicle be in a state that keeps the invariant of
  \<open>agl_never_boots_untrusted\<close>: the slot known to run can be trusted. As long as the journal file, whose metadata can be read, holds no
  journal, every operation but \<open>stage\<close> returns an error and changes nothing. A package staged into the slot
  not known to run, if that succeeds, writes a new journal: the next reboot on a file system that works
  reports the slot of the package, and the slot begins with its payload, whose signature verifies.\<close>
theorem agl_lost_journal:
  assumes "faulty_safe (agl_lossy_view t) V v factory g os e" "agl_journal_file (oe_storage e) = None"
    and "journal_visible F"
  shows "(\<forall>x \<in> {Op_Promote, Op_Commit, Op_Rollback, Op_Recover, Op_State}.
      \<exists>err. engine_op_run t (agl_ops F t) V x e = Ret (Inl err, e)) \<and>
    (up_slot p = 1 - g \<longrightarrow> ota_stage (agl_ops F t) V e p payload sig = Ret (Inr (), e') \<longrightarrow>
      (\<exists>e''. ota_recover t (agl_ops calm_files t) e' = Ret (Inr (up_slot p), e'') \<and>
        take (length payload) (agl_image (oe_storage e'') (up_slot p)) = payload \<and>
        length payload = unat (up_payload_len p) \<and> ss_verify V v (package_message p payload) sig))"
proof (intro conjI ballI impI)
  note A = agl_faulty_storage [of "\<lambda>_ :: unit. F" t, simplified, OF assms(3)]
  have good: "lv_good (agl_lossy_view t) (oe_storage e)" "lv_journal (agl_lossy_view t) (oe_storage e) = None"
    using assms by (simp_all add: faulty_safe_def agl_lossy_view_def)
  fix x
  assume "x \<in> {Op_Promote, Op_Commit, Op_Rollback, Op_Recover, Op_State}"
  from faulty_storage.lost_journal [OF A good this] show "\<exists>err. engine_op_run t (agl_ops F t) V x e = Ret (Inl err, e)" .
next
  note A = agl_faulty_storage [of "\<lambda>_ :: unit. F" t, simplified, OF assms(3)]
  assume k: "up_slot p = 1 - g" and staged: "ota_stage (agl_ops F t) V e p payload sig = Ret (Inr (), e')"
  let ?W = "agl_lossy_view t"
  have W: "lv_slots ?W = agl_image" "lv_journal ?W = agl_journal_file" by (simp_all add: agl_lossy_view_def)
  have "op_careful g (lv_journal ?W (oe_storage e)) (Op_Stage p payload sig)" using k assms(2) by (simp add: W)
  from faulty_storage.stage_faulty [OF A assms(1) this] staged have
    safe: "faulty_safe ?W V v factory (known_slot (lv_journal ?W (oe_storage e')) g)
      (os(up_slot p := Installed p payload sig)) e'"
    and j: "agl_journal_file (oe_storage e') = Some (Pending (up_slot p))" by (auto simp: W origin_staged_def)
  have c: "up_slot p \<le> 1" "trusted V v factory (up_slot p) (Installed p payload sig) (agl_image (oe_storage e') (up_slot p))"
    using safe j by (auto simp: faulty_safe_def W slots_trusted_def)
  then have st: "journal_ok (Testing (up_slot p) (1 - up_slot p))" by (auto simp: slot_le_1)
  have "ota_recover t (agl_ops calm_files t) e' =
      write_journal (agl_ops calm_files t) id (Testing (up_slot p) (1 - up_slot p)) (up_slot p) e'"
    using ota_recover_eq [of "agl_ops calm_files t" e' "Pending (up_slot p)"] calm_read [OF j] c(1)
    by (simp add: agl_ops_def)
  moreover obtain s' where "agl_write_state calm_files t (oe_storage e') (Testing (up_slot p) (1 - up_slot p)) = Ret (Inr (), s')"
    "agl_image s' = agl_image (oe_storage e')"
    using calm_write [OF st, of t "oe_storage e'"] by blast
  ultimately show "\<exists>e''. ota_recover t (agl_ops calm_files t) e' = Ret (Inr (up_slot p), e'') \<and>
      take (length payload) (agl_image (oe_storage e'') (up_slot p)) = payload \<and>
      length payload = unat (up_payload_len p) \<and> ss_verify V v (package_message p payload) sig"
    using c(2) by (intro exI [of _ "e'\<lparr>oe_storage := s'\<rparr>"]) (auto simp: write_journal_def agl_ops_def)
qed

lemma agl_lost_journal_witness:
  "let s = (agl_storage_new Map.empty 16)\<lparr>ag_files := [state_path (agl_storage_new Map.empty 16) \<mapsto> [0]]\<rparr>;
       v = demo_signer_new 7; p = \<lparr>up_slot = 1, up_payload_len = 1\<rparr>;
       sig = demo_hash 32 v (package_message p [0xAB]) in
   (\<exists>err. ota_recover host_debug (agl_ops calm_files host_debug) (ota_engine_new s v) = Ret (Inl err, ota_engine_new s v)) \<and>
   (\<exists>e' e''. ota_stage (agl_ops calm_files host_debug) (demo_scheme 32) (ota_engine_new s v) p [0xAB] sig = Ret (Inr (), e') \<and>
      ota_recover host_debug (agl_ops calm_files host_debug) e' = Ret (Inr 1, e'') \<and>
      take 1 (agl_image (oe_storage e'') 1) = [0xAB])"
proof -
  let ?s = "(agl_storage_new Map.empty 16)\<lparr>ag_files := [state_path (agl_storage_new Map.empty 16) \<mapsto> [0]]\<rparr>"
  let ?v = "demo_signer_new 7" and ?p = "\<lparr>up_slot = 1, up_payload_len = 1\<rparr>"
  let ?sig = "demo_hash 32 ?v (package_message ?p [0xAB])"
  let ?e = "ota_engine_new ?s ?v" and ?S = "agl_ops calm_files host_debug"
  have safe: "faulty_safe (agl_lossy_view host_debug) (demo_scheme 32) ?v (replicate 16 0) 0 (\<lambda>_. Factory) ?e"
    by (rule agl_delivered_safe) (simp_all add: agl_journal_file_def agl_storage_new_def agl_storage_with_root_def
        host_debug_def slot_path_def state_path_def)
  have lost: "agl_journal_file (oe_storage ?e) = None" by (simp add: agl_journal_file_def ota_engine_new_def)
  have verified: "stage_verified ?S (demo_scheme 32) ?e ?p [0xAB] ?sig"
    by (simp add: stage_verified_def agl_ops_def ota_engine_new_def agl_storage_new_def agl_storage_with_root_def
        OTA_MAX_PAYLOAD_def demo_scheme_def demo_verify_def)
  have "\<exists>e'. ota_stage ?S (demo_scheme 32) ?e ?p [0xAB] ?sig = Ret (Inr (), e')"
    by (rule calm_stage [OF verified])
      (simp_all add: agl_storage_new_def agl_storage_with_root_def host_debug_def slot_path_def state_path_def)
  then obtain e' where staged: "ota_stage ?S (demo_scheme 32) ?e ?p [0xAB] ?sig = Ret (Inr (), e')" by blast
  have "journal_visible calm_files" by (simp add: journal_visible_def)
  note t = agl_lost_journal [OF safe lost this, of ?p "[0xAB]" ?sig e']
  have "\<exists>err. ota_recover host_debug ?S ?e = Ret (Inl err, ?e)"
    by (simp add: ota_recover_def agl_ops_def agl_read_state_def open_and_read_def read_exact_def ota_engine_new_def)
  moreover have "\<exists>e''. ota_recover host_debug ?S e' = Ret (Inr 1, e'') \<and>
    take 1 (agl_image (oe_storage e'') 1) = [0xAB]" using t staged by auto
  ultimately show ?thesis using staged by (auto simp: Let_def)
qed

text \<open>Why the metadata of the journal file must be readable: if it is not, \<open>Path::exists\<close> is false and \<open>read_state\<close>
  reports slot 0 as committed, whatever the file holds. A reboot then boots slot 0 and writes that into
  the journal; it reports an error only if the write fails.\<close>
theorem agl_hidden_journal_boots_slot0:
  assumes "\<not> fs_stat F (ag_files s) (state_path s)"
  shows "\<exists>r s'. ota_recover t (agl_ops F t) \<lparr>oe_storage = s, oe_signer = v\<rparr> = Ret (r, \<lparr>oe_storage = s', oe_signer = v\<rparr>) \<and>
    agl_image s' = agl_image s \<and>
    (if r = Inr 0 then agl_journal_file s' = Some ActiveSlot0 else r = Inl Storage) \<and>
    (r = Inr 0 \<longleftrightarrow> fs_write F (ag_files s) (state_path s) [0, 0] = Written)"
proof -
  have "os_read_state (agl_ops F t) s = Inr ActiveSlot0"
    using assms by (simp add: agl_ops_def agl_read_state_def existing_def)
  then have rec: "ota_recover t (agl_ops F t) \<lparr>oe_storage = s, oe_signer = v\<rparr> =
      write_journal (agl_ops F t) id ActiveSlot0 0 \<lparr>oe_storage = s, oe_signer = v\<rparr>"
    by (simp add: ota_recover_eq)
  from agl_write_journal_file [of ActiveSlot0 F t s] obtain r s' where
    w: "agl_write_state F t s ActiveSlot0 = Ret (r, s')" "agl_image s' = agl_image s"
    "agl_journal_file s' = Some ActiveSlot0 \<or> r \<noteq> Inr ()" by auto
  then have "r = (if fs_write F (ag_files s) (state_path s) [0, 0] = Written then Inr () else Inl Storage)"
    by (auto simp: agl_write_state_def create_and_write_def split: write_result.splits)
  with w rec show ?thesis by (auto simp: write_journal_def agl_ops_def)
qed

lemma agl_hidden_journal_boots_slot0_witness:
  "let F = calm_files\<lparr>fs_stat := \<lambda>_ _. False\<rparr>; s = agl_storage_new Map.empty 16;
       s1 = s\<lparr>ag_files := [state_path s \<mapsto> [0, 1]]\<rparr> in
   agl_journal_file s1 = Some ActiveSlot1 \<and>
   (\<exists>s'. ota_recover host_debug (agl_ops F host_debug) \<lparr>oe_storage = s1, oe_signer = ()\<rparr> =
      Ret (Inr 0, \<lparr>oe_storage = s', oe_signer = ()\<rparr>) \<and> agl_journal_file s' = Some ActiveSlot0)"
proof -
  let ?F = "calm_files\<lparr>fs_stat := \<lambda>_ _. False\<rparr>" and ?s = "agl_storage_new Map.empty 16"
  let ?s1 = "?s\<lparr>ag_files := [state_path ?s \<mapsto> [0, 1]]\<rparr>"
  have "\<not> fs_stat ?F (ag_files ?s1) (state_path ?s1)" "fs_write ?F (ag_files ?s1) (state_path ?s1) [0, 0] = Written"
    by (simp_all add: writable_files_def)
  moreover have "agl_journal_file ?s1 = Some ActiveSlot1"
    by (simp add: agl_journal_file_def slot_state_decode_def)
  ultimately show ?thesis
    using agl_hidden_journal_boots_slot0 [of ?F ?s1 host_debug "()"] by (auto simp: Let_def)
qed

end
