(* ===== verification/Zephyr_Faults.thy ===== *)
theory Zephyr_Faults
  imports Ota_Faults
begin

text \<open>
  The flash backend of \<open>zephyr/src/ota_storage.rs\<close> over foreign functions that may fail at every call, each time
  differently. \<open>flash_contract\<close> is what is assumed of them; under it the backend is a \<open>faulty_storage\<close>,
  so the engine over it never reports a slot that cannot be trusted.
\<close>


section \<open>What the foreign functions are documented to do\<close>

text \<open>
  A view of the flash: the bytes of a slot, the two bytes of the state partition, the slot an open
  handle belongs to, and the states of the driver in which this holds. \<open>zephyr/src/ffi.rs\<close> documents that 0
  is success, which slot an identifier opens, and that a handle is stable until it is closed;
  \<open>core/src/ota.rs\<close> that the journal is updated atomically by the hardware. So: opening and closing change
  no content; a write that succeeds stores its data, and one that fails may leave anything in its
  slot; a journal write that succeeds stores its bytes, and one that fails leaves the old bytes, the
  new ones, or bytes that no state is encoded as; a read of the journal that succeeds yields the stored
  bytes, and any read may fail.
\<close>

record 'h flash_view =
  fv_image :: "'h \<Rightarrow> u8 \<Rightarrow> u8 list"
  fv_state :: "'h \<Rightarrow> u8 \<times> u8"
  fv_area :: "'h \<Rightarrow> nat \<Rightarrow> u8 option"
  fv_ok :: "'h \<Rightarrow> bool"

definition flash_journal :: "'h flash_view \<Rightarrow> 'h \<Rightarrow> slot_state option" where
  "flash_journal W h = slot_state_decode (fst (fv_state W h)) (snd (fv_state W h))"

definition same_content :: "'h flash_view \<Rightarrow> 'h \<Rightarrow> 'h \<Rightarrow> bool" where
  "same_content W h h' \<longleftrightarrow>
     fv_ok W h' \<and> fv_image W h' 0 = fv_image W h 0 \<and> fv_image W h' 1 = fv_image W h 1 \<and>
     fv_state W h' = fv_state W h"

definition flash_contract :: "target \<Rightarrow> 'h zephyr_ffi \<Rightarrow> 'h flash_view \<Rightarrow> bool" where
  "flash_contract t F W \<longleftrightarrow>
     (\<forall>h. fv_ok W h \<longrightarrow> tpt_slot_capacity F h < 2 ^ usize_bits t) \<and>
     (\<forall>h i rc area h'. fv_ok W h \<longrightarrow> tpt_flash_open F h i = ((rc, area), h') \<longrightarrow>
        same_content W h h' \<and> (\<forall>a. rc = 0 \<longrightarrow> area = Some a \<longrightarrow> fv_area W h' a = Some i)) \<and>
     (\<forall>h a rc h'. fv_ok W h \<longrightarrow> tpt_flash_close F h a = (rc, h') \<longrightarrow> same_content W h h') \<and>
     (\<forall>h a k data rc h'. fv_ok W h \<longrightarrow> fv_area W h a = Some k \<longrightarrow> k \<le> 1 \<longrightarrow>
        tpt_flash_write F h a 0 data = (rc, h') \<longrightarrow>
        fv_ok W h' \<and> fv_state W h' = fv_state W h \<and> fv_image W h' (1 - k) = fv_image W h (1 - k) \<and>
        (rc = 0 \<longrightarrow> take (length data) (fv_image W h' k) = data)) \<and>
     (\<forall>h b0 b1 rc h'. fv_ok W h \<longrightarrow> slot_state_decode b0 b1 \<noteq> None \<longrightarrow>
        tpt_state_write F h [b0, b1] = (rc, h') \<longrightarrow>
        fv_ok W h' \<and> fv_image W h' = fv_image W h \<and>
        (fv_state W h' = (b0, b1) \<or>
         rc \<noteq> 0 \<and> (fv_state W h' = fv_state W h \<or> flash_journal W h' = None))) \<and>
     (\<forall>h bytes. fv_ok W h \<longrightarrow> tpt_state_read F h [0, 0] = (0, bytes) \<longrightarrow>
        bytes = [fst (fv_state W h), snd (fv_state W h)])"

definition flash_lossy_view :: "'h flash_view \<Rightarrow> 'h lossy_view" where
  "flash_lossy_view W = \<lparr>lv_slots = fv_image W, lv_journal = flash_journal W, lv_good = fv_ok W\<rparr>"

lemma flash_lossy_view_simps [simp]:
  "lv_slots (flash_lossy_view W) = fv_image W" "lv_journal (flash_lossy_view W) = flash_journal W"
  "lv_good (flash_lossy_view W) = fv_ok W"
  by (simp_all add: flash_lossy_view_def)

lemma flash_contractD:
  assumes "flash_contract t F W" "fv_ok W h"
  shows "tpt_slot_capacity F h < 2 ^ usize_bits t"
    and "tpt_flash_open F h i = ((rc, area), h') \<Longrightarrow>
      same_content W h h' \<and> (\<forall>a. rc = 0 \<longrightarrow> area = Some a \<longrightarrow> fv_area W h' a = Some i)"
    and "tpt_flash_close F h a = (rc, h') \<Longrightarrow> same_content W h h'"
    and "fv_area W h a = Some k \<Longrightarrow> k \<le> 1 \<Longrightarrow> tpt_flash_write F h a 0 data = (rc, h') \<Longrightarrow>
      fv_ok W h' \<and> fv_state W h' = fv_state W h \<and> fv_image W h' (1 - k) = fv_image W h (1 - k) \<and>
      (rc = 0 \<longrightarrow> take (length data) (fv_image W h' k) = data)"
    and "slot_state_decode b0 b1 \<noteq> None \<Longrightarrow> tpt_state_write F h [b0, b1] = (rc, h') \<Longrightarrow>
      fv_ok W h' \<and> fv_image W h' = fv_image W h \<and>
      (fv_state W h' = (b0, b1) \<or> rc \<noteq> 0 \<and> (fv_state W h' = fv_state W h \<or> flash_journal W h' = None))"
    and "tpt_state_read F h [0, 0] = (0, bytes) \<Longrightarrow> bytes = [fst (fv_state W h), snd (fv_state W h)]"
  using assms unfolding flash_contract_def by - (elim conjE, (drule spec | drule (1) mp)+, assumption)+

lemma same_content_image: "same_content W h h' \<Longrightarrow> (k :: u8) \<le> 1 \<Longrightarrow> fv_image W h' k = fv_image W h k"
  by (auto simp: same_content_def slot_le_1)


section \<open>The backend\<close>

text \<open>A write inside an open area, as the engine sees it.\<close>

lemma with_flash_area_write:
  assumes "flash_contract t F W" "fv_ok W h" "k \<le> 1"
    and "with_flash_area F h k (\<lambda>area h. tpt_flash_write F h area 0 data) = (r, h')"
  shows "fv_ok W h' \<and> fv_state W h' = fv_state W h \<and>
    fv_image W h' (1 - k) = fv_image W h (1 - k) \<and>
    (r = Some 0 \<longrightarrow> take (length data) (fv_image W h' k) = data)"
proof -
  note c = flash_contractD [OF assms(1)]
  have k1: "1 - k \<le> 1" using assms(3) by (auto simp: slot_le_1)
  obtain rc area h1 where o: "tpt_flash_open F h k = ((rc, area), h1)"
    by (metis surj_pair)
  note h1 = c(2) [OF assms(2) o]
  then have s1: "fv_ok W h1" "fv_state W h1 = fv_state W h" by (simp_all add: same_content_def)
  have i1: "fv_image W h1 (1 - k) = fv_image W h (1 - k)"
    using h1 same_content_image [of W h h1, OF _ k1] by blast
  show ?thesis
  proof (cases "rc = 0 \<and> area \<noteq> None")
    case False
    then have "r = None" "h' = h1"
      using assms(4) o by (auto simp: with_flash_area_def split: option.splits if_splits)
    then show ?thesis using s1 i1 by simp
  next
    case True
    then obtain a where a: "area = Some a" "rc = 0" by blast
    obtain wrc h2 where w: "tpt_flash_write F h1 a 0 data = (wrc, h2)"
      by (cases "tpt_flash_write F h1 a 0 data")
    obtain crc h3 where cl: "tpt_flash_close F h2 a = (crc, h3)"
      by (cases "tpt_flash_close F h2 a")
    have r: "r = Some wrc" "h' = h3" using assms(4) o a w cl by (simp_all add: with_flash_area_def)
    have "fv_area W h1 a = Some k" using h1 a by simp
    note h2 = c(4) [OF s1(1) this assms(3) w]
    then have h3: "same_content W h2 h3" using c(3) [OF _ cl] by blast
    have "fv_image W h3 (1 - k) = fv_image W h2 (1 - k)" "fv_image W h3 k = fv_image W h2 k"
      "fv_state W h3 = fv_state W h2" "fv_ok W h3"
      using same_content_image [OF h3 k1] same_content_image [OF h3 assms(3)] h3
      by (simp_all add: same_content_def)
    then show ?thesis using s1 i1 h2 r by simp
  qed
qed

lemma flash_write_slot_lossy:
  assumes "flash_contract t F W" "fv_ok W h" "k \<le> 1" "length data \<le> tpt_slot_capacity F h"
  shows "\<exists>r h'. flash_write_slot t F h k 0 data = Ret (r, h') \<and> fv_ok W h' \<and>
    flash_journal W h' = flash_journal W h \<and> fv_image W h' (1 - k) = fv_image W h (1 - k) \<and>
    (r = Inr () \<longrightarrow> take (length data) (fv_image W h' k) = data)"
proof -
  obtain r h' where w: "with_flash_area F h k (\<lambda>area h. tpt_flash_write F h area 0 data) = (r, h')"
    by force
  note h' = with_flash_area_write [OF assms(1-3) w]
  have "flash_write_slot t F h k 0 data =
      Ret (ok_or (case r of None \<Rightarrow> None | Some rc \<Rightarrow> if rc = 0 then Some () else None) WriteFailed, h')"
    using w assms(4) flash_contractD(1) [OF assms(1,2)] by (simp add: flash_write_slot_def Let_def)
  with h' show ?thesis by (cases r) (auto simp: flash_journal_def)
qed

lemma flash_write_state_lossy:
  assumes "flash_contract t F W" "fv_ok W h" "journal_ok st"
  shows "\<exists>r h'. flash_write_state t F h st = Ret (r, h') \<and> fv_ok W h' \<and> fv_image W h' = fv_image W h \<and>
    (flash_journal W h' = Some st \<or> r \<noteq> Inr () \<and> flash_journal W h' \<in> {flash_journal W h, None})"
proof -
  obtain b0 b1 where b: "slot_state_encode t st = Ret [b0, b1]" "slot_state_decode b0 b1 = Some st"
    using slot_state_encode_decode [OF assms(3)] by blast
  obtain rc h' where w: "tpt_state_write F h [b0, b1] = (rc, h')" by force
  with flash_contractD(5) [OF assms(1,2) _ w] b show ?thesis
    by (auto simp: flash_write_state_def ffi_state_write_def flash_journal_def)
qed

lemma flash_read_state_journal:
  assumes "flash_contract t F W" "fv_ok W h" "flash_read_state F h = Inr st"
  shows "flash_journal W h = Some st"
proof -
  obtain rc bytes where r: "tpt_state_read F h [0, 0] = (rc, bytes)" by force
  with assms(3) have "rc = 0" "slot_state_decode (bytes ! 0) (bytes ! 1) = Some st"
    by (auto simp: flash_read_state_def ffi_state_read_def ok_or_eq_Inr split: if_splits)
  with flash_contractD(6) [OF assms(1,2)] r show ?thesis by (auto simp: flash_journal_def)
qed

lemma flash_faulty_storage:
  assumes "\<forall>i. flash_contract t (Z i) W"
  shows "faulty_storage (\<lambda>i. flash_ops t (Z i)) (flash_lossy_view W)"
proof (unfold_locales, goal_cases)
  case (1 h i st)
  then show ?case using flash_read_state_journal [of t "Z i" W h st] assms by (simp add: flash_ops_def)
next
  case (2 h st i)
  then show ?case using flash_write_state_lossy [of t "Z i" W h st] assms by (simp add: flash_ops_def)
next
  case (3 h k data i)
  then show ?case using flash_write_slot_lossy [of t "Z i" W h k data] assms by (simp add: flash_ops_def)
next
  case (4 h st)
  then show ?case using slot_state_decode_encode by (auto simp: flash_journal_def)
qed


section \<open>A flash that keeps the contract\<close>

text \<open>A RAM disk behind the foreign functions, to show that the contract can be met. One that works, and one
  whose journal is wrecked by every write.\<close>

record ram_flash =
  rf_slots :: "u8 list list"
  rf_state :: "u8 \<times> u8"

definition ram_flash_ffi :: "bool \<Rightarrow> ram_flash zephyr_ffi" where
  "ram_flash_ffi works =
     \<lparr>tpt_flash_open = \<lambda>h i. ((if i \<le> 1 then 0 else 1, Some (unat i)), h),
      tpt_flash_write = \<lambda>h a off data.
        (if a < 2 \<and> off + length data \<le> RAM_SLOT_CAP
         then (0, h\<lparr>rf_slots := (rf_slots h)[a := take off (rf_slots h ! a) @ data @
                 drop (off + length data) (rf_slots h ! a)]\<rparr>)
         else (1, h)),
      tpt_flash_read = \<lambda>h a off buf. ((0, take (length buf) (drop off (rf_slots h ! a))), h),
      tpt_flash_close = \<lambda>h a. (0, h),
      tpt_state_write = \<lambda>h bytes.
        (if works then (0, h\<lparr>rf_state := (bytes ! 0, bytes ! 1)\<rparr>) else (1, h\<lparr>rf_state := (0xFF, 0xFF)\<rparr>)),
      tpt_state_read = \<lambda>h buf. (0, [fst (rf_state h), snd (rf_state h)]),
      tpt_slot_capacity = \<lambda>h. RAM_SLOT_CAP\<rparr>"

definition ram_flash_view :: "ram_flash flash_view" where
  "ram_flash_view =
     \<lparr>fv_image = \<lambda>h k. rf_slots h ! unat k, fv_state = rf_state, fv_area = \<lambda>_ a. Some (of_nat a),
      fv_ok = \<lambda>h. slots_ok RAM_SLOT_CAP (rf_slots h)\<rparr>"

lemma ram_flash_write:
  assumes "slots_ok RAM_SLOT_CAP slots" "a < 2" "length data \<le> RAM_SLOT_CAP"
  shows "slots_ok RAM_SLOT_CAP (slots[a := data @ drop (length data) (slots ! a)])"
    and "take (length data) (slots[a := data @ drop (length data) (slots ! a)] ! a) = data"
    and "slots[a := data @ drop (length data) (slots ! a)] ! unat (1 - of_nat a :: u8) = slots ! unat (1 - of_nat a :: u8)"
proof -
  let ?new = "data @ drop (length data) (slots ! a)"
  have a: "a = 0 \<or> a = 1" using assms(2) by linarith
  have len: "length slots = 2" "length (slots ! a) = RAM_SLOT_CAP"
    using assms(1,2) by (simp_all add: slots_ok_def)
  then have "length ?new = RAM_SLOT_CAP" using assms(3) by simp
  then show "slots_ok RAM_SLOT_CAP (slots[a := ?new])"
    using assms(1) len(1) set_update_subset_insert [of slots a ?new]
    unfolding slots_ok_def by fastforce
  show "take (length data) (slots[a := ?new] ! a) = data" using len assms(2) by simp
  show "slots[a := ?new] ! unat (1 - of_nat a :: u8) = slots ! unat (1 - of_nat a :: u8)"
    using a by (elim disjE) simp_all
qed

lemma ram_flash_contract:
  assumes "32 \<le> usize_bits t"
  shows "flash_contract t (ram_flash_ffi works) ram_flash_view"
  using usize_cap [OF assms, of RAM_SLOT_CAP] ram_flash_write
  by (auto simp: flash_contract_def ram_flash_ffi_def ram_flash_view_def same_content_def flash_journal_def
      slot_state_decode_def RAM_SLOT_CAP_def split: if_splits)

interpretation zephyr_flash: faulty_storage "\<lambda>works. flash_ops mcu_release (ram_flash_ffi works)"
  "flash_lossy_view ram_flash_view"
  by (rule flash_faulty_storage) (simp add: ram_flash_contract mcu_release_def)


section \<open>Properties\<close>

text \<open>C6: The engine on Zephyr flash. The foreign functions may fail at every call, each time differently,
  as long as they keep what is documented of them: success means what it says, a slot write touches
  no other slot, a journal write is atomic or leaves a journal that does not decode. Start where the slot
  known to run, and every slot the journal leads to, can be trusted, and stage only into the slot
  not known to run, and only while the journal says that an image is committed or cannot be decoded. Then, after
  any operations, torn stagings included: the slot last known to run holds what it should (the factory image, or
  at its beginning the payload, possibly empty, of the package last staged into it, whose signature verifies); a reboot
  returns; and if it reports a slot, that is the one the journal in the flash then says is running,
  and it holds what it should.\<close>
theorem zephyr_flash_boots_trusted:
  assumes "\<forall>i. flash_contract t (Z i) W"
    and "faulty_reach t (\<lambda>i. flash_ops t (Z i)) (flash_lossy_view W) V g0 os0 e0 g os e"
    and "faulty_safe (flash_lossy_view W) V v factory g0 os0 e0"
  shows "trusted V v factory g (os g) (fv_image W (oe_storage e) g) \<and>
    (\<exists>r e'. ota_recover t (flash_ops t (Z i)) e = Ret (r, e') \<and>
      (\<forall>a. r = Inr a \<longrightarrow>
        (\<exists>st. flash_journal W (oe_storage e') = Some st \<and> a = running_slot st) \<and>
        trusted V v factory a (os a) (fv_image W (oe_storage e') a)))"
proof -
  note F = flash_faulty_storage [OF assms(1)]
  note safe = faulty_storage.reach_faulty [OF F assms(2,3)]
  with faulty_storage.recover_faulty [OF F safe, of t i] show ?thesis
    by (auto simp: faulty_safe_def slots_trusted_def)
qed

text \<open>In the witness a reboot wrecks the journal; the next one, on a flash that works again, reports an
  error, and the slot that ran still holds the factory image.\<close>

lemma zephyr_flash_boots_trusted_witness:
  "let S = (\<lambda>works. flash_ops mcu_release (ram_flash_ffi works));
       h = (\<lambda>st. \<lparr>rf_slots = replicate 2 (replicate RAM_SLOT_CAP 0), rf_state = st\<rparr>);
       v = demo_signer_new 7 in
   ota_recover mcu_release (S False) (ota_engine_new (h (0, 0)) v) =
     Ret (Inl Storage, ota_engine_new (h (0xFF, 0xFF)) v) \<and>
   ota_recover mcu_release (S True) (ota_engine_new (h (0xFF, 0xFF)) v) =
     Ret (Inl Storage, ota_engine_new (h (0xFF, 0xFF)) v) \<and>
   trusted (demo_scheme 32) v (replicate RAM_SLOT_CAP 0) 0 Factory (fv_image ram_flash_view (h (0xFF, 0xFF)) 0)"
proof -
  let ?S = "\<lambda>works. flash_ops mcu_release (ram_flash_ffi works)"
  let ?h = "\<lambda>st. \<lparr>rf_slots = replicate 2 (replicate RAM_SLOT_CAP 0), rf_state = st\<rparr>"
  let ?v = "demo_signer_new 7" and ?W = "flash_lossy_view ram_flash_view"
  let ?e0 = "ota_engine_new (?h (0, 0)) ?v" and ?e1 = "ota_engine_new (?h (0xFF, 0xFF)) ?v"
  have contract: "\<forall>i. flash_contract mcu_release (ram_flash_ffi i) ram_flash_view"
    by (simp add: ram_flash_contract mcu_release_def)
  note flash = flash_ops_def flash_read_state_def ffi_state_read_def flash_write_state_def ffi_state_write_def
    ram_flash_ffi_def slot_state_decode_def ota_recover_def write_journal_def ota_engine_new_def
  have wrecked: "ota_recover mcu_release (?S False) ?e0 = Ret (Inl Storage, ?e1)" by (simp add: flash)
  have lost: "lv_journal ?W (oe_storage ?e1) = None"
    by (simp add: flash_journal_def ram_flash_view_def slot_state_decode_def ota_engine_new_def)
  have run: "faulty_reach mcu_release ?S ?W (demo_scheme 32) 0 (\<lambda>_. Factory) ?e0
      (known_slot (lv_journal ?W (oe_storage ?e1)) 0)
      (op_origins (\<lambda>_. Factory) Op_Recover (Inl Storage :: ota_error + op_value)) ?e1"
    by (rule faulty_step [where i = False, OF faulty_init]) (simp_all only: engine_op_run.simps wrecked with_value_simps op_careful.simps)
  have "faulty_safe ?W (demo_scheme 32) ?v (replicate RAM_SLOT_CAP 0) 0 (\<lambda>_. Factory) ?e0"
    by (simp add: faulty_safe_def flash_journal_def ram_flash_view_def slot_state_decode_def ota_engine_new_def
        slots_ok_def slots_trusted_def)
  from zephyr_flash_boots_trusted [OF contract run this, of True]
  have "trusted (demo_scheme 32) ?v (replicate RAM_SLOT_CAP 0) 0 Factory (fv_image ram_flash_view (oe_storage ?e1) 0)"
    unfolding lost by (simp add: known_slot_def)
  moreover have "ota_recover mcu_release (?S True) ?e1 = Ret (Inl Storage, ?e1)" by (simp add: flash)
  ultimately show ?thesis using wrecked by (simp add: Let_def ota_engine_new_def)
qed

end
