(* ===== verification/Core_Api.thy ===== *)
theory Core_Api
  imports Ota_Journal Isotp Someip Autosar Safety Flight_Control Agl_Can Uds Can Lin
begin

text \<open>
  The rest of the public interface: the traits \<open>Frame\<close> and \<open>DioDriver\<close> with their implementations, the
  \<open>Default\<close> constructors, the accessors, the storage behind a mutable reference, and the doubles the
  unit tests bring along. A double that repeats the code of an example is shown to be the same
  function, so what is proved of the one holds of the other.
\<close>


section \<open>Frames\<close>

record ('f, 'i) frame_ops =
  fr_id :: "'f \<Rightarrow> 'i"
  fr_len :: "'f \<Rightarrow> nat"

definition can_frame_trait :: "(can_frame, can_id) frame_ops" where
  "can_frame_trait = \<lparr>fr_id = can_frame_id, fr_len = can_frame_len\<rparr>"

definition can_fd_frame_trait :: "(can_fd_frame, can_id) frame_ops" where
  "can_fd_frame_trait = \<lparr>fr_id = can_fd_frame_id, fr_len = can_fd_frame_len\<rparr>"

definition lin_frame_trait :: "(lin_frame, lin_id) frame_ops" where
  "lin_frame_trait = \<lparr>fr_id = lin_frame_id, fr_len = lin_frame_len\<rparr>"

definition someip_frame_trait :: "(someip_message, someip_message_id) frame_ops" where
  "someip_frame_trait = \<lparr>fr_id = \<lambda>m. sh_message_id (sm_header m), fr_len = someip_message_len\<rparr>"

text \<open>The default method, for each of them: only the SOME/IP message, whose length counts the header, is
  never empty.\<close>

lemma someip_never_empty: "\<not> frame_is_empty (fr_len someip_frame_trait m)"
  by (simp add: frame_is_empty_def someip_frame_trait_def someip_message_len_def SOMEIP_HEADER_LEN_def)

lemma new_frames_empty_iff:
  "can_frame_new cid data = Ret (Some f) \<Longrightarrow> frame_is_empty (fr_len can_frame_trait f) \<longleftrightarrow> data = []"
  "can_fd_frame_new cid data = Ret (Some g) \<Longrightarrow> frame_is_empty (fr_len can_fd_frame_trait g) \<longleftrightarrow> data = []"
proof -
  assume f: "can_frame_new cid data = Ret (Some f)"
  then have "length data \<le> CAN_MAX_DLC" using can_frame_new_large [of data cid] by (cases "length data \<le> CAN_MAX_DLC") auto
  with f show "frame_is_empty (fr_len can_frame_trait f) \<longleftrightarrow> data = []"
    by (auto simp: can_frame_new_small can_frame_trait_def frame_is_empty_def can_frame_len_def CAN_MAX_DLC_def)
next
  assume g: "can_fd_frame_new cid data = Ret (Some g)"
  then have "length data \<le> CANFD_MAX_DLC"
    by (cases "length data \<le> CANFD_MAX_DLC") (auto simp: can_fd_frame_new_def)
  with g show "frame_is_empty (fr_len can_fd_frame_trait g) \<longleftrightarrow> data = []"
    by (auto simp: can_fd_frame_new_small can_fd_frame_trait_def frame_is_empty_def can_fd_frame_len_def CANFD_MAX_DLC_def)
qed


section \<open>Digital I/O drivers\<close>

record 'd dio_driver_ops =
  dio_read_channel :: "'d \<Rightarrow> dio_channel \<Rightarrow> (error + dio_level) outcome"
  dio_write_channel :: "'d \<Rightarrow> dio_channel \<Rightarrow> dio_level \<Rightarrow> ((error + unit) \<times> 'd) outcome"

definition sim_dio_ops :: "target \<Rightarrow> sim_dio dio_driver_ops" where
  "sim_dio_ops t = \<lparr>dio_read_channel = sim_read_channel t, dio_write_channel = sim_write_channel t\<rparr>"

interpretation sim_dio_ops: dio_driver "dio_read_channel (sim_dio_ops t)" "dio_write_channel (sim_dio_ops t)"
    dio_channel_ok sim_dio_ok
  by (simp add: sim_dio_ops_def sim_dio.dio_driver_axioms)


section \<open>Default constructors\<close>

definition sim_dio_default :: sim_dio where "sim_dio_default = sim_dio_new"

definition isotp_link_default :: "nat \<Rightarrow> isotp_link" where "isotp_link_default n = isotp_link_new n"

definition telemetry_ring_default :: "nat \<Rightarrow> telemetry_ring" where "telemetry_ring_default n = telemetry_ring_new n"

definition zephyr_ram_default :: zephyr_ram where "zephyr_ram_default = zephyr_ram_new"

text \<open>What starts from a default value starts in its invariant.\<close>

lemma defaults_ok:
  "sim_dio_ok sim_dio_default" "isotp_inv (isotp_link_default n)"
  "0 < n \<Longrightarrow> ring_ok n (telemetry_ring_default n)" "sv_ok zephyr_ram_view zephyr_ram_default"
  by (simp_all add: sim_dio_default_def sim_dio_ok_def sim_dio_new_def isotp_link_default_def isotp_inv_new
      telemetry_ring_default_def ring_new_ok zephyr_ram_default_def zephyr_delivered)


section \<open>Accessors\<close>

text \<open>The transceiver under a bus. Through \<open>transceiver_mut\<close> a caller reaches it without the validation of
  \<open>transmit\<close>, and does what it likes with it.\<close>

definition can_bus_transceiver :: "'t can_bus \<Rightarrow> 't" where "can_bus_transceiver b = cb_transceiver b"

definition can_bus_transceiver_mut :: "'t can_bus \<Rightarrow> ('t \<Rightarrow> 't) \<Rightarrow> 't can_bus" where
  "can_bus_transceiver_mut b f = b\<lparr>cb_transceiver := f (cb_transceiver b)\<rparr>"

definition can_fd_bus_transceiver :: "'t can_fd_bus \<Rightarrow> 't" where "can_fd_bus_transceiver b = fdb_transceiver b"

definition can_fd_bus_transceiver_mut :: "'t can_fd_bus \<Rightarrow> ('t \<Rightarrow> 't) \<Rightarrow> 't can_fd_bus" where
  "can_fd_bus_transceiver_mut b f = b\<lparr>fdb_transceiver := f (fdb_transceiver b)\<rparr>"

definition lin_bus_transceiver :: "'t lin_bus \<Rightarrow> 't" where "lin_bus_transceiver b = lb_transceiver b"

definition lin_bus_transceiver_mut :: "'t lin_bus \<Rightarrow> ('t \<Rightarrow> 't) \<Rightarrow> 't lin_bus" where
  "lin_bus_transceiver_mut b f = b\<lparr>lb_transceiver := f (lb_transceiver b)\<rparr>"

definition someip_bus_transceiver :: "'t someip_bus \<Rightarrow> 't" where "someip_bus_transceiver b = sb_transceiver b"

definition someip_bus_transceiver_mut :: "'t someip_bus \<Rightarrow> ('t \<Rightarrow> 't) \<Rightarrow> 't someip_bus" where
  "someip_bus_transceiver_mut b f = b\<lparr>sb_transceiver := f (sb_transceiver b)\<rparr>"

text \<open>A frame of an identifier that no constructor gives reaches the peripheral this way only.\<close>

lemma transceiver_mut_bypasses:
  "can_validate_frame f \<noteq> Inr () \<Longrightarrow>
   can_bus_transceiver (snd (can_bus_transmit T b f)) = can_bus_transceiver b \<and>
   can_bus_transceiver (can_bus_transceiver_mut b (\<lambda>t. snd (ct_send T t f))) = snd (ct_send T (can_bus_transceiver b) f)"
  using can_validate_frame_map_err [of f] can_validate_frame_error [of f]
  by (simp add: can_bus_transceiver_def can_bus_transceiver_mut_def can_bus_transmit_def)

definition telemetry_ring_len :: "telemetry_ring \<Rightarrow> nat" where "telemetry_ring_len r = ring_len r"

definition interlock_events :: "'a interlock \<Rightarrow> telemetry_ring" where "interlock_events i = ilk_events i"

definition interlock_state_of :: "'a interlock \<Rightarrow> interlock_state" where "interlock_state_of i = ilk_state i"

definition uds_session_of :: "'d uds_server \<Rightarrow> uds_session" where "uds_session_of s = us_session s"

definition uds_security_of :: "'d uds_server \<Rightarrow> uds_security" where "uds_security_of s = us_security s"

definition someip_header_of :: "someip_message \<Rightarrow> someip_header" where "someip_header_of m = sm_header m"

definition agl_can_iface :: "agl_can \<Rightarrow> string" where "agl_can_iface a = ac_iface a"

definition bridge_transport :: "'t flight_control_bridge \<Rightarrow> 't" where "bridge_transport b = fb_transport b"

text \<open>\<open>transport_mut\<close>: what a caller does with the transport it borrows.\<close>

definition bridge_transport_mut :: "'t flight_control_bridge \<Rightarrow> ('t \<Rightarrow> 't) \<Rightarrow> 't flight_control_bridge" where
  "bridge_transport_mut b f = b\<lparr>fb_transport := f (fb_transport b)\<rparr>"

definition ffi_slot_capacity :: "'h zephyr_ffi \<Rightarrow> 'h \<Rightarrow> nat" where "ffi_slot_capacity F h = tpt_slot_capacity F h"


section \<open>Storage behind a mutable reference\<close>

text \<open>
  \<open>impl OtaStorage for &mut T\<close> forwards every call. An engine that borrows its storage leaves the caller
  the storage when it is dropped; a restart is a new engine over what is left.
\<close>

definition by_mut_ref :: "'s ota_storage_ops \<Rightarrow> 's ota_storage_ops" where
  "by_mut_ref S =
     \<lparr>os_write_slot = \<lambda>s slot offset data. os_write_slot S s slot offset data,
      os_read_slot = \<lambda>s slot offset buf. os_read_slot S s slot offset buf,
      os_slot_capacity = \<lambda>s. os_slot_capacity S s,
      os_write_state = \<lambda>s state. os_write_state S s state,
      os_read_state = \<lambda>s. os_read_state S s\<rparr>"

lemma by_mut_ref_eq: "by_mut_ref S = S"
  by (simp add: by_mut_ref_def)

context ota_storage
begin

lemma by_mut_ref_storage: "ota_storage (by_mut_ref S) W"
  by (simp add: by_mut_ref_eq ota_storage_axioms)

end

text \<open>A run with restarts: after each list of operations a new engine borrows the storage.\<close>

fun restarted_runs :: "target \<Rightarrow> 's ota_storage_ops \<Rightarrow> 'v signature_scheme \<Rightarrow> engine_op list list \<Rightarrow> 's \<Rightarrow> 'v \<Rightarrow>
    ((ota_error + op_value) list \<times> 's) outcome" where
  "restarted_runs t S V [] s v = Ret ([], s)"
| "restarted_runs t S V (xs # xss) s v =
     outcome_bind (engine_run t (by_mut_ref S) V xs (ota_engine_new s v)) (\<lambda>(rs, e).
     outcome_bind (restarted_runs t S V xss (oe_storage e) v) (\<lambda>(rs', s). Ret (rs @ rs', s)))"

lemma write_journal_signer: "write_journal S f st x e = Ret (r, e') \<Longrightarrow> oe_signer e' = oe_signer e"
  by (auto simp: write_journal_def outcome_inversions)

lemma ota_stage_signer: "ota_stage S V e p payload sig = Ret (r, e') \<Longrightarrow> oe_signer e' = oe_signer e"
  using ota_stage_authentic [of S V e p payload sig]
  by (auto simp: outcome_inversions split: if_splits sum.splits dest!: write_journal_signer)
    (metis old.unit.exhaust sum.exhaust)

lemma engine_op_signer: "engine_op_run t S V x e = Ret (r, e') \<Longrightarrow> oe_signer e' = oe_signer e"
  by (cases x)
    (auto simp: with_value_def outcome_inversions ota_recover_def ota_promote_def ota_commit_def ota_rollback_def
      split: sum.splits slot_state.splits dest!: write_journal_signer ota_stage_signer)

lemma engine_run_append:
  "engine_run t S V (xs @ ys) e =
     outcome_bind (engine_run t S V xs e) (\<lambda>(rs, e').
     outcome_bind (engine_run t S V ys e') (\<lambda>(rs', e''). Ret (rs @ rs', e'')))"
  by (induction xs arbitrary: e) (auto simp: outcome_bind_assoc case_prod_beta intro!: outcome_bind_cong)

lemma engine_run_signer: "engine_run t S V xs e = Ret (rs, e') \<Longrightarrow> oe_signer e' = oe_signer e"
  by (induction xs arbitrary: e rs) (auto simp: outcome_inversions dest!: engine_op_signer)

text \<open>The engine keeps nothing of its own: a run with restarts at any points gives the results of the
  uninterrupted run and leaves the same storage.\<close>
theorem restarts_are_invisible:
  "restarted_runs t S V xss s v =
     outcome_bind (engine_run t S V (concat xss) (ota_engine_new s v)) (\<lambda>(rs, e). Ret (rs, oe_storage e))"
proof (induction xss arbitrary: s)
  case (Cons xs xss)
  show ?case
  proof (cases "engine_run t S V xs (ota_engine_new s v)")
    case (Ret p)
    obtain rs e where p: "p = (rs, e)" by (cases p)
    have "ota_engine_new (oe_storage e) v = e"
      using engine_run_signer [of t S V xs "ota_engine_new s v" rs e] Ret p
      by (cases e) (simp add: ota_engine_new_def)
    then show ?thesis
      using Ret p Cons.IH [of "oe_storage e"]
      by (cases "engine_run t S V (concat xss) e") (auto simp: by_mut_ref_eq engine_run_append)
  qed (simp add: by_mut_ref_eq engine_run_append)
qed (simp add: ota_engine_new_def)


section \<open>Doubles of the unit tests\<close>

definition UNIT_SLOT_CAP :: nat where "UNIT_SLOT_CAP = 256"

record unit_storage =
  un_slots :: "u8 list list"
  un_state :: slot_state

definition unit_storage_new :: unit_storage where
  "unit_storage_new = \<lparr>un_slots = replicate 2 (replicate UNIT_SLOT_CAP 0), un_state = ActiveSlot0\<rparr>"

definition unit_write_slot :: "target \<Rightarrow> unit_storage \<Rightarrow> u8 \<Rightarrow> nat \<Rightarrow> u8 list \<Rightarrow>
    ((ota_error + unit) \<times> unit_storage) outcome" where
  "unit_write_slot t m slot offset data =
     (case ok_or (get_opt (un_slots m) (unat slot)) Storage of
        Inl err \<Rightarrow> Ret (Inl err, m)
      | Inr s \<Rightarrow>
          outcome_bind (usize_add t offset (length data)) (\<lambda>stop.
          if stop > length s then Ret (Inl Storage, m)
          else
            outcome_bind (copy_into s offset stop data) (\<lambda>s.
            Ret (Inr (), m\<lparr>un_slots := (un_slots m)[unat slot := s]\<rparr>))))"

definition unit_read_slot :: "target \<Rightarrow> unit_storage \<Rightarrow> u8 \<Rightarrow> nat \<Rightarrow> u8 list \<Rightarrow>
    ((ota_error + unit) \<times> u8 list) outcome" where
  "unit_read_slot t m slot offset buf =
     (case ok_or (get_opt (un_slots m) (unat slot)) Storage of
        Inl err \<Rightarrow> Ret (Inl err, buf)
      | Inr s \<Rightarrow>
          outcome_bind (usize_add t offset (length buf)) (\<lambda>stop.
          if stop > length s then Ret (Inl Storage, buf)
          else
            outcome_bind (subslice s offset stop) (\<lambda>src.
            outcome_bind (copy_into buf 0 (length buf) src) (\<lambda>buf.
            Ret (Inr (), buf)))))"

definition unit_write_state :: "unit_storage \<Rightarrow> slot_state \<Rightarrow> ((ota_error + unit) \<times> unit_storage) outcome" where
  "unit_write_state m st = Ret (Inr (), m\<lparr>un_state := st\<rparr>)"

definition unit_ops :: "target \<Rightarrow> unit_storage ota_storage_ops" where
  "unit_ops t =
     \<lparr>os_write_slot = unit_write_slot t, os_read_slot = unit_read_slot t,
      os_slot_capacity = \<lambda>_. UNIT_SLOT_CAP, os_write_state = unit_write_state,
      os_read_state = \<lambda>m. Inr (un_state m)\<rparr>"

text \<open>The storage of the tests answers as that of the example: the map between them is a bijection that every
  call respects.\<close>

definition as_mem :: "unit_storage \<Rightarrow> mem_storage" where
  "as_mem m = \<lparr>ms_slots = un_slots m, ms_state = un_state m\<rparr>"

lemma unit_storage_is_mem:
  "as_mem unit_storage_new = mem_storage_new"
  "mem_write_slot t (as_mem m) k off data = outcome_bind (unit_write_slot t m k off data) (\<lambda>(r, m). Ret (r, as_mem m))"
  "mem_read_slot t (as_mem m) k off buf = unit_read_slot t m k off buf"
  "mem_write_state (as_mem m) st = outcome_bind (unit_write_state m st) (\<lambda>(r, m). Ret (r, as_mem m))"
  "mem_read_state (as_mem m) = Inr (un_state m)"
  apply (simp_all add: as_mem_def unit_storage_new_def mem_storage_new_def UNIT_SLOT_CAP_def SLOT_CAP_def
      mem_read_slot_def ram_read_slot_def unit_read_slot_def mem_write_state_def unit_write_state_def mem_read_state_def)
  by (auto simp: mem_write_slot_def ram_write_slot_def unit_write_slot_def outcome_bind_assoc as_mem_def
      split: sum.split intro!: outcome_bind_cong)

definition unit_make_package :: "nat \<Rightarrow> demo_signer \<Rightarrow> u8 \<Rightarrow> u8 list \<Rightarrow> (u8 list \<times> update_package) outcome" where
  "unit_make_package n signer slot payload =
     (let pkg = \<lparr>up_slot = slot, up_payload_len = of_nat (length payload)\<rparr>;
          signed = replicate (HEADER_LEN + OTA_MAX_PAYLOAD) 0 in
      outcome_bind (slice_to signed HEADER_LEN) (\<lambda>head.
      outcome_bind (encode_package_header pkg head) (\<lambda>head.
      outcome_bind (copy_into signed 0 HEADER_LEN head) (\<lambda>signed.
      outcome_bind (copy_into signed HEADER_LEN (HEADER_LEN + length payload) payload) (\<lambda>signed.
      outcome_bind (slice_to signed (HEADER_LEN + length payload)) (\<lambda>message.
      Ret (demo_sign n signer message (replicate n 0), pkg)))))))"

lemma unit_make_package_eq: "unit_make_package = make_package"
  by (intro ext) (simp add: unit_make_package_def make_package_def)

text \<open>The data provider in the tests of the diagnostic server.\<close>

record unit_data =
  ud_store :: "u8 list"

definition unit_did_read_len :: "unit_data \<Rightarrow> u16 \<Rightarrow> nat option" where
  "unit_did_read_len d did =
     (if did = 0x0001 then Some 2 else if did = 0xF190 then Some 4 else None)"

definition unit_did_read :: "unit_data \<Rightarrow> u16 \<Rightarrow> u8 list \<Rightarrow> u8 list outcome" where
  "unit_did_read d did out =
     outcome_bind (slice_to (ud_store d) (length out)) (\<lambda>src. copy_into out 0 (length out) src)"

definition unit_did_write :: "unit_data \<Rightarrow> u16 \<Rightarrow> u8 list \<Rightarrow> (bool \<times> unit_data) outcome" where
  "unit_did_write d did data =
     (if length data > length (ud_store d) then Ret (False, d)
      else outcome_bind (copy_into (ud_store d) 0 (length data) data) (\<lambda>store.
           Ret (True, d\<lparr>ud_store := store\<rparr>)))"

definition unit_provider :: "unit_data uds_data_provider" where
  "unit_provider =
     \<lparr>dp_did_read_len = unit_did_read_len, dp_did_read = unit_did_read, dp_did_write = unit_did_write\<rparr>"

definition as_mock :: "unit_data \<Rightarrow> mock_data" where
  "as_mock d = \<lparr>md_store = ud_store d\<rparr>"

lemma unit_provider_is_mock:
  "mock_did_read_len (as_mock d) did = unit_did_read_len d did"
  "mock_did_read (as_mock d) did out = unit_did_read d did out"
  "mock_did_write (as_mock d) did data = outcome_bind (unit_did_write d did data) (\<lambda>(ok, d). Ret (ok, as_mock d))"
  by (auto simp: as_mock_def mock_did_read_len_def unit_did_read_len_def mock_did_read_def unit_did_read_def
      mock_did_write_def unit_did_write_def outcome_bind_assoc intro!: outcome_bind_cong)

end
