(* ===== verification/Conformance_Bus.thy ===== *)
theory Conformance_Bus
  imports Bus_Gate
begin

text \<open>
  The unit tests of \<open>core/src/lib.rs\<close>, \<open>can.rs\<close>, \<open>lin.rs\<close> and \<open>someip.rs\<close>, run on the model: every test
  function is a computation that returns when its assertions hold. That they all return checks the
  model against what the authors of the program expect of it.
\<close>


section \<open>Errors as text\<close>

text \<open>The version is that of the workspace in \<open>Cargo.toml\<close>, which the compiler puts in.\<close>

definition VERSION :: string where "VERSION = ''0.1.0''"

definition version_is_non_empty :: "unit outcome" where
  "version_is_non_empty = assert_that (VERSION \<noteq> [])"

definition LICENSE :: string where "LICENSE = ''MIT OR Apache-2.0''"

definition license_identifier_matches_manifest :: "unit outcome" where
  "license_identifier_matches_manifest = assert_that (LICENSE = ''MIT OR Apache-2.0'')"

text \<open>The fixed buffer the test formats into: what it holds so far.\<close>

definition buf_write_str :: "string \<Rightarrow> string \<Rightarrow> bool \<times> string" where
  "buf_write_str buf s = (if length buf + length s > 32 then (False, buf) else (True, buf @ s))"

definition error_display_is_readable :: "unit outcome" where
  "error_display_is_readable =
     (let (_, printed) = buf_write_str [] (error_display Unsupported);
          prefix = ''operation not supported'' in
      assert_that (take (length prefix) printed = prefix))"

lemma lib_tests_pass: "all_of [version_is_non_empty, license_identifier_matches_manifest, error_display_is_readable] = Ret ()"
  by code_simp


section \<open>CAN\<close>

text \<open>The constructors that skip validation, visible inside the crate only.\<close>

definition can_id_from_raw :: "u32 \<Rightarrow> bool \<Rightarrow> can_id" where
  "can_id_from_raw raw extended = \<lparr>cid_raw = raw, cid_extended = extended\<rparr>"

definition can_frame_from_raw :: "can_id \<Rightarrow> u8 list \<Rightarrow> u8 \<Rightarrow> can_frame" where
  "can_frame_from_raw i data len = \<lparr>cf_id = i, cf_data = data, cf_len = len\<rparr>"

definition can_standard_id_rejects_overflow :: "unit outcome" where
  "can_standard_id_rejects_overflow =
     all_of [assert_that (can_id_standard 0x800 = None), assert_that (can_id_standard 0x7FF \<noteq> None)]"

definition can_extended_id_rejects_overflow :: "unit outcome" where
  "can_extended_id_rejects_overflow =
     all_of [assert_that (can_id_extended 0x20000000 = None),
             assert_that (can_id_extended EXTENDED_MAX \<noteq> None)]"

definition can_frame_carries_payload :: "unit outcome" where
  "can_frame_carries_payload =
     outcome_bind (expect_some (can_id_standard 0x100)) (\<lambda>i.
     unwrap (can_frame_new i [1, 2, 3]) (\<lambda>f.
     outcome_bind (can_frame_data f) (\<lambda>data.
     all_of [assert_that (data = [1, 2, 3]), assert_that (can_frame_len f = 3)])))"

definition can_frame_rejects_oversize_payload :: "unit outcome" where
  "can_frame_rejects_oversize_payload =
     outcome_bind (expect_some (can_id_standard 0x100)) (\<lambda>i.
     outcome_bind (can_frame_new i (replicate (CAN_MAX_DLC + 1) 0)) (\<lambda>r. assert_that (r = None)))"

definition can_extended_id_accepts_max :: "unit outcome" where
  "can_extended_id_accepts_max =
     all_of [assert_that (can_id_extended 0x1FFFFFFF \<noteq> None),
             assert_that (can_id_extended 0x20000000 = None),
             assert_that (EXTENDED_MAX = 0x1FFFFFFF)]"

definition can_validate_frame_rejects_overrange_id :: "unit outcome" where
  "can_validate_frame_rejects_overrange_id =
     (let f = can_frame_from_raw (can_id_from_raw 0x20000000 True) (replicate CAN_MAX_DLC 0) 0 in
      assert_that (can_validate_frame f = Inl InvalidArgument))"

definition can_transmit_invalid_frame_errors_before_send :: "unit outcome" where
  "can_transmit_invalid_frame_errors_before_send =
     (let f = can_frame_from_raw (can_id_from_raw 0x20000000 True) (replicate CAN_MAX_DLC 0) 0;
          (r, bus) = can_bus_transmit can_recorder (can_bus_new recorder_new) f in
      all_of [assert_that (r = Inl InvalidFrame), assert_that (\<not> rec_sent (cb_transceiver bus))])"

definition can_transmit_valid_frame_reaches_transceiver :: "unit outcome" where
  "can_transmit_valid_frame_reaches_transceiver =
     outcome_bind (expect_some (can_id_extended 0x18DAF100)) (\<lambda>i.
     unwrap (can_frame_new i [1, 2, 3]) (\<lambda>f.
     let (r, bus) = can_bus_transmit can_recorder (can_bus_new recorder_new) f in
     all_of [assert_that (r = Inr ()), assert_that (rec_sent (cb_transceiver bus))]))"

definition canfd_frame_carries_up_to_64_bytes :: "unit outcome" where
  "canfd_frame_carries_up_to_64_bytes =
     outcome_bind (expect_some (can_id_extended 0x18DAF100)) (\<lambda>i.
     unwrap (can_fd_frame_new i (replicate CANFD_MAX_DLC 0x5A)) (\<lambda>f.
     outcome_bind (can_fd_frame_data f) (\<lambda>data.
     all_of [assert_that (length data = CANFD_MAX_DLC),
             assert_that (data = replicate CANFD_MAX_DLC 0x5A)])))"

definition canfd_rejects_oversize_payload :: "unit outcome" where
  "canfd_rejects_oversize_payload =
     outcome_bind (expect_some (can_id_standard 0x100)) (\<lambda>i.
     outcome_bind (can_fd_frame_new i (replicate (CANFD_MAX_DLC + 1) 0)) (\<lambda>r. assert_that (r = None)))"

definition canfd_transmit_invalid_frame_errors :: "unit outcome" where
  "canfd_transmit_invalid_frame_errors =
     unwrap (can_fd_frame_new (can_id_from_raw 0x20000000 True) (replicate CANFD_MAX_DLC 0)) (\<lambda>f.
     let (r, bus) = can_fd_bus_transmit fd_recorder (can_fd_bus_new recorder_new) f in
     all_of [assert_that (r = Inl InvalidFrame), assert_that (\<not> rec_sent (fdb_transceiver bus))])"

definition canfd_transmit_valid_frame_reaches_transceiver :: "unit outcome" where
  "canfd_transmit_valid_frame_reaches_transceiver =
     outcome_bind (expect_some (can_id_standard 0x200)) (\<lambda>i.
     unwrap (can_fd_frame_new i [1, 2, 3, 4]) (\<lambda>f.
     let (r, bus) = can_fd_bus_transmit fd_recorder (can_fd_bus_new recorder_new) f in
     all_of [assert_that (r = Inr ()), assert_that (rec_sent (fdb_transceiver bus))]))"

lemma can_tests_pass:
  "all_of [can_standard_id_rejects_overflow, can_extended_id_rejects_overflow, can_frame_carries_payload,
     can_frame_rejects_oversize_payload, can_extended_id_accepts_max,
     can_validate_frame_rejects_overrange_id, can_transmit_invalid_frame_errors_before_send,
     can_transmit_valid_frame_reaches_transceiver, canfd_frame_carries_up_to_64_bytes,
     canfd_rejects_oversize_payload, canfd_transmit_invalid_frame_errors,
     canfd_transmit_valid_frame_reaches_transceiver] = Ret ()"
  by code_simp


section \<open>LIN\<close>

definition lin_frame_from_raw :: "lin_id \<Rightarrow> u8 list \<Rightarrow> u8 \<Rightarrow> lin_frame" where
  "lin_frame_from_raw i data len = \<lparr>lf_id = i, lf_data = data, lf_len = len\<rparr>"

definition lin_id_rejects_overflow :: "unit outcome" where
  "lin_id_rejects_overflow =
     all_of [assert_that (lin_id_new 0x40 = None), assert_that (lin_id_new 0x3F \<noteq> None)]"

definition protected_pid_matches_known_values :: "unit outcome" where
  "protected_pid_matches_known_values =
     all_of (map (\<lambda>(i, pid). outcome_bind (expect_some (lin_id_new i)) (\<lambda>l.
       assert_that (lin_id_protected l = pid))) [(0x00, 0x80), (0x01, 0xC1), (0x20, 0x20)])"

text \<open>The test's own sum over the bytes of the frame.\<close>

fun test_sum :: "target \<Rightarrow> u16 \<Rightarrow> u8 list \<Rightarrow> u16 outcome" where
  "test_sum t acc [] = Ret acc"
| "test_sum t acc (b # bs) =
     outcome_bind (u16_add t acc (ucast b)) (\<lambda>acc. test_sum t (if acc > 0xFF then acc - 0xFF else acc) bs)"

definition checksum_is_inverted_modulo_sum :: "target \<Rightarrow> unit outcome" where
  "checksum_is_inverted_modulo_sum t =
     outcome_bind (expect_some (lin_id_new 0x10)) (\<lambda>i.
     unwrap (lin_frame_new i [0x01, 0x02, 0x03]) (\<lambda>f.
     outcome_bind (lin_frame_data f) (\<lambda>data.
     outcome_bind (test_sum t 0 data) (\<lambda>acc.
     outcome_bind (lin_frame_checksum t f) (\<lambda>c.
     assert_that (c = NOT (ucast acc)))))))"

definition lin_frame_rejects_oversize_payload :: "unit outcome" where
  "lin_frame_rejects_oversize_payload =
     outcome_bind (expect_some (lin_id_new 0x05)) (\<lambda>i.
     outcome_bind (lin_frame_new i (replicate (LIN_MAX_DLC + 1) 0)) (\<lambda>r. assert_that (r = None)))"

definition lin_validate_frame_ok :: "unit outcome" where
  "lin_validate_frame_ok =
     outcome_bind (expect_some (lin_id_new 0x02)) (\<lambda>i.
     unwrap (lin_frame_new i [9]) (\<lambda>f. assert_that (lin_validate_frame f = Inr ())))"

definition lin_transmit_invalid_frame_errors_before_send :: "unit outcome" where
  "lin_transmit_invalid_frame_errors_before_send =
     outcome_bind (expect_some (lin_id_new 0x05)) (\<lambda>i.
     let f = lin_frame_from_raw i (replicate LIN_MAX_DLC 0) (of_nat (LIN_MAX_DLC + 1));
         (r, bus) = lin_bus_transmit lin_recorder (lin_bus_new recorder_new) f in
     all_of [assert_that (r = Inl InvalidFrame), assert_that (\<not> rec_sent (lb_transceiver bus))])"

definition lin_transmit_valid_frame_reaches_transceiver :: "unit outcome" where
  "lin_transmit_valid_frame_reaches_transceiver =
     outcome_bind (expect_some (lin_id_new 0x05)) (\<lambda>i.
     unwrap (lin_frame_new i [1, 2, 3]) (\<lambda>f.
     let (r, bus) = lin_bus_transmit lin_recorder (lin_bus_new recorder_new) f in
     all_of [assert_that (r = Inr ()), assert_that (rec_sent (lb_transceiver bus))]))"

lemma checksum_test_passes: "checksum_is_inverted_modulo_sum t = Ret ()"
  by (simp add: checksum_is_inverted_modulo_sum_def unwrap_def lin_id_new_def LIN_ID_MAX_def
      lin_frame_new_small LIN_MAX_DLC_def lin_frame_data_def lin_frame_checksum_def u16_add_def)

lemma lin_closed_tests_pass:
  "lin_id_rejects_overflow = Ret ()" "protected_pid_matches_known_values = Ret ()"
  "lin_frame_rejects_oversize_payload = Ret ()" "lin_validate_frame_ok = Ret ()"
  "lin_transmit_invalid_frame_errors_before_send = Ret ()"
  "lin_transmit_valid_frame_reaches_transceiver = Ret ()"
  by code_simp+

lemma lin_tests_pass:
  "all_of [lin_id_rejects_overflow, protected_pid_matches_known_values,
     checksum_is_inverted_modulo_sum t, lin_frame_rejects_oversize_payload, lin_validate_frame_ok,
     lin_transmit_invalid_frame_errors_before_send, lin_transmit_valid_frame_reaches_transceiver] = Ret ()"
  by (simp add: lin_closed_tests_pass checksum_test_passes)


section \<open>SOME/IP\<close>

definition someip_message_from_raw :: "someip_header \<Rightarrow> u8 list \<Rightarrow> u16 \<Rightarrow> someip_message" where
  "someip_message_from_raw h payload len = \<lparr>sm_header = h, sm_payload = payload, sm_payload_len = len\<rparr>"

definition sample_header :: someip_header where
  "sample_header =
     \<lparr>sh_message_id = \<lparr>mid_service = 0x1234, mid_method = 0x0001\<rparr>,
      sh_request_id = \<lparr>rid_client = 0xAB, rid_session = 0x0001\<rparr>,
      sh_interface_version = 0x01, sh_message_type = Request, sh_return_code = E_Ok\<rparr>"

definition zero_service_header :: someip_header where
  "zero_service_header = sample_header\<lparr>sh_message_id := \<lparr>mid_service = 0, mid_method = 0\<rparr>\<rparr>"

definition message_type_round_trips :: "unit outcome" where
  "message_type_round_trips =
     all_of (map (\<lambda>mt. assert_that (message_type_from_u8 (message_type_to_u8 mt) = Some mt))
       [Request, RequestNoReturn, Notification, Response, ErrorResponse])"

definition return_code_round_trips :: "unit outcome" where
  "return_code_round_trips =
     all_of (map (\<lambda>rc. assert_that (return_code_from_u8 (return_code_to_u8 rc) = Some rc))
       [E_Ok, E_NotOk, E_WrongProtocolVersion])"

definition header_encode_decode_round_trips :: "unit outcome" where
  "header_encode_decode_round_trips =
     outcome_bind (header_encode sample_header (replicate SOMEIP_HEADER_LEN 0)) (\<lambda>(r, buf).
     outcome_bind (expect_some r) (\<lambda>_.
     outcome_bind (expect_some (header_decode buf)) (\<lambda>decoded.
     all_of [assert_that (decoded = sample_header),
             assert_that (message_id_to_u32 (sh_message_id decoded) = 0x12340001)])))"

definition message_encode_decode_round_trips :: "target \<Rightarrow> unit outcome" where
  "message_encode_decode_round_trips t =
     unwrap (someip_message_new sample_header [0xDE, 0xAD, 0xBE, 0xEF]) (\<lambda>msg.
     outcome_bind (someip_encode t msg (replicate 64 0)) (\<lambda>(r, buf).
     outcome_bind (expect_some r) (\<lambda>n.
     outcome_bind (assert_that (n = SOMEIP_HEADER_LEN + 4)) (\<lambda>_.
     outcome_bind (slice_to buf n) (\<lambda>bytes.
     unwrap (someip_decode t bytes) (\<lambda>decoded.
     outcome_bind (someip_payload decoded) (\<lambda>p.
     all_of [assert_that (p = [0xDE, 0xAD, 0xBE, 0xEF]),
             assert_that (sh_message_id (sm_header decoded) = sh_message_id sample_header)])))))))"

definition oversize_payload_rejected :: "unit outcome" where
  "oversize_payload_rejected =
     outcome_bind (someip_message_new sample_header (replicate (SOMEIP_MAX_PAYLOAD + 1) 0)) (\<lambda>r.
     assert_that (r = None))"

definition length_field_accounts_for_request_and_header :: "target \<Rightarrow> unit outcome" where
  "length_field_accounts_for_request_and_header t =
     outcome_bind (length_field t 0) (\<lambda>a.
     outcome_bind (assert_that (a = 8)) (\<lambda>_.
     outcome_bind (length_field t 4) (\<lambda>b. assert_that (b = 12))))"

definition validate_rejects_zero_service_request :: "unit outcome" where
  "validate_rejects_zero_service_request =
     unwrap (someip_message_new zero_service_header []) (\<lambda>msg.
     assert_that (someip_validate_message msg = Inl InvalidArgument))"

definition transmit_invalid_message_errors_before_send :: "unit outcome" where
  "transmit_invalid_message_errors_before_send =
     (let msg = someip_message_from_raw zero_service_header (replicate SOMEIP_MAX_PAYLOAD 0) 0;
          (r, bus) = someip_bus_transmit someip_recorder (someip_bus_new recorder_new) msg in
      all_of [assert_that (r = Inl InvalidFrame), assert_that (\<not> rec_sent (sb_transceiver bus))])"

definition transmit_valid_message_reaches_transceiver :: "unit outcome" where
  "transmit_valid_message_reaches_transceiver =
     unwrap (someip_message_new sample_header [1, 2, 3]) (\<lambda>msg.
     let (r, bus) = someip_bus_transmit someip_recorder (someip_bus_new recorder_new) msg in
     all_of [assert_that (r = Inr ()), assert_that (rec_sent (sb_transceiver bus))])"

lemma someip_codec_tests_pass:
  "message_type_round_trips = Ret ()" "return_code_round_trips = Ret ()"
  "header_encode_decode_round_trips = Ret ()"
  by code_simp+

lemma length_field_test_passes: "length_field_accounts_for_request_and_header t = Ret ()"
  by (simp add: length_field_accounts_for_request_and_header_def length_field_def)

lemma someip_message_tests_pass:
  "oversize_payload_rejected = Ret ()" "validate_rejects_zero_service_request = Ret ()"
  "transmit_invalid_message_errors_before_send = Ret ()"
  "transmit_valid_message_reaches_transceiver = Ret ()"
proof -
  note d = unwrap_def someip_message_new_def SOMEIP_MAX_PAYLOAD_def someip_bus_defs recorder_defs
    someip_validate_message_def zero_service_header_def sample_header_def someip_bus_new_def
    recorder_new_def someip_message_from_raw_def
  show "oversize_payload_rejected = Ret ()"
    by (simp add: oversize_payload_rejected_def d)
  show "validate_rejects_zero_service_request = Ret ()"
    by (simp add: validate_rejects_zero_service_request_def d)
  show "transmit_invalid_message_errors_before_send = Ret ()"
    by (simp add: transmit_invalid_message_errors_before_send_def d)
  show "transmit_valid_message_reaches_transceiver = Ret ()"
    by (simp add: transmit_valid_message_reaches_transceiver_def d)
qed

lemma message_codec_test_passes:
  assumes "32 \<le> usize_bits t"
  shows "message_encode_decode_round_trips t = Ret ()"
proof -
  let ?data = "[0xDE, 0xAD, 0xBE, 0xEF] :: u8 list"
  obtain m where m: "someip_message_new sample_header ?data = Ret (Some m)" "unat (sm_payload_len m) = 4"
    "sm_header m = sample_header" "someip_payload m = Ret ?data"
    by (simp add: someip_message_new_def SOMEIP_MAX_PAYLOAD_def someip_payload_def)
  from someip_message_new_ok [OF m(1)] have ok: "someip_message_ok m" by simp
  have len: "length (someip_wire m) = 20"
    using length_someip_wire [OF ok] m(2) by (simp add: SOMEIP_HEADER_LEN_def)
  have "someip_encode t m (replicate 64 0) = Ret (Some 20, someip_wire m @ replicate 44 0)"
    by (simp add: someip_encode_eq [OF ok] m(2) SOMEIP_HEADER_LEN_def Let_def)
  moreover have "someip_decode t (someip_wire m) = Ret (Some m)"
    using someip_decode_wire [OF ok assms, of "[]"] by simp
  ultimately show ?thesis
    using m len by (simp add: message_encode_decode_round_trips_def unwrap_def SOMEIP_HEADER_LEN_def)
qed

lemma someip_tests_pass:
  assumes "32 \<le> usize_bits t"
  shows "all_of [message_type_round_trips, return_code_round_trips, header_encode_decode_round_trips,
     message_encode_decode_round_trips t, oversize_payload_rejected,
     length_field_accounts_for_request_and_header t, validate_rejects_zero_service_request,
     transmit_invalid_message_errors_before_send, transmit_valid_message_reaches_transceiver] = Ret ()"
  by (simp add: someip_codec_tests_pass length_field_test_passes someip_message_tests_pass
      message_codec_test_passes [OF assms])

end
