(* ===== verification/Conformance_Transport.thy ===== *)
theory Conformance_Transport
  imports Isotp Autosar Uds
begin

text \<open>
  The unit tests of \<open>core/src/isotp.rs\<close>, \<open>autosar.rs\<close> and \<open>uds.rs\<close>, run on the model as those of
  the buses in \<open>Conformance_Bus\<close>. \<open>multi_frame_write_via_isotp_then_unlock\<close> is the test that
  joins the transport layer and the diagnostic server.
\<close>


section \<open>ISO-TP\<close>

text \<open>\<open>encode_message(..).unwrap()\<close> into eight frames, and \<open>link.feed(..).unwrap()\<close>.\<close>

definition encode_unwrap :: "u8 list \<Rightarrow> (nat \<times> u8 list list) outcome" where
  "encode_unwrap msg =
     outcome_bind (encode_message msg (replicate 8 (replicate 8 0))) (\<lambda>(r, frames).
     outcome_bind (expect_ok r) (\<lambda>n. Ret (n, frames)))"

definition feed_unwrap :: "isotp_link \<Rightarrow> u8 list \<Rightarrow> (isotp_event \<times> isotp_link) outcome" where
  "feed_unwrap l frame =
     outcome_bind (feed l frame) (\<lambda>(r, l). outcome_bind (expect_ok r) (\<lambda>ev. Ret (ev, l)))"

definition counting_message :: "u8 list" where
  "counting_message = map of_nat [0..<20]"

definition single_frame_round_trips :: "unit outcome" where
  "single_frame_round_trips =
     (let msg = [0x22, 0xF1, 0x90] in
      outcome_bind (encode_unwrap msg) (\<lambda>(n, frames).
      outcome_bind (assert_that (n = 1)) (\<lambda>_.
      outcome_bind (index_at frames 0) (\<lambda>f0.
      outcome_bind (feed_unwrap (isotp_link_new 64) f0) (\<lambda>(ev, l).
      assert_that (ev = Complete msg))))))"

definition multi_frame_reassembles :: "unit outcome" where
  "multi_frame_reassembles =
     outcome_bind (encode_unwrap counting_message) (\<lambda>(n, frames).
     outcome_bind (assert_that (n = 3)) (\<lambda>_.
     outcome_bind (index_at frames 0) (\<lambda>f0.
     outcome_bind (feed_unwrap (isotp_link_new 64) f0) (\<lambda>(ev, l).
     outcome_bind (assert_that (ev = NeedFlowControl)) (\<lambda>_.
     outcome_bind (index_at frames 1) (\<lambda>f1.
     outcome_bind (feed_unwrap l f1) (\<lambda>(ev, l).
     outcome_bind (assert_that (ev = Incomplete)) (\<lambda>_.
     outcome_bind (index_at frames 2) (\<lambda>f2.
     outcome_bind (feed_unwrap l f2) (\<lambda>(ev, l).
     assert_that (ev = Complete counting_message)))))))))))"

definition wrong_sequence_number_is_rejected :: "unit outcome" where
  "wrong_sequence_number_is_rejected =
     outcome_bind (encode_unwrap counting_message) (\<lambda>(n, frames).
     outcome_bind (index_at frames 0) (\<lambda>f0.
     outcome_bind (feed_unwrap (isotp_link_new 64) f0) (\<lambda>(ev, l).
     outcome_bind (index_at frames 1) (\<lambda>bad.
     outcome_bind (store_at bad 0 0x25) (\<lambda>bad.
     outcome_bind (feed l bad) (\<lambda>(r, l).
     assert_that (r = Inl WrongSequence)))))))"

definition consecutive_without_first_is_rejected :: "unit outcome" where
  "consecutive_without_first_is_rejected =
     outcome_bind (feed (isotp_link_new 64) [0x21, 1, 2, 3, 4, 5, 6, 7]) (\<lambda>(r, l).
     assert_that (r = Inl UnexpectedFrame))"

lemma isotp_tests_pass:
  "all_of [single_frame_round_trips, multi_frame_reassembles, wrong_sequence_number_is_rejected,
     consecutive_without_first_is_rejected] = Ret ()"
  by code_simp


section \<open>AUTOSAR drivers\<close>

definition read_unwrap :: "target \<Rightarrow> sim_dio \<Rightarrow> dio_channel \<Rightarrow> dio_level outcome" where
  "read_unwrap t d c = outcome_bind (sim_read_channel t d c) expect_ok"

definition dio_round_trips :: "target \<Rightarrow> unit outcome" where
  "dio_round_trips t =
     outcome_bind (expect_some (dio_channel_new 0 3)) (\<lambda>ch.
     outcome_bind (read_unwrap t sim_dio_new ch) (\<lambda>l.
     outcome_bind (assert_that (l = Low)) (\<lambda>_.
     outcome_bind (sim_write_channel t sim_dio_new ch High) (\<lambda>(r, dio).
     outcome_bind (expect_ok r) (\<lambda>_.
     outcome_bind (read_unwrap t dio ch) (\<lambda>l.
     outcome_bind (assert_that (l = High)) (\<lambda>_.
     assert_that (port_word dio 0 AND push_bit 3 1 = push_bit 3 1))))))))"

definition dio_rejects_bad_pin :: "target \<Rightarrow> unit outcome" where
  "dio_rejects_bad_pin t =
     outcome_bind (assert_that (dio_channel_new 0 32 = None)) (\<lambda>_.
     outcome_bind (expect_some (dio_channel_new 16 0)) (\<lambda>ch.
     outcome_bind (sim_write_channel t sim_dio_new ch High) (\<lambda>(r, dio).
     assert_that (r = Inl InvalidArgument))))"

definition test_signal_pack_unpack :: "target \<Rightarrow> unit outcome" where
  "test_signal_pack_unpack t =
     outcome_bind (expect_some (signal_new 4 8)) (\<lambda>s.
     unwrap (signal_pack t s 0 0xAB) (\<lambda>packed.
     outcome_bind (signal_unpack t s packed) (\<lambda>v.
     all_of [assert_that (v = 0xAB), assert_that (packed = push_bit 4 0xAB)])))"

definition signal_rejects_overflow_value :: "target \<Rightarrow> unit outcome" where
  "signal_rejects_overflow_value t =
     outcome_bind (expect_some (signal_new 0 4)) (\<lambda>s.
     outcome_bind (signal_pack t s 0 0x10) (\<lambda>r.
     outcome_bind (assert_that (r = None)) (\<lambda>_.
     outcome_bind (signal_pack t s 0 0x0F) (\<lambda>r. assert_that (r \<noteq> None)))))"

definition signal_layout_validation :: "unit outcome" where
  "signal_layout_validation =
     all_of [assert_that (signal_new 0 0 = None), assert_that (signal_new 60 8 = None),
             assert_that (signal_new 0 64 \<noteq> None)]"

lemma dio_tests_pass: "dio_round_trips t = Ret ()" "dio_rejects_bad_pin t = Ret ()"
  by (simp_all add: dio_round_trips_def dio_rejects_bad_pin_def read_unwrap_def dio_channel_new_def
      sim_dio_new_def sim_read_channel_def sim_write_channel_def channel_bit_def get_opt_def
      level_from_bool_def port_word_def)

lemma signal_tests_pass:
  "test_signal_pack_unpack t = Ret ()" "signal_rejects_overflow_value t = Ret ()"
  "signal_layout_validation = Ret ()"
  by (simp_all add: test_signal_pack_unpack_def signal_rejects_overflow_value_def unwrap_def
      signal_layout_validation_def signal_new_def signal_pack_def signal_unpack_def signal_mask_def)

lemma autosar_tests_pass:
  "all_of [dio_round_trips t, dio_rejects_bad_pin t, test_signal_pack_unpack t,
     signal_rejects_overflow_value t, signal_layout_validation] = Ret ()"
  by (simp add: dio_tests_pass signal_tests_pass)


section \<open>The diagnostic server\<close>

text \<open>\<open>server()\<close> and \<open>s.handle(..).unwrap()\<close> with a 16-byte response buffer: the first \<open>n\<close> bytes
  of the buffer, the buffer and the server.\<close>

definition test_server :: "mock_data uds_server" where
  "test_server = uds_server_new mock_data_new"

definition handle_unwrap :: "mock_data uds_server \<Rightarrow> u8 list \<Rightarrow> u8 list \<Rightarrow>
    (u8 list \<times> u8 list \<times> mock_data uds_server) outcome" where
  "handle_unwrap s req resp =
     outcome_bind (uds_handle mock_provider s req resp) (\<lambda>(r, resp, s).
     outcome_bind (expect_some r) (\<lambda>n.
     outcome_bind (slice_to resp n) (\<lambda>answer. Ret (answer, resp, s))))"

definition tester_present_responds :: "unit outcome" where
  "tester_present_responds =
     outcome_bind (handle_unwrap test_server [0x3E, 0x00] (replicate 16 0)) (\<lambda>(a, _, _).
     assert_that (a = [0x7E, 0x00]))"

definition session_control_enters_extended :: "unit outcome" where
  "session_control_enters_extended =
     outcome_bind (handle_unwrap test_server [0x10, 0x03] (replicate 16 0)) (\<lambda>(a, _, s).
     all_of [assert_that (a = [0x50, 0x03, 0x00, 0x32]), assert_that (us_session s = ExtendedSession)])"

definition read_did_unknown_is_nrc :: "unit outcome" where
  "read_did_unknown_is_nrc =
     outcome_bind (handle_unwrap test_server [0x22, 0x99, 0x99] (replicate 16 0)) (\<lambda>(a, _, _).
     assert_that (a = [0x7F, 0x22, 0x31]))"

definition read_reserved_did_requires_security :: "unit outcome" where
  "read_reserved_did_requires_security =
     outcome_bind (handle_unwrap test_server [0x22, 0xF1, 0x90] (replicate 16 0)) (\<lambda>(a, _, _).
     assert_that (a = [0x7F, 0x22, 0x33]))"

definition security_unlock_then_read_reserved :: "unit outcome" where
  "security_unlock_then_read_reserved =
     outcome_bind (handle_unwrap test_server [0x27, 0x01] (replicate 16 0)) (\<lambda>(a, resp, s).
     outcome_bind (assert_that (a = [0x67, 0x01, 0xAA])) (\<lambda>_.
     outcome_bind (handle_unwrap s [0x27, 0x02, 0x55] resp) (\<lambda>(a, resp, s).
     outcome_bind (assert_that (a = [0x67, 0x02])) (\<lambda>_.
     outcome_bind (assert_that (us_security s = Unlocked)) (\<lambda>_.
     outcome_bind (handle_unwrap s [0x22, 0xF1, 0x90] resp) (\<lambda>(a, resp, s).
     outcome_bind (slice_to resp 3) (\<lambda>head.
     all_of [assert_that (head = [0x62, 0xF1, 0x90]), assert_that (length a = 3 + 4)])))))))"

definition write_requires_security :: "unit outcome" where
  "write_requires_security =
     outcome_bind (handle_unwrap test_server [0x2E, 0x00, 0x01, 0xAB, 0xCD] (replicate 16 0))
       (\<lambda>(a, _, _). assert_that (a = [0x7F, 0x2E, 0x33]))"

definition unsupported_service_is_nrc :: "unit outcome" where
  "unsupported_service_is_nrc =
     outcome_bind (handle_unwrap test_server [0x19, 0x01] (replicate 16 0)) (\<lambda>(a, _, _).
     assert_that (a = [0x7F, 0x19, 0x11]))"

text \<open>The receive loop of the test, which copies a completed message out of the link.\<close>

fun collect_message ::
  "isotp_link \<Rightarrow> u8 list list \<Rightarrow> u8 list \<Rightarrow> nat \<Rightarrow> (u8 list \<times> nat) outcome" where
  "collect_message l [] payload got = Ret (payload, got)"
| "collect_message l (frame # frames) payload got =
     outcome_bind (feed_unwrap l frame) (\<lambda>(ev, l).
       case ev of
         Complete p \<Rightarrow>
           outcome_bind (copy_into payload 0 (length p) p) (\<lambda>payload.
             collect_message l frames payload (length p))
       | _ \<Rightarrow> collect_message l frames payload got)"

definition multi_frame_write_via_isotp_then_unlock :: "unit outcome" where
  "multi_frame_write_via_isotp_then_unlock =
     (let req = [0x2E, 0x00, 0x01] @ replicate 17 0xAB in
      outcome_bind (encode_unwrap req) (\<lambda>(n, frames).
      outcome_bind (assert_that (n \<ge> 2)) (\<lambda>_.
      outcome_bind (slice_to frames n) (\<lambda>sent.
      outcome_bind (collect_message (isotp_link_new 64) sent (replicate 20 0) 0) (\<lambda>(payload, got).
      outcome_bind (assert_that (got = 20)) (\<lambda>_.
      outcome_bind (slice_to payload got) (\<lambda>request.
      outcome_bind (handle_unwrap test_server request (replicate 16 0)) (\<lambda>(a, resp, s).
      outcome_bind (assert_that (a = [0x7F, 0x2E, 0x33])) (\<lambda>_.
      outcome_bind (uds_handle mock_provider s [0x27, 0x01] resp) (\<lambda>(_, resp, s).
      outcome_bind (uds_handle mock_provider s [0x27, 0x02, 0x55] resp) (\<lambda>(_, resp, s).
      outcome_bind (handle_unwrap s request resp) (\<lambda>(a, resp, s).
      assert_that (a = [0x6E, 0x00, 0x01])))))))))))))"

text \<open>The loop of ticks that must not disarm.\<close>

fun ticks_held :: "nat \<Rightarrow> 'd uds_server \<Rightarrow> 'd uds_server outcome" where
  "ticks_held 0 s = Ret s"
| "ticks_held (Suc n) s =
     (let (disarmed, s) = uds_tick s in
      outcome_bind (assert_that (\<not> disarmed)) (\<lambda>_. ticks_held n s))"

definition tester_present_timeout_auto_disarms :: "unit outcome" where
  "tester_present_timeout_auto_disarms =
     outcome_bind (uds_handle mock_provider test_server [0x10, 0x03] (replicate 16 0)) (\<lambda>(_, resp, s).
     outcome_bind (uds_handle mock_provider s [0x27, 0x01] resp) (\<lambda>(_, resp, s).
     outcome_bind (uds_handle mock_provider s [0x27, 0x02, 0x55] resp) (\<lambda>(_, resp, s).
     outcome_bind (assert_that (us_session s = ExtendedSession)) (\<lambda>_.
     outcome_bind (assert_that (us_security s = Unlocked)) (\<lambda>_.
     outcome_bind (uds_handle mock_provider s [0x3E, 0x00] resp) (\<lambda>(_, resp, s).
     outcome_bind (assert_that (uds_is_held s)) (\<lambda>_.
     outcome_bind (ticks_held (unat TESTER_PRESENT_TIMEOUT - 1) s) (\<lambda>s.
     let (disarmed, s) = uds_tick s in
     all_of [assert_that disarmed, assert_that (us_session s = DefaultSession),
             assert_that (us_security s = Locked), assert_that (\<not> uds_is_held s)]))))))))"

lemma uds_single_frame_tests_pass:
  "tester_present_responds = Ret ()" "session_control_enters_extended = Ret ()"
  "read_did_unknown_is_nrc = Ret ()" "read_reserved_did_requires_security = Ret ()"
  "security_unlock_then_read_reserved = Ret ()" "write_requires_security = Ret ()"
  "unsupported_service_is_nrc = Ret ()" "tester_present_timeout_auto_disarms = Ret ()"
  by code_simp+

lemma uds_multi_frame_test_passes: "multi_frame_write_via_isotp_then_unlock = Ret ()"
  by code_simp

lemma uds_tests_pass:
  "all_of [tester_present_responds, session_control_enters_extended, read_did_unknown_is_nrc,
     read_reserved_did_requires_security, security_unlock_then_read_reserved,
     write_requires_security, unsupported_service_is_nrc, multi_frame_write_via_isotp_then_unlock,
     tester_present_timeout_auto_disarms] = Ret ()"
  by (simp add: uds_single_frame_tests_pass uds_multi_frame_test_passes)

end
