(* ===== verification/Conformance_Ota.thy ===== *)
theory Conformance_Ota
  imports Ota_Demo Ed25519
begin

text \<open>
  The unit tests of \<open>core/src/ota.rs\<close>, run on the model as those of the buses in \<open>Conformance_Bus\<close>,
  for both signature lengths and every target with 32-bit sizes or more. The storage and the packager
  of the tests are those of the example (\<open>mem_storage\<close>, \<open>make_package\<close>), with the same code.
\<close>


section \<open>The tests\<close>

definition slot_state_round_trips :: "target \<Rightarrow> unit outcome" where
  "slot_state_round_trips t =
     outcome_bind (all_of (map (\<lambda>st.
         outcome_bind (slot_state_encode t st) (\<lambda>bytes.
         outcome_bind (index_at bytes 0) (\<lambda>b0.
         outcome_bind (index_at bytes 1) (\<lambda>b1.
         assert_that (slot_state_decode b0 b1 = Some st)))))
       [ActiveSlot0, ActiveSlot1, Pending 1, Testing 1 0])) (\<lambda>_.
     assert_that (slot_state_decode 0xFF 0x00 = None))"

text \<open>The common beginning: a package for slot 1 is made and staged on a new storage.\<close>

definition staged_engine :: "target \<Rightarrow> nat \<Rightarrow> u8 list \<Rightarrow> (mem_storage, demo_signer) ota_engine outcome" where
  "staged_engine t n payload =
     (let signer = demo_signer_new 0xCAFE; engine = ota_engine_new mem_storage_new signer in
      outcome_bind (make_package n signer 1 payload) (\<lambda>(sig, pkg).
      outcome_bind (ota_stage (mem_ops t) (demo_scheme n) engine pkg payload sig) (\<lambda>(r, engine).
      outcome_bind (expect_ok r) (\<lambda>_. Ret engine))))"

definition stage_then_promote_commit_activates_new_slot :: "target \<Rightarrow> nat \<Rightarrow> unit outcome" where
  "stage_then_promote_commit_activates_new_slot t n =
     outcome_bind (staged_engine t n (replicate 16 0xAB)) (\<lambda>engine.
     outcome_bind (ota_promote t (mem_ops t) engine) (\<lambda>(r, engine).
     outcome_bind (expect_ok r) (\<lambda>active.
     outcome_bind (assert_that (active = 1)) (\<lambda>_.
     outcome_bind (ota_commit (mem_ops t) engine) (\<lambda>(r, engine).
     outcome_bind (expect_ok r) (\<lambda>active.
     outcome_bind (assert_that (active = 1)) (\<lambda>_.
     outcome_bind (expect_ok (ota_state (mem_ops t) engine)) (\<lambda>st.
     assert_that (st = ActiveSlot1)))))))))"

definition corrupted_signature_is_rejected :: "target \<Rightarrow> nat \<Rightarrow> unit outcome" where
  "corrupted_signature_is_rejected t n =
     (let signer = demo_signer_new 0xCAFE; engine = ota_engine_new mem_storage_new signer;
          payload = replicate 16 0xAB in
      outcome_bind (make_package n signer 1 payload) (\<lambda>(_, pkg).
      outcome_bind (store_at (replicate n 0) 0 0xFF) (\<lambda>bad_sig.
      outcome_bind (ota_stage (mem_ops t) (demo_scheme n) engine pkg payload bad_sig) (\<lambda>(r, _).
      assert_that (r = Inl BadSignature)))))"

definition bad_magic_package_rejected :: "unit outcome" where
  "bad_magic_package_rejected =
     assert_that (decode_package_header [0, 0, 0, 0, 1, 0, 0, 0, 0, 0] = None)"

text \<open>A restart: a new engine over the storage of the old one.\<close>

definition restarted :: "(mem_storage, demo_signer) ota_engine \<Rightarrow> (mem_storage, demo_signer) ota_engine"
where
  "restarted engine = ota_engine_new (oe_storage engine) (demo_signer_new 0xCAFE)"

definition power_loss_during_pending_promotes_on_recover :: "target \<Rightarrow> nat \<Rightarrow> unit outcome" where
  "power_loss_during_pending_promotes_on_recover t n =
     outcome_bind (staged_engine t n (replicate 16 0x12)) (\<lambda>engine.
     outcome_bind (ota_recover t (mem_ops t) (restarted engine)) (\<lambda>(r, engine2).
     outcome_bind (expect_ok r) (\<lambda>active.
     outcome_bind (assert_that (active = 1)) (\<lambda>_.
     outcome_bind (expect_ok (ota_state (mem_ops t) engine2)) (\<lambda>st.
     assert_that (case st of Testing a _ \<Rightarrow> a = 1 | _ \<Rightarrow> False))))))"

definition power_loss_during_testing_rolls_back :: "target \<Rightarrow> nat \<Rightarrow> unit outcome" where
  "power_loss_during_testing_rolls_back t n =
     outcome_bind (staged_engine t n (replicate 16 0x12)) (\<lambda>engine.
     outcome_bind (ota_promote t (mem_ops t) engine) (\<lambda>(r, engine).
     outcome_bind (expect_ok r) (\<lambda>_.
     outcome_bind (ota_recover t (mem_ops t) (restarted engine)) (\<lambda>(r, engine2).
     outcome_bind (expect_ok r) (\<lambda>active.
     outcome_bind (assert_that (active = 0)) (\<lambda>_.
     outcome_bind (expect_ok (ota_state (mem_ops t) engine2)) (\<lambda>st.
     assert_that (st = ActiveSlot0))))))))"

definition forced_rollback_returns_to_previous_slot :: "target \<Rightarrow> nat \<Rightarrow> unit outcome" where
  "forced_rollback_returns_to_previous_slot t n =
     outcome_bind (staged_engine t n (replicate 16 0x99)) (\<lambda>engine.
     outcome_bind (ota_promote t (mem_ops t) engine) (\<lambda>(r, engine).
     outcome_bind (expect_ok r) (\<lambda>_.
     outcome_bind (ota_rollback (mem_ops t) engine) (\<lambda>(r, engine).
     outcome_bind (expect_ok r) (\<lambda>rolled.
     outcome_bind (assert_that (rolled = 1)) (\<lambda>_.
     outcome_bind (expect_ok (ota_state (mem_ops t) engine)) (\<lambda>st.
     assert_that (st = ActiveSlot0))))))))"

definition update_manifest :: "u8 list" where
  "update_manifest =
     map (\<lambda>c. of_nat (of_char c)) ''tpt-chassis update manifest v2''"

definition ed25519_signer_round_trips_and_rejects_tamper ::
  "('d, 'k, 's, 'p, 'g, 'n, 'e) ed25519_compact \<Rightarrow> unit outcome" where
  "ed25519_signer_round_trips_and_rejects_tamper L =
     (let signer = ed25519_from_seed L (replicate 32 0x42); msg = update_manifest in
      outcome_bind (ed25519_sign L signer msg (replicate (OTA_SIGNATURE_LEN True) 0)) (\<lambda>sig.
      outcome_bind (assert_that (ed25519_verify L signer msg sig)) (\<lambda>_.
      outcome_bind (assert_that (OTA_SIGNATURE_LEN True = 64)) (\<lambda>_.
      outcome_bind (index_at sig 0) (\<lambda>b.
      outcome_bind (store_at sig 0 (b XOR 0xFF)) (\<lambda>tampered.
      assert_that (\<not> ed25519_verify L signer msg tampered)))))))"

definition ed25519_signer_can_drive_stage ::
  "target \<Rightarrow> ('d, 'k, 's, 'p, 'g, 'n, 'e) ed25519_compact \<Rightarrow> unit outcome" where
  "ed25519_signer_can_drive_stage t L =
     (let signer = ed25519_from_seed L (replicate 32 0x11);
          engine = ota_engine_new mem_storage_new signer; payload = replicate 16 0x5A in
      outcome_bind (ed25519_package L signer 1 payload) (\<lambda>(sig, pkg).
      outcome_bind (ota_stage (mem_ops t) (ed25519_scheme L) engine pkg payload sig) (\<lambda>(r, _).
      outcome_bind (expect_ok r) Ret)))"


section \<open>They pass\<close>

lemma staged_engine_runs:
  assumes "32 \<le> usize_bits t"
  obtains slots where "staged_engine t n (replicate 16 b) = Ret
    \<lparr>oe_storage = mem_storage_new\<lparr>ms_slots := slots, ms_state := Pending 1\<rparr>, oe_signer = demo_signer_new 0xCAFE\<rparr>"
proof -
  have len: "length (replicate 16 b) \<le> SLOT_CAP" by (simp add: SLOT_CAP_def)
  obtain sig slots where
    m: "make_package n (demo_signer_new 0xCAFE) 1 (replicate 16 b) = Ret (sig, \<lparr>up_slot = 1, up_payload_len = 16\<rparr>)"
    and st: "ota_stage (mem_ops t) (demo_scheme n) (ota_engine_new mem_storage_new (demo_signer_new 0xCAFE))
        \<lparr>up_slot = 1, up_payload_len = 16\<rparr> (replicate 16 b) sig =
      Ret (Inr (), \<lparr>oe_storage = mem_storage_new\<lparr>ms_slots := slots, ms_state := Pending 1\<rparr>,
        oe_signer = demo_signer_new 0xCAFE\<rparr>)"
    using demo_stage [OF len assms mem_new_ok, of n "demo_signer_new 0xCAFE"] by auto
  show thesis
    by (rule that [of slots]) (simp add: staged_engine_def m st Let_def)
qed

lemma ota_closed_tests_pass:
  "slot_state_round_trips t = Ret ()" "bad_magic_package_rejected = Ret ()"
  by (simp_all add: slot_state_round_trips_def u8_mul_def u8_add_def slot_state_decode_def
      bad_magic_package_rejected_def decode_package_header_def HEADER_LEN_def OTA_MAGIC_def)

lemma ota_engine_tests_pass:
  assumes "32 \<le> usize_bits t"
  shows "stage_then_promote_commit_activates_new_slot t n = Ret ()"
    "power_loss_during_pending_promotes_on_recover t n = Ret ()"
    "power_loss_during_testing_rolls_back t n = Ret ()"
    "forced_rollback_returns_to_previous_slot t n = Ret ()"
proof -
  note d = mem_journal_ops mem_commit mem_state mem_recover restarted_def ota_engine_new_def
  obtain slots where s: "staged_engine t n (replicate 16 0xAB) = Ret
    \<lparr>oe_storage = mem_storage_new\<lparr>ms_slots := slots, ms_state := Pending 1\<rparr>, oe_signer = demo_signer_new 0xCAFE\<rparr>"
    by (rule staged_engine_runs [OF assms])
  show "stage_then_promote_commit_activates_new_slot t n = Ret ()"
    by (simp add: stage_then_promote_commit_activates_new_slot_def s d)
  obtain slots where s: "staged_engine t n (replicate 16 0x12) = Ret
    \<lparr>oe_storage = mem_storage_new\<lparr>ms_slots := slots, ms_state := Pending 1\<rparr>, oe_signer = demo_signer_new 0xCAFE\<rparr>"
    by (rule staged_engine_runs [OF assms])
  show "power_loss_during_pending_promotes_on_recover t n = Ret ()"
    by (simp add: power_loss_during_pending_promotes_on_recover_def s d)
  show "power_loss_during_testing_rolls_back t n = Ret ()"
    by (simp add: power_loss_during_testing_rolls_back_def s d)
  obtain slots where s: "staged_engine t n (replicate 16 0x99) = Ret
    \<lparr>oe_storage = mem_storage_new\<lparr>ms_slots := slots, ms_state := Pending 1\<rparr>, oe_signer = demo_signer_new 0xCAFE\<rparr>"
    by (rule staged_engine_runs [OF assms])
  show "forced_rollback_returns_to_previous_slot t n = Ret ()"
    by (simp add: forced_rollback_returns_to_previous_slot_def s d mem_rollback)
qed

lemma corrupted_signature_test_passes: "corrupted_signature_is_rejected t (Suc m) = Ret ()"
proof -
  let ?v = "demo_signer_new 0xCAFE" and ?p = "\<lparr>up_slot = 1, up_payload_len = 16\<rparr>"
  obtain sig where "make_package (Suc m) ?v 1 (replicate 16 0xAB) = Ret (sig, ?p)"
    by (simp add: make_package_eq OTA_MAX_PAYLOAD_def Let_def)
  moreover have "ota_stage (mem_ops t) (demo_scheme (Suc m)) (ota_engine_new mem_storage_new ?v) ?p
      (replicate 16 0xAB) (0xFF # bad) = Ret (Inl BadSignature, ota_engine_new mem_storage_new ?v)" for bad
    using forged_rejected [of ?p "mem_ops t" mem_storage_new m bad]
    by (simp add: mem_ops_def mem_slot_capacity_def SLOT_CAP_def)
  ultimately show ?thesis
    by (simp add: corrupted_signature_is_rejected_def Let_def)
qed

lemma ota_tests_pass:
  assumes "32 \<le> usize_bits t"
  shows "all_of [slot_state_round_trips t,
     stage_then_promote_commit_activates_new_slot t (OTA_SIGNATURE_LEN crypto),
     corrupted_signature_is_rejected t (OTA_SIGNATURE_LEN crypto), bad_magic_package_rejected,
     power_loss_during_pending_promotes_on_recover t (OTA_SIGNATURE_LEN crypto),
     power_loss_during_testing_rolls_back t (OTA_SIGNATURE_LEN crypto),
     forced_rollback_returns_to_previous_slot t (OTA_SIGNATURE_LEN crypto)] = Ret ()"
proof -
  obtain m where n: "OTA_SIGNATURE_LEN crypto = Suc m"
    by (cases "OTA_SIGNATURE_LEN crypto") (auto simp: OTA_SIGNATURE_LEN_def split: if_splits)
  show ?thesis
    by (simp add: n ota_closed_tests_pass ota_engine_tests_pass [OF assms] corrupted_signature_test_passes)
qed

text \<open>The tests of the Ed25519 signer: the second passes over every library that keeps the contract;
  the first also asks that the library refuse the one signature it tampers with.\<close>

lemma ed25519_stage_test_passes:
  assumes "ed25519_contract L" "32 \<le> usize_bits t"
  shows "ed25519_signer_can_drive_stage t L = Ret ()"
proof -
  let ?v = "ed25519_from_seed L (replicate 32 0x11)"
  have v: "ed25519_seeded L ?v"
    unfolding ed25519_seeded_def by (rule exI [of _ "replicate 32 0x11"]) simp
  obtain sig pkg where p: "ed25519_package L ?v 1 (replicate 16 0x5A) = Ret (sig, pkg)" "up_slot pkg = 1"
    and ver: "stage_verified (mem_ops t) (ed25519_scheme L) \<lparr>oe_storage = mem_storage_new, oe_signer = ?v\<rparr> pkg
      (replicate 16 0x5A) sig"
    using ed25519_package_verified [OF assms(1) v, of "replicate 16 0x5A" "mem_ops t" mem_storage_new 1]
    by (auto simp: OTA_MAX_PAYLOAD_def mem_ops_def mem_slot_capacity_def SLOT_CAP_def)
  from mem_stage [OF ver mem_new_ok _ assms(2)] p show ?thesis
    by (auto simp: ed25519_signer_can_drive_stage_def ota_engine_new_def Let_def)
qed

lemma ed25519_round_trip_test_passes_iff:
  assumes "ed25519_contract L" "v = ed25519_from_seed L (replicate 32 0x42)"
    and "sig = ec_signature_as_ref L (ec_sign L (ec_sk L (es_keypair v)) update_manifest None)"
  shows "ed25519_signer_round_trips_and_rejects_tamper L = Ret () \<longleftrightarrow>
    \<not> ed25519_verify L v update_manifest (sig[0 := hd sig XOR 0xFF])"
proof -
  have v: "ed25519_seeded L v"
    unfolding ed25519_seeded_def assms(2) by (rule exI [of _ "replicate 32 0x42"]) simp
  note c = ed25519_contractD [OF assms(1) v refl, of update_manifest None]
  have s: "ed25519_sign L v update_manifest (replicate 64 0) = Ret sig"
    using ed25519_sign_eq [OF assms(1) v] assms(3) by simp
  have "sig \<noteq> []" "ed25519_verify L v update_manifest sig"
    using c assms(3) by (auto simp: ed25519_verify_def)
  then show ?thesis
    using s by (simp add: ed25519_signer_round_trips_and_rejects_tamper_def OTA_SIGNATURE_LEN_def Let_def
        assms(2) [symmetric] hd_conv_nth assert_that_def)
qed

lemma ed25519_round_trip_test_passes: "ed25519_signer_round_trips_and_rejects_tamper checksum_lib = Ret ()"
proof -
  have "c XOR 0xFF \<noteq> c" for c :: u8
  proof
    assume "c XOR 0xFF = c"
    then have "c XOR (c XOR 0xFF) = c XOR c" by simp
    then show False by (simp add: xor.assoc [symmetric] del: xor.left_commute)
  qed
  then have "(replicate 64 c)[0 := c XOR 0xFF] \<noteq> replicate 64 c" for c :: u8
    by (metis length_replicate nth_list_update_eq nth_replicate zero_less_numeral)
  then show ?thesis
    unfolding ed25519_round_trip_test_passes_iff [OF checksum_lib_contract refl refl]
    by (simp add: ed25519_verify_def checksum_lib_def checksum_sig_def ed25519_from_seed_def hd_replicate)
qed

end
