(* ===== verification/Conformance_Autonomy.thy ===== *)
theory Conformance_Autonomy
  imports Safety
begin

text \<open>
  The unit tests of \<open>core/src/autonomy.rs\<close> and \<open>safety.rs\<close>, run on the model as those of the buses in
  \<open>Conformance_Bus\<close>, on every target and in debug and release builds.
\<close>


section \<open>The lane keeper\<close>

text \<open>\<open>stack.ingest(..).unwrap()\<close> and \<open>stack.next_command(..).unwrap()\<close> on any stack.\<close>

definition ingest_unwrap :: "'a autonomy_stack \<Rightarrow> 'a \<Rightarrow> sensor_sample \<Rightarrow> 'a outcome" where
  "ingest_unwrap A s x = (let (r, s) = as_ingest A s x in outcome_bind (expect_ok r) (\<lambda>_. Ret s))"

definition command_unwrap :: "'a autonomy_stack \<Rightarrow> 'a \<Rightarrow> vehicle_state \<Rightarrow>
    (control_command option \<times> 'a) outcome" where
  "command_unwrap A s vs =
     outcome_bind (as_next_command A s vs) (\<lambda>(r, s).
     outcome_bind (expect_ok r) (\<lambda>c. Ret (c, s)))"

definition control_command_clamps_steering :: "unit outcome" where
  "control_command_clamps_steering =
     (let c = control_command_new 9999 50 0 0; d = control_command_new (- 9999) 200 0 0 in
      all_of [assert_that (steer_deci_deg c = MAX_STEER), assert_that (throttle_pct c = 50),
              assert_that (steer_deci_deg d = - MAX_STEER), assert_that (throttle_pct d = 100)])"

definition stack_commands_toward_lane_center :: "target \<Rightarrow> unit outcome" where
  "stack_commands_toward_lane_center t =
     outcome_bind (ingest_unwrap (lane_keeping t) (lane_keeping_new 10 1000)
       \<lparr>sample_kind = Camera, sample_timestamp = 100, sample_value = 20\<rparr>) (\<lambda>s.
     outcome_bind (assert_that (lk_has_control s)) (\<lambda>_.
     outcome_bind (command_unwrap (lane_keeping t) s \<lparr>speed_cmps = 500, vs_timestamp = 100\<rparr>) (\<lambda>(c, s).
     outcome_bind (expect_some c) (\<lambda>cmd.
     all_of [assert_that (steer_deci_deg cmd = 200), assert_that (throttle_pct cmd > 0)]))))"

definition stack_centers_when_on_lane :: "target \<Rightarrow> unit outcome" where
  "stack_centers_when_on_lane t =
     outcome_bind (ingest_unwrap (lane_keeping t) (lane_keeping_new 10 1000)
       \<lparr>sample_kind = Camera, sample_timestamp = 100, sample_value = 0\<rparr>) (\<lambda>s.
     outcome_bind (command_unwrap (lane_keeping t) s \<lparr>speed_cmps = 500, vs_timestamp = 100\<rparr>) (\<lambda>(c, s).
     outcome_bind (expect_some c) (\<lambda>cmd. assert_that (steer_deci_deg cmd = 0))))"

definition stack_not_ready_without_samples :: "target \<Rightarrow> unit outcome" where
  "stack_not_ready_without_samples t =
     (let s = lane_keeping_new 10 1000 in
      outcome_bind (assert_that (\<not> lk_has_control s)) (\<lambda>_.
      outcome_bind (command_unwrap (lane_keeping t) s \<lparr>speed_cmps = 0, vs_timestamp = 0\<rparr>) (\<lambda>(c, s).
      assert_that (c = None))))"

definition steering_does_not_exceed_bounds_at_large_offset :: "target \<Rightarrow> unit outcome" where
  "steering_does_not_exceed_bounds_at_large_offset t =
     outcome_bind (ingest_unwrap (lane_keeping t) (lane_keeping_new 10 1000)
       \<lparr>sample_kind = Lidar, sample_timestamp = 1, sample_value = 1000\<rparr>) (\<lambda>s.
     outcome_bind (command_unwrap (lane_keeping t) s \<lparr>speed_cmps = 0, vs_timestamp = 1\<rparr>) (\<lambda>(c, s).
     outcome_bind (expect_some c) (\<lambda>cmd. assert_that (steer_deci_deg cmd = MAX_STEER))))"


section \<open>The interlock and the ring\<close>

definition camera_sample :: "i32 \<Rightarrow> sensor_sample" where
  "camera_sample v = \<lparr>sample_kind = Camera, sample_timestamp = 1, sample_value = v\<rparr>"

definition disarmed_interlock_suppresses_commands :: "target \<Rightarrow> unit outcome" where
  "disarmed_interlock_suppresses_commands t =
     (let A = lane_keeping t in
      outcome_bind (ingest_unwrap A (lane_keeping_new 10 1000) (camera_sample 20)) (\<lambda>s.
      let i = interlock_new s in
      outcome_bind (assert_that (\<not> interlock_has_control A i)) (\<lambda>_.
      outcome_bind (command_unwrap (interlock_stack A) i \<lparr>speed_cmps = 0, vs_timestamp = 1\<rparr>) (\<lambda>(c, i).
      assert_that (c = None)))))"

definition armed_interlock_passes_commands :: "target \<Rightarrow> unit outcome" where
  "armed_interlock_passes_commands t =
     (let A = lane_keeping t in
      outcome_bind (ingest_unwrap A (lane_keeping_new 10 1000) (camera_sample 20)) (\<lambda>s.
      outcome_bind (interlock_arm (interlock_new s)) (\<lambda>i.
      outcome_bind (assert_that (interlock_has_control A i)) (\<lambda>_.
      outcome_bind (command_unwrap (interlock_stack A) i \<lparr>speed_cmps = 0, vs_timestamp = 1\<rparr>) (\<lambda>(c, i).
      outcome_bind (expect_some c) (\<lambda>cmd. assert_that (steer_deci_deg cmd = 200)))))))"

definition disarm_after_arm_cuts_authority :: "target \<Rightarrow> unit outcome" where
  "disarm_after_arm_cuts_authority t =
     (let A = lane_keeping t in
      outcome_bind (ingest_unwrap A (lane_keeping_new 10 1000) (camera_sample 5)) (\<lambda>s.
      outcome_bind (interlock_arm (interlock_new s)) (\<lambda>i.
      outcome_bind (assert_that (interlock_has_control A i)) (\<lambda>_.
      outcome_bind (interlock_disarm i) (\<lambda>i.
      outcome_bind (assert_that (\<not> interlock_has_control A i)) (\<lambda>_.
      outcome_bind (command_unwrap (interlock_stack A) i \<lparr>speed_cmps = 0, vs_timestamp = 1\<rparr>) (\<lambda>(c, i).
      assert_that (c = None))))))))"

definition run_stack_through_trait :: "'a autonomy_stack \<Rightarrow> 'a \<Rightarrow> 'a outcome" where
  "run_stack_through_trait A s =
     outcome_bind (ingest_unwrap A s (camera_sample 20)) (\<lambda>s.
     outcome_bind (command_unwrap A s \<lparr>speed_cmps = 0, vs_timestamp = 1\<rparr>) (\<lambda>(c, s).
     outcome_bind (assert_that (c \<noteq> None)) (\<lambda>_.
     outcome_bind (assert_that (as_has_control A s)) (\<lambda>_. Ret s))))"

definition interlock_through_trait_does_not_recurse :: "target \<Rightarrow> unit outcome" where
  "interlock_through_trait_does_not_recurse t =
     outcome_bind (interlock_arm (interlock_new (lane_keeping_new 10 1000))) (\<lambda>i.
     outcome_bind (run_stack_through_trait (interlock_stack (lane_keeping t)) i) (\<lambda>_. Ret ()))"

definition run_stack_disarmed :: "'a autonomy_stack \<Rightarrow> 'a \<Rightarrow> (bool \<times> 'a) outcome" where
  "run_stack_disarmed A s =
     outcome_bind (command_unwrap A s \<lparr>speed_cmps = 0, vs_timestamp = 1\<rparr>) (\<lambda>(c, s).
     Ret (\<not> as_has_control A s \<and> c = None, s))"

definition interlock_disarmed_through_trait_suppresses :: "target \<Rightarrow> unit outcome" where
  "interlock_disarmed_through_trait_suppresses t =
     (let A = interlock_stack (lane_keeping t) in
      outcome_bind (ingest_unwrap A (interlock_new (lane_keeping_new 10 1000)) (camera_sample 20)) (\<lambda>i.
      outcome_bind (run_stack_disarmed A i) (\<lambda>(suppressed, i). assert_that suppressed)))"

text \<open>The loops that copy what an iterator yields into an array.\<close>

fun copy_each :: "'a list \<Rightarrow> nat \<Rightarrow> 'a list \<Rightarrow> 'a list outcome" where
  "copy_each arr i [] = Ret arr"
| "copy_each arr i (x # xs) = outcome_bind (store_at arr i x) (\<lambda>arr. copy_each arr (i + 1) xs)"

definition interlock_logs_arm_disarm_events :: "unit outcome" where
  "interlock_logs_arm_disarm_events =
     outcome_bind (interlock_arm (interlock_new (lane_keeping_new 10 1000))) (\<lambda>i.
     outcome_bind (interlock_disarm i) (\<lambda>i.
     outcome_bind (interlock_arm i) (\<lambda>i.
     outcome_bind (copy_each (replicate 8 0) 0 (map tr_code (ring_iter (ilk_events i)))) (\<lambda>codes.
     outcome_bind (index_at codes 0) (\<lambda>c0.
     outcome_bind (index_at codes 1) (\<lambda>c1.
     outcome_bind (index_at codes 2) (\<lambda>c2.
     all_of [assert_that (c0 = TELEMETRY_ARM), assert_that (c1 = TELEMETRY_DISARM),
             assert_that (c2 = TELEMETRY_ARM)])))))))"

definition telemetry_ring_overwrites_oldest :: "unit outcome" where
  "telemetry_ring_overwrites_oldest =
     outcome_bind (ring_push_all (telemetry_ring_new 4)
       (map (\<lambda>i. \<lparr>tr_timestamp = i, tr_code = 1, tr_value = i\<rparr>) [0, 1, 2, 3, 4, 5])) (\<lambda>ring.
     outcome_bind (assert_that (ring_len ring = 4)) (\<lambda>_.
     outcome_bind (copy_each (replicate 4 0) 0 (map tr_value (ring_iter ring))) (\<lambda>values.
     assert_that (values = [2, 3, 4, 5]))))"


section \<open>They pass\<close>

lemma cruise_max: "max (1000 :: u32) 1 = 1000"
  by code_simp

lemma lk_command_small:
  assumes "lk_ready s" "lk_last_offset_cm s = Some v" "lk_gain s = 10" "lk_cruise_cmps s = 1000"
    "speed = 0 \<or> speed = 500"
  shows "command_unwrap (lane_keeping t) s \<lparr>speed_cmps = speed, vs_timestamp = ts\<rparr> =
    Ret (Some (control_command_new (clamp_steer (i16_saturating_mul (ucast v) 10))
      (if speed = 0 then 100 else 50) 0 (lk_last_timestamp s)), s)"
  using assms
  by (auto simp: command_unwrap_def lane_keeping_def lk_next_command_def lk_throttle_def u32_sub_def
      u32_mul_def Let_def cruise_max)

lemma camera_ingest:
  "ingest_unwrap (lane_keeping t) (lane_keeping_new 10 1000)
     \<lparr>sample_kind = k, sample_timestamp = ts, sample_value = v\<rparr> =
   Ret (if k = Camera \<or> k = Lidar
     then \<lparr>lk_last_offset_cm = Some v, lk_last_timestamp = ts, lk_ready = True, lk_gain = 10,
           lk_cruise_cmps = 1000\<rparr>
     else lane_keeping_new 10 1000)"
  by (simp add: ingest_unwrap_def lane_keeping_def lk_ingest_def lane_keeping_new_def)

lemma steer_values:
  "clamp_steer (i16_saturating_mul (ucast (20 :: i32)) 10) = 200"
  "clamp_steer (i16_saturating_mul (ucast (5 :: i32)) 10) = 50"
  "clamp_steer (i16_saturating_mul (ucast (1000 :: i32)) 10) = MAX_STEER"
  "clamp_steer 0 = 0" "clamp_steer 200 = 200" "clamp_steer MAX_STEER = MAX_STEER"
  "clamp_steer 10000 = MAX_STEER" "clamp_steer (i16_saturating_mul 20 10) = 200"
  by code_simp+

lemma command_test_passes: "control_command_clamps_steering = Ret ()"
  by code_simp

lemma lane_keeper_tests_pass:
  "stack_commands_toward_lane_center t = Ret ()" "stack_centers_when_on_lane t = Ret ()"
  "stack_not_ready_without_samples t = Ret ()"
  "steering_does_not_exceed_bounds_at_large_offset t = Ret ()"
  by (simp_all add: stack_commands_toward_lane_center_def stack_centers_when_on_lane_def
      steering_does_not_exceed_bounds_at_large_offset_def camera_ingest lk_command_small
      lk_has_control_def control_command_new_def steer_values i16_saturating_mul_def)
    (simp add: stack_not_ready_without_samples_def lane_keeping_new_def lk_has_control_def
      command_unwrap_def lane_keeping_def lk_next_command_def)

lemma autonomy_tests_pass:
  "all_of [control_command_clamps_steering, stack_commands_toward_lane_center t,
     stack_centers_when_on_lane t, stack_not_ready_without_samples t,
     steering_does_not_exceed_bounds_at_large_offset t] = Ret ()"
  by (simp add: command_test_passes lane_keeper_tests_pass)

lemma arm_disarm_ok:
  assumes "ring_ok 8 (ilk_events i)"
  shows "\<exists>ev. interlock_arm i = Ret (i\<lparr>ilk_state := Armed, ilk_events := ev\<rparr>) \<and> ring_ok 8 ev"
    "\<exists>ev. interlock_disarm i = Ret (i\<lparr>ilk_state := Disarmed, ilk_events := ev\<rparr>) \<and> ring_ok 8 ev"
  using ring_push_ok [OF assms, of "\<lparr>tr_timestamp = 0, tr_code = TELEMETRY_ARM, tr_value = 1\<rparr>"]
    ring_push_ok [OF assms, of "\<lparr>tr_timestamp = 0, tr_code = TELEMETRY_DISARM, tr_value = 1\<rparr>"]
  by (auto simp: interlock_arm_def interlock_disarm_def)

text \<open>The interlock over a lane keeper that has seen one camera sample.\<close>

lemma armed_lane_keeper:
  assumes "lk_ready s" "lk_last_offset_cm s = Some v" "lk_gain s = 10" "lk_cruise_cmps s = 1000"
  shows "command_unwrap (interlock_stack (lane_keeping t)) \<lparr>ilk_stack = s, ilk_state = st, ilk_events = ev\<rparr>
      \<lparr>speed_cmps = 0, vs_timestamp = ts\<rparr> =
    Ret (if st = Armed then Some (control_command_new (clamp_steer (i16_saturating_mul (ucast v) 10))
      100 0 (lk_last_timestamp s)) else None, \<lparr>ilk_stack = s, ilk_state = st, ilk_events = ev\<rparr>)"
    "interlock_has_control (lane_keeping t) \<lparr>ilk_stack = s, ilk_state = st, ilk_events = ev\<rparr> \<longleftrightarrow> st = Armed"
  using lk_command_small [OF assms, of 0 t ts] assms
  by (auto simp: command_unwrap_def interlock_stack_def interlock_next_command_def outcome_bind_assoc
      interlock_has_control_def lane_keeping_def lk_has_control_def outcome_inversions
      split: prod.splits sum.splits)

lemma interlock_tests_pass:
  "disarmed_interlock_suppresses_commands t = Ret ()" "armed_interlock_passes_commands t = Ret ()"
  "disarm_after_arm_cuts_authority t = Ret ()" "interlock_through_trait_does_not_recurse t = Ret ()"
  "interlock_disarmed_through_trait_suppresses t = Ret ()"
proof -
  have new: "ring_ok 8 (ilk_events (interlock_new s))" for s :: lane_keeping_stack
    by (simp add: interlock_new_def ring_new_ok)
  have arm: "\<exists>ev. interlock_arm (interlock_new s) =
      Ret \<lparr>ilk_stack = s, ilk_state = Armed, ilk_events = ev\<rparr> \<and> ring_ok 8 ev" for s :: lane_keeping_stack
    using arm_disarm_ok(1) [OF new, of s] by (simp add: interlock_new_def)
  note d = camera_sample_def camera_ingest armed_lane_keeper control_command_new_def steer_values Let_def
  show "disarmed_interlock_suppresses_commands t = Ret ()"
    by (simp add: disarmed_interlock_suppresses_commands_def d interlock_new_def)
  let ?s = "\<lambda>v. \<lparr>lk_last_offset_cm = Some v, lk_last_timestamp = 1, lk_ready = True, lk_gain = 10,
    lk_cruise_cmps = 1000\<rparr>"
  obtain ev where "interlock_arm (interlock_new (?s 20)) =
      Ret \<lparr>ilk_stack = ?s 20, ilk_state = Armed, ilk_events = ev\<rparr>" using arm by blast
  then show "armed_interlock_passes_commands t = Ret ()"
    by (simp add: armed_interlock_passes_commands_def d)
  obtain ev ev' where "interlock_arm (interlock_new (?s 5)) =
      Ret \<lparr>ilk_stack = ?s 5, ilk_state = Armed, ilk_events = ev\<rparr>"
    "interlock_disarm \<lparr>ilk_stack = ?s 5, ilk_state = Armed, ilk_events = ev\<rparr> =
      Ret \<lparr>ilk_stack = ?s 5, ilk_state = Disarmed, ilk_events = ev'\<rparr>"
    using arm [of "?s 5"] arm_disarm_ok(2) [of "\<lparr>ilk_stack = ?s 5, ilk_state = Armed, ilk_events = _\<rparr>"]
    by fastforce
  then show "disarm_after_arm_cuts_authority t = Ret ()"
    by (simp add: disarm_after_arm_cuts_authority_def d)
  have ing: "ingest_unwrap (interlock_stack (lane_keeping t))
      \<lparr>ilk_stack = lane_keeping_new 10 1000, ilk_state = st, ilk_events = ev\<rparr> (camera_sample 20) =
    Ret \<lparr>ilk_stack = ?s 20, ilk_state = st, ilk_events = ev\<rparr>" for st ev
    using camera_ingest [of t Camera 1 20]
    by (auto simp: camera_sample_def ingest_unwrap_def interlock_stack_def interlock_ingest_def
        outcome_inversions split: prod.splits)
  obtain ev where "interlock_arm (interlock_new (lane_keeping_new 10 1000)) =
      Ret \<lparr>ilk_stack = lane_keeping_new 10 1000, ilk_state = Armed, ilk_events = ev\<rparr>" using arm by blast
  then show "interlock_through_trait_does_not_recurse t = Ret ()"
    by (simp add: interlock_through_trait_does_not_recurse_def run_stack_through_trait_def ing
        armed_lane_keeper)
      (simp add: interlock_stack_def armed_lane_keeper)
  show "interlock_disarmed_through_trait_suppresses t = Ret ()"
    by (simp add: interlock_disarmed_through_trait_suppresses_def run_stack_disarmed_def
        interlock_new_def ing armed_lane_keeper)
      (simp add: interlock_stack_def armed_lane_keeper)
qed

lemma ring_tests_pass:
  "interlock_logs_arm_disarm_events = Ret ()" "telemetry_ring_overwrites_oldest = Ret ()"
  by code_simp+

lemma safety_tests_pass:
  "all_of [disarmed_interlock_suppresses_commands t, armed_interlock_passes_commands t,
     disarm_after_arm_cuts_authority t, interlock_through_trait_does_not_recurse t,
     interlock_disarmed_through_trait_suppresses t, interlock_logs_arm_disarm_events,
     telemetry_ring_overwrites_oldest] = Ret ()"
  by (simp add: interlock_tests_pass ring_tests_pass)

end
