(* ===== verification/Conformance_Sim.thy ===== *)
theory Conformance_Sim
  imports Can_Link Sim_Lin Sim_Someip Flight_Control
begin

text \<open>
  The unit tests of \<open>sim/src/can.rs\<close>, \<open>lin.rs\<close>, \<open>someip.rs\<close> and of \<open>flight-control/src/lib.rs\<close>, run on
  the model as those of the buses in \<open>Conformance_Bus\<close>. The nodes of a test share one network; a bus
  over a node is a step of that network.
\<close>


section \<open>The simulated CAN network\<close>

definition make_frame :: "u32 \<Rightarrow> bool \<Rightarrow> u8 list \<Rightarrow> can_frame outcome" where
  "make_frame i extended data =
     outcome_bind (expect_some (if extended then can_id_extended i else can_id_standard i)) (\<lambda>cid.
     outcome_bind (can_frame_new cid data) expect_some)"

text \<open>A network with \<open>k\<close> nodes.\<close>

fun can_nodes :: "nat \<Rightarrow> sim_can_network" where
  "can_nodes 0 = sim_can_network_new"
| "can_nodes (Suc k) = snd (sim_can_attach (can_nodes k))"

definition transmit_unwrap :: "sim_can_network \<Rightarrow> nat \<Rightarrow> can_frame \<Rightarrow> sim_can_network outcome" where
  "transmit_unwrap n i f =
     (let (r, n) = node_transmit n i f in outcome_bind (expect_ok r) (\<lambda>_. Ret n))"

definition node_can_transmit :: "sim_can_network \<Rightarrow> nat \<Rightarrow> bool" where
  "node_can_transmit n i = can_bus_can_transmit sim_can_node_ops (node_bus n i)"

definition frames_broadcast_to_other_nodes :: "unit outcome" where
  "frames_broadcast_to_other_nodes =
     outcome_bind (make_frame 0x123 False [0xDE, 0xAD]) (\<lambda>frame.
     outcome_bind (transmit_unwrap (can_nodes 3) 0 frame) (\<lambda>n.
     outcome_bind (assert_that (node_can_receive n 1)) (\<lambda>_.
     outcome_bind (assert_that (node_can_receive n 2)) (\<lambda>_.
     outcome_bind (take_frame n 1) (\<lambda>(from_b, n).
     outcome_bind (can_frame_data from_b) (\<lambda>data.
     outcome_bind (assert_that (data = [0xDE, 0xAD])) (\<lambda>_.
     outcome_bind (assert_that (can_id_raw (can_frame_id from_b) = 0x123)) (\<lambda>_.
     outcome_bind (take_frame n 2) (\<lambda>(from_c, n).
     outcome_bind (can_frame_data from_c) (\<lambda>data. assert_that (data = [0xDE, 0xAD])))))))))))"

definition sender_does_not_receive_own_frame :: "unit outcome" where
  "sender_does_not_receive_own_frame =
     outcome_bind (make_frame 0x1 False [1]) (\<lambda>frame.
     outcome_bind (transmit_unwrap (can_nodes 1) 0 frame) (\<lambda>n.
     all_of [assert_that (\<not> node_can_receive n 0),
             assert_that (fst (node_receive n 0) = Inl RxQueueEmpty)]))"

definition empty_receive_queue_errors :: "unit outcome" where
  "empty_receive_queue_errors = assert_that (fst (node_receive (can_nodes 1) 0) = Inl RxQueueEmpty)"

definition bus_off_rejects_transmit :: "unit outcome" where
  "bus_off_rejects_transmit =
     (let n = sim_can_set_bus_off True (can_nodes 2) in
      outcome_bind (assert_that (\<not> node_can_transmit n 0)) (\<lambda>_.
      outcome_bind (make_frame 0x2 False [9]) (\<lambda>frame.
      let (r, n) = node_transmit n 0 frame in
      all_of [assert_that (r = Inl BusOff), assert_that (\<not> node_can_receive n 1)])))"

definition extended_id_frame_round_trips :: "unit outcome" where
  "extended_id_frame_round_trips =
     outcome_bind (make_frame 0x18DAF100 True (replicate CAN_MAX_DLC 0xAA)) (\<lambda>frame.
     outcome_bind (transmit_unwrap (can_nodes 2) 0 frame) (\<lambda>n.
     outcome_bind (take_frame n 1) (\<lambda>(got, n).
     outcome_bind (can_frame_data got) (\<lambda>data.
     all_of [assert_that (can_id_is_extended (can_frame_id got)),
             assert_that (can_id_raw (can_frame_id got) = 0x18DAF100),
             assert_that (length data = CAN_MAX_DLC)]))))"

text \<open>The two loops of the overflow test: sending, and reading while there is something to read. The
  second gets fuel; running out of it counts as a failure of the test.\<close>

fun send_numbered :: "nat list \<Rightarrow> sim_can_network \<Rightarrow> sim_can_network outcome" where
  "send_numbered [] n = Ret n"
| "send_numbered (i # is) n =
     outcome_bind (make_frame 0x10 False [of_nat (i AND 0xFF)]) (\<lambda>frame.
     outcome_bind (transmit_unwrap n 0 frame) (send_numbered is))"

fun count_frames :: "nat \<Rightarrow> sim_can_network \<Rightarrow> nat \<Rightarrow> nat \<Rightarrow> nat outcome" where
  "count_frames 0 n i count = Panic"
| "count_frames (Suc fuel) n i count =
     (if node_can_receive n i
      then outcome_bind (take_frame n i) (\<lambda>(_, n). count_frames fuel n i (count + 1))
      else Ret count)"

definition rx_queue_overflow_drops_silently :: "unit outcome" where
  "rx_queue_overflow_drops_silently =
     outcome_bind (send_numbered [0..<SIM_RX_QUEUE_LEN + 4] (can_nodes 2)) (\<lambda>n.
     outcome_bind (count_frames (SIM_RX_QUEUE_LEN + 5) n 1 0) (\<lambda>count.
     assert_that (count = SIM_RX_QUEUE_LEN)))"

lemma sim_can_tests_pass:
  "all_of [frames_broadcast_to_other_nodes, sender_does_not_receive_own_frame,
     empty_receive_queue_errors, bus_off_rejects_transmit, extended_id_frame_round_trips,
     rx_queue_overflow_drops_silently] = Ret ()"
  by code_simp


section \<open>The simulated LIN cluster\<close>

definition lin_node_bus :: "sim_lin_cluster \<Rightarrow> nat \<Rightarrow> bool \<Rightarrow> sim_lin_node lin_bus" where
  "lin_node_bus n i is_master = lin_bus_new \<lparr>ln_network = n, ln_index = i, ln_is_master = is_master\<rparr>"

definition lin_node_transmit ::
  "sim_lin_cluster \<Rightarrow> nat \<Rightarrow> lin_frame \<Rightarrow> (bus_error + unit) \<times> sim_lin_cluster" where
  "lin_node_transmit n i f =
     (let (r, b) = lin_bus_transmit sim_lin_node_ops (lin_node_bus n i (i = 0)) f in
      (r, ln_network (lb_transceiver b)))"

definition lin_node_receive ::
  "sim_lin_cluster \<Rightarrow> nat \<Rightarrow> (bus_error + lin_frame) \<times> sim_lin_cluster" where
  "lin_node_receive n i =
     (let (r, b) = lin_bus_receive sim_lin_node_ops (lin_node_bus n i (i = 0)) in
      (r, ln_network (lb_transceiver b)))"

definition lin_node_can_receive :: "sim_lin_cluster \<Rightarrow> nat \<Rightarrow> bool" where
  "lin_node_can_receive n i = lin_bus_can_receive sim_lin_node_ops (lin_node_bus n i (i = 0))"

text \<open>A master, node 0, and a slave, node 1.\<close>

definition lin_pair :: sim_lin_cluster where
  "lin_pair = snd (sim_lin_attach False (snd (sim_lin_attach True sim_lin_cluster_new)))"

definition test_lin_frame :: "u8 \<Rightarrow> u8 list \<Rightarrow> lin_frame outcome" where
  "test_lin_frame i data =
     outcome_bind (expect_some (lin_id_new i)) (\<lambda>l. outcome_bind (lin_frame_new l data) expect_some)"

definition master_and_slave_receive_broadcast :: "target \<Rightarrow> unit outcome" where
  "master_and_slave_receive_broadcast t =
     outcome_bind (assert_that (lin_bus_is_master sim_lin_node_ops (lin_node_bus lin_pair 0 True))) (\<lambda>_.
     outcome_bind (assert_that (\<not> lin_bus_is_master sim_lin_node_ops (lin_node_bus lin_pair 1 False))) (\<lambda>_.
     outcome_bind (test_lin_frame 0x10 [1, 2, 3]) (\<lambda>frame.
     let (r, n) = lin_node_transmit lin_pair 0 frame in
     outcome_bind (expect_ok r) (\<lambda>_.
     outcome_bind (assert_that (lin_node_can_receive n 1)) (\<lambda>_.
     let (r, n) = lin_node_receive n 1 in
     outcome_bind (expect_ok r) (\<lambda>got.
     outcome_bind (lin_frame_data got) (\<lambda>data.
     outcome_bind (all_of [assert_that (lin_id_raw (lin_frame_id got) = 0x10),
       assert_that (data = [1, 2, 3])]) (\<lambda>_.
     outcome_bind (lin_frame_checksum t got) (\<lambda>c.
     outcome_bind (test_lin_frame 0x10 [1, 2, 3]) (\<lambda>again.
     outcome_bind (lin_frame_checksum t again) (\<lambda>c'. assert_that (c = c'))))))))))))"

definition sender_does_not_see_own_frame :: "unit outcome" where
  "sender_does_not_see_own_frame =
     outcome_bind (test_lin_frame 0x01 [9]) (\<lambda>frame.
     let (r, n) = lin_node_transmit (snd (sim_lin_attach True sim_lin_cluster_new)) 0 frame in
     outcome_bind (expect_ok r) (\<lambda>_. assert_that (\<not> lin_node_can_receive n 0)))"

definition bus_off_stops_traffic :: "unit outcome" where
  "bus_off_stops_traffic =
     outcome_bind (test_lin_frame 0x02 [0]) (\<lambda>frame.
     let (r, n) = lin_node_transmit (sim_lin_set_bus_off True lin_pair) 0 frame in
     all_of [assert_that (r = Inl BusOff), assert_that (\<not> lin_node_can_receive n 1)])"

lemma master_slave_test_passes: "master_and_slave_receive_broadcast t = Ret ()"
proof -
  let ?f = "\<lparr>lf_id = LinId 0x10, lf_data = [1, 2, 3, 0, 0, 0, 0, 0], lf_len = 3\<rparr> :: lin_frame"
  let ?n = "\<lambda>q. \<lparr>slc_nodes = [(True, []), (False, q)], slc_bus_off = False\<rparr>"
  have "test_lin_frame 0x10 [1, 2, 3] = Ret ?f" by code_simp
  moreover have "lin_node_transmit lin_pair 0 ?f = (Inr (), ?n [?f])" by code_simp
  moreover have "lin_node_receive (?n [?f]) 1 = (Inr ?f, ?n [])" "lin_node_can_receive (?n [?f]) 1"
    by code_simp+
  moreover have "lin_bus_is_master sim_lin_node_ops (lin_node_bus lin_pair 0 True)"
    "\<not> lin_bus_is_master sim_lin_node_ops (lin_node_bus lin_pair 1 False)" by code_simp+
  moreover have "lin_frame_data ?f = Ret [1, 2, 3]" by code_simp
  moreover obtain c where "lin_frame_checksum t ?f = Ret c"
    by (simp add: lin_frame_checksum_def lin_frame_data_def u16_add_def)
  ultimately show ?thesis
    by (simp add: master_and_slave_receive_broadcast_def lin_frame_id_def del: One_nat_def)
qed

lemma lin_sender_tests_pass: "sender_does_not_see_own_frame = Ret ()" "bus_off_stops_traffic = Ret ()"
  by code_simp+

lemma sim_lin_tests_pass:
  "all_of [master_and_slave_receive_broadcast t, sender_does_not_see_own_frame,
     bus_off_stops_traffic] = Ret ()"
  by (simp add: master_slave_test_passes lin_sender_tests_pass)


section \<open>The simulated SOME/IP network\<close>

definition someip_node_bus :: "sim_someip_network \<Rightarrow> nat \<Rightarrow> sim_someip_node someip_bus" where
  "someip_node_bus n i = someip_bus_new \<lparr>sn_network = n, sn_index = i\<rparr>"

definition someip_node_transmit ::
  "sim_someip_network \<Rightarrow> nat \<Rightarrow> someip_message \<Rightarrow> (bus_error + unit) \<times> sim_someip_network" where
  "someip_node_transmit n i m =
     (let (r, b) = someip_bus_transmit sim_someip_node_ops (someip_node_bus n i) m in
      (r, sn_network (sb_transceiver b)))"

definition someip_node_receive ::
  "sim_someip_network \<Rightarrow> nat \<Rightarrow> (bus_error + someip_message) \<times> sim_someip_network" where
  "someip_node_receive n i =
     (let (r, b) = someip_bus_receive sim_someip_node_ops (someip_node_bus n i) in
      (r, sn_network (sb_transceiver b)))"

definition someip_node_can_receive :: "sim_someip_network \<Rightarrow> nat \<Rightarrow> bool" where
  "someip_node_can_receive n i = someip_bus_can_receive sim_someip_node_ops (someip_node_bus n i)"

fun someip_nodes :: "nat \<Rightarrow> sim_someip_network" where
  "someip_nodes 0 = sim_someip_network_new"
| "someip_nodes (Suc k) = snd (sim_someip_attach (someip_nodes k))"

definition test_someip_message :: "u16 \<Rightarrow> u16 \<Rightarrow> u8 list \<Rightarrow> someip_message outcome" where
  "test_someip_message service meth payload =
     (let header = \<lparr>sh_message_id = \<lparr>mid_service = service, mid_method = meth\<rparr>,
          sh_request_id = \<lparr>rid_client = 1, rid_session = 1\<rparr>, sh_interface_version = 1,
          sh_message_type = Request, sh_return_code = E_Ok\<rparr> in
      outcome_bind (someip_message_new header payload) expect_some)"

definition message_broadcasts_to_other_nodes :: "unit outcome" where
  "message_broadcasts_to_other_nodes =
     outcome_bind (test_someip_message 0x1111 0x01 [0x42]) (\<lambda>m.
     let (r, n) = someip_node_transmit (someip_nodes 2) 0 m in
     outcome_bind (expect_ok r) (\<lambda>_.
     outcome_bind (assert_that (someip_node_can_receive n 1)) (\<lambda>_.
     let (r, n) = someip_node_receive n 1 in
     outcome_bind (expect_ok r) (\<lambda>got.
     outcome_bind (someip_payload got) (\<lambda>payload.
     all_of [assert_that (mid_service (sh_message_id (sm_header got)) = 0x1111),
             assert_that (payload = [0x42])])))))"

definition sender_excluded :: "unit outcome" where
  "sender_excluded =
     outcome_bind (test_someip_message 0x2222 0x01 []) (\<lambda>m.
     let (r, n) = someip_node_transmit (someip_nodes 1) 0 m in
     outcome_bind (expect_ok r) (\<lambda>_. assert_that (\<not> someip_node_can_receive n 0)))"

definition link_down_rejects_send :: "unit outcome" where
  "link_down_rejects_send =
     outcome_bind (test_someip_message 0x3333 0x01 [1]) (\<lambda>m.
     let (r, n) = someip_node_transmit (sim_someip_set_link_down True (someip_nodes 2)) 0 m in
     all_of [assert_that (r = Inl BusOff), assert_that (\<not> someip_node_can_receive n 1)])"

text \<open>What the networks of these tests look like, so that the tests reduce by rewriting.\<close>

lemma someip_small_nodes:
  "someip_nodes 1 = \<lparr>ssn_nodes = [[]], ssn_down = False\<rparr>"
  "someip_nodes 2 = \<lparr>ssn_nodes = [[], []], ssn_down = False\<rparr>"
  by (simp_all add: sim_someip_attach_def sim_someip_network_new_def numeral_2_eq_2)

lemmas someip_test_defs =
  someip_node_transmit_def someip_node_receive_def someip_node_can_receive_def someip_node_bus_def
  someip_bus_new_def someip_bus_transmit_def someip_bus_receive_def someip_bus_can_receive_def
  someip_validate_message_def sim_someip_defs sim_someip_set_link_down_def broadcast_queues_def

lemma sim_someip_tests_pass:
  "all_of [message_broadcasts_to_other_nodes, sender_excluded, link_down_rejects_send] = Ret ()"
  by (simp add: message_broadcasts_to_other_nodes_def sender_excluded_def link_down_rejects_send_def
      test_someip_message_def someip_message_new_def SOMEIP_MAX_PAYLOAD_def someip_payload_def
      someip_small_nodes someip_test_defs SIM_SOMEIP_RX_QUEUE_LEN_def Let_def take_Cons' del: One_nat_def)


section \<open>The flight-control bridge\<close>

text \<open>\<open>from_le_bytes\<close> of a range of the wire.\<close>

definition le16_at :: "u8 list \<Rightarrow> nat \<Rightarrow> u16 outcome" where
  "le16_at wire i =
     outcome_bind (index_at wire i) (\<lambda>a. outcome_bind (index_at wire (i + 1)) (\<lambda>b. Ret (from_be16 b a)))"

definition le32_at :: "u8 list \<Rightarrow> nat \<Rightarrow> u32 outcome" where
  "le32_at wire i =
     outcome_bind (index_at wire i) (\<lambda>a. outcome_bind (index_at wire (i + 1)) (\<lambda>b.
     outcome_bind (index_at wire (i + 2)) (\<lambda>c. outcome_bind (index_at wire (i + 3)) (\<lambda>d.
     Ret (from_be32 d c b a)))))"

definition encode_round_trips_layout :: "unit outcome" where
  "encode_round_trips_layout =
     (let frame = telemetry_from_state 1234 5600 (- 45) Armed 0xA001 in
      outcome_bind (encode_telemetry_frame frame (replicate MAX_FRAME_BYTES 0)) (\<lambda>(wire, buf).
      outcome_bind (slice_to wire 3) (\<lambda>magic.
      all_of [assert_that (magic = [0x54, 0x50, 0x54]),
              outcome_bind (index_at wire 3) (\<lambda>b. assert_that (b = 0x01)),
              outcome_bind (le16_at wire 4) (\<lambda>v. assert_that (v = 13)),
              assert_that (length wire = 6 + 13),
              outcome_bind (le32_at wire 6) (\<lambda>v. assert_that (v = 1234)),
              outcome_bind (le32_at wire 10) (\<lambda>v. assert_that (v = 5600)),
              outcome_bind (le16_at wire 14) (\<lambda>v. assert_that (v = - 45)),
              outcome_bind (index_at wire 16) (\<lambda>b. assert_that (b = 1)),
              outcome_bind (le16_at wire 17) (\<lambda>v. assert_that (v = 0xA001))])))"

definition bridge_publishes_well_formed_payload :: "unit outcome" where
  "bridge_publishes_well_formed_payload =
     (let bridge = flight_control_bridge_new beam_sink_new;
          frame = telemetry_from_state 9 100 7 Disarmed 0 in
      outcome_bind (bridge_publish \<lparr>bt_send = beam_sink_send\<rparr> bridge frame) (\<lambda>(r, bridge).
      assert_that (r = Inr ())))"

lemma flight_control_tests_pass:
  "all_of [encode_round_trips_layout, bridge_publishes_well_formed_payload] = Ret ()"
  by code_simp

end
