(* ===== verification/Integration_Tests.thy ===== *)
theory Integration_Tests
  imports Conformance_Sim Conformance_Autonomy Diagnostics Agl_Can Ota_Reliable
begin

text \<open>
  The integration tests \<open>sim/tests/integration.rs\<close>, \<open>uds_can.rs\<close>, \<open>autonomy_can.rs\<close>, \<open>zephyr/tests/validate.rs\<close>
  and \<open>agl/tests/validate.rs\<close>, run on the model as the unit tests are. The two update tests of the
  Zephyr and AGL crates share their steps over two storages; these are written once here, over any storage.
\<close>


section \<open>Three buses, one interface\<close>

definition diag_frame :: "can_frame outcome" where
  "diag_frame =
     outcome_bind (expect_some (can_id_standard 0x7DF)) (\<lambda>cid.
     outcome_bind (can_frame_new cid [0x02, 0x01, 0x0C]) expect_some)"

definition all_three_buses_share_one_api :: "unit outcome" where
  "all_three_buses_share_one_api =
     (let header = \<lparr>sh_message_id = \<lparr>mid_service = 0x4500, mid_method = 0x0003\<rparr>,
          sh_request_id = \<lparr>rid_client = 0x00A1, rid_session = 0x0007\<rparr>, sh_interface_version = 1,
          sh_message_type = Request, sh_return_code = E_Ok\<rparr> in
      outcome_bind diag_frame (\<lambda>can_frame.
      outcome_bind (transmit_unwrap (can_nodes 2) 0 can_frame) (\<lambda>can_net.
      outcome_bind (assert_that (node_can_receive can_net 1)) (\<lambda>_.
      outcome_bind (take_frame can_net 1) (\<lambda>(got_can, can_net).
      outcome_bind (can_frame_data got_can) (\<lambda>data.
      outcome_bind (assert_that (data = [0x02, 0x01, 0x0C])) (\<lambda>_.
      outcome_bind (outcome_bind (someip_message_new header [0x11, 0x22, 0x33, 0x44]) expect_some) (\<lambda>someip_msg.
      let (r, eth) = someip_node_transmit (someip_nodes 2) 0 someip_msg in
      outcome_bind (expect_ok r) (\<lambda>_.
      outcome_bind (assert_that (someip_node_can_receive eth 1)) (\<lambda>_.
      let (r, eth) = someip_node_receive eth 1 in
      outcome_bind (expect_ok r) (\<lambda>got_eth.
      outcome_bind (someip_payload got_eth) (\<lambda>payload.
      outcome_bind (assert_that (payload = [0x11, 0x22, 0x33, 0x44])) (\<lambda>_.
      outcome_bind (assert_that (mid_service (sh_message_id (sm_header got_eth)) = 0x4500)) (\<lambda>_.
      outcome_bind (test_lin_frame 0x2A [0xAA, 0xBB]) (\<lambda>lin_frame.
      let (r, lin) = lin_node_transmit lin_pair 0 lin_frame in
      outcome_bind (expect_ok r) (\<lambda>_.
      outcome_bind (assert_that (lin_node_can_receive lin 1)) (\<lambda>_.
      let (r, lin) = lin_node_receive lin 1 in
      outcome_bind (expect_ok r) (\<lambda>got_lin.
      outcome_bind (assert_that (lin_id_raw (lin_frame_id got_lin) = 0x2A)) (\<lambda>_.
      outcome_bind (lin_frame_data got_lin) (\<lambda>data. assert_that (data = [0xAA, 0xBB])))))))))))))))))))))"

definition unified_loopback_free_property_holds_on_all_buses :: "unit outcome" where
  "unified_loopback_free_property_holds_on_all_buses =
     outcome_bind (make_frame 0x1 False [1]) (\<lambda>frame.
     outcome_bind (transmit_unwrap (can_nodes 1) 0 frame) (\<lambda>can_net.
     outcome_bind (assert_that (\<not> node_can_receive can_net 0)) (\<lambda>_.
     outcome_bind (test_someip_message 1 1 [1]) (\<lambda>m.
     let (r, eth) = someip_node_transmit (someip_nodes 1) 0 m in
     outcome_bind (expect_ok r) (\<lambda>_.
     outcome_bind (assert_that (\<not> someip_node_can_receive eth 0)) (\<lambda>_.
     outcome_bind (test_lin_frame 0x05 [1]) (\<lambda>frame.
     let (r, lin) = lin_node_transmit (snd (sim_lin_attach True sim_lin_cluster_new)) 0 frame in
     outcome_bind (expect_ok r) (\<lambda>_. assert_that (\<not> lin_node_can_receive lin 0)))))))))"

lemma can_part:
  "\<exists>f n1 n2. diag_frame = Ret f \<and> transmit_unwrap (can_nodes 2) 0 f = Ret n1 \<and> node_can_receive n1 1 \<and>
     take_frame n1 1 = Ret (f, n2) \<and> can_frame_data f = Ret [0x02, 0x01, 0x0C]"
proof -
  let ?f = "\<lparr>cf_id = \<lparr>cid_raw = 0x7DF, cid_extended = False\<rparr>, cf_data = [0x02, 0x01, 0x0C, 0, 0, 0, 0, 0], cf_len = 3\<rparr>"
  show ?thesis
    by (intro exI [of _ ?f] exI [of _ "\<lparr>scn_nodes = [[], [?f]], scn_bus_off = False\<rparr>"] exI [of _ "\<lparr>scn_nodes = [[], []], scn_bus_off = False\<rparr>"])
      code_simp
qed

lemma lin_part:
  "\<exists>f n1 n2. test_lin_frame 0x2A [0xAA, 0xBB] = Ret f \<and> lin_node_transmit lin_pair 0 f = (Inr (), n1) \<and>
     lin_node_can_receive n1 1 \<and> lin_node_receive n1 1 = (Inr f, n2) \<and>
     lin_id_raw (lin_frame_id f) = 0x2A \<and> lin_frame_data f = Ret [0xAA, 0xBB]"
proof -
  let ?f = "\<lparr>lf_id = LinId 0x2A, lf_data = [0xAA, 0xBB, 0, 0, 0, 0, 0, 0], lf_len = 2\<rparr> :: lin_frame"
  let ?n = "\<lambda>q. \<lparr>slc_nodes = [(True, []), (False, q)], slc_bus_off = False\<rparr>"
  show ?thesis
    by (intro exI [of _ ?f] exI [of _ "?n [?f]"] exI [of _ "?n []"]) code_simp
qed

lemma bus_tests_pass:
  "all_three_buses_share_one_api = Ret ()" "unified_loopback_free_property_holds_on_all_buses = Ret ()"
proof -
  obtain f n1 n2 where c: "diag_frame = Ret f" "transmit_unwrap (can_nodes 2) 0 f = Ret n1" "node_can_receive n1 1"
    "take_frame n1 1 = Ret (f, n2)" "can_frame_data f = Ret [0x02, 0x01, 0x0C]"
    using can_part by blast
  obtain g l1 l2 where l: "test_lin_frame 0x2A [0xAA, 0xBB] = Ret g" "lin_node_transmit lin_pair 0 g = (Inr (), l1)"
    "lin_node_can_receive l1 1" "lin_node_receive l1 1 = (Inr g, l2)" "lin_id_raw (lin_frame_id g) = 0x2A"
    "lin_frame_data g = Ret [0xAA, 0xBB]"
    using lin_part by blast
  show "all_three_buses_share_one_api = Ret ()"
    by (simp add: all_three_buses_share_one_api_def c l someip_message_new_def SOMEIP_MAX_PAYLOAD_def
        someip_payload_def someip_small_nodes someip_test_defs SIM_SOMEIP_RX_QUEUE_LEN_def Let_def take_Cons'
        del: One_nat_def)
  have "\<exists>h. test_lin_frame 0x05 [1] = Ret h \<and>
      (\<exists>n. lin_node_transmit (snd (sim_lin_attach True sim_lin_cluster_new)) 0 h = (Inr (), n) \<and>
        \<not> lin_node_can_receive n 0)"
    by (intro exI [of _ "\<lparr>lf_id = LinId 0x05, lf_data = [1, 0, 0, 0, 0, 0, 0, 0], lf_len = 1\<rparr> :: lin_frame"]
        exI [of _ "\<lparr>slc_nodes = [(True, [])], slc_bus_off = False\<rparr>"] conjI) code_simp+
  moreover have "\<exists>h. make_frame 0x1 False [1] = Ret h \<and> (\<exists>n. transmit_unwrap (can_nodes 1) 0 h = Ret n \<and> \<not> node_can_receive n 0)"
    by (intro exI [of _ "\<lparr>cf_id = \<lparr>cid_raw = 1, cid_extended = False\<rparr>, cf_data = [1, 0, 0, 0, 0, 0, 0, 0], cf_len = 1\<rparr>"]
        exI [of _ "\<lparr>scn_nodes = [[]], scn_bus_off = False\<rparr>"] conjI) code_simp+
  ultimately show "unified_loopback_free_property_holds_on_all_buses = Ret ()"
    by (auto simp: unified_loopback_free_property_holds_on_all_buses_def test_someip_message_def
        someip_message_new_def SOMEIP_MAX_PAYLOAD_def someip_small_nodes someip_test_defs Let_def take_Cons'
        simp del: One_nat_def)
qed


section \<open>Diagnostics over CAN\<close>

record calibration =
  cal_values :: "u8 list"

definition calibration_read_len :: "calibration \<Rightarrow> u16 \<Rightarrow> nat option" where
  "calibration_read_len d did = (if did = 0x1234 then Some 4 else None)"

definition calibration_read :: "calibration \<Rightarrow> u16 \<Rightarrow> u8 list \<Rightarrow> u8 list outcome" where
  "calibration_read d did out =
     outcome_bind (slice_to (cal_values d) (length out)) (\<lambda>src. copy_into out 0 (length out) src)"

definition calibration_write :: "calibration \<Rightarrow> u16 \<Rightarrow> u8 list \<Rightarrow> (bool \<times> calibration) outcome" where
  "calibration_write d did data =
     (if length data > length (cal_values d) then Ret (False, d)
      else
        outcome_bind (copy_into (cal_values d) 0 (length data) data) (\<lambda>values.
        Ret (True, d\<lparr>cal_values := values\<rparr>)))"

definition calibration_provider :: "calibration uds_data_provider" where
  "calibration_provider =
     \<lparr>dp_did_read_len = calibration_read_len, dp_did_read = calibration_read,
      dp_did_write = calibration_write\<rparr>"

definition calibration_value :: "calibration \<Rightarrow> u16 \<Rightarrow> u8 list" where
  "calibration_value d did = take (case calibration_read_len d did of Some n \<Rightarrow> n | None \<Rightarrow> 0) (cal_values d)"

interpretation calibration: uds_provider calibration_provider calibration_value "\<lambda>d. length (cal_values d) = 8"
  by unfold_locales
    (auto simp: calibration_provider_def calibration_read_def calibration_write_def calibration_read_len_def
      calibration_value_def outcome_simps split: if_splits)

text \<open>A frame from node \<open>i\<close> to the other one, \<open>None\<close> where the test's \<open>ok()?\<close> gives up.\<close>

definition try_hop :: "sim_can_network \<Rightarrow> nat \<Rightarrow> u32 \<Rightarrow> u8 list \<Rightarrow> (u8 list option \<times> sim_can_network) outcome" where
  "try_hop n i cid data =
     outcome_bind (make_frame cid False data) (\<lambda>f.
     let (r, n) = node_transmit n i f in
     case r of
       Inl _ \<Rightarrow> Ret (None, n)
     | Inr _ \<Rightarrow>
         let (r, n) = node_receive n (1 - i) in
         case r of
           Inl _ \<Rightarrow> Ret (None, n)
         | Inr rx \<Rightarrow> outcome_bind (can_frame_data rx) (\<lambda>data. Ret (Some data, n)))"

definition uds_exchange :: "'d uds_data_provider \<Rightarrow> sim_can_network \<Rightarrow> 'd uds_server \<Rightarrow> u8 list \<Rightarrow>
    (u8 list option \<times> sim_can_network \<times> 'd uds_server) outcome" where
  "uds_exchange D n s request =
     outcome_bind (try_hop n 0 0x7E0 request) (\<lambda>(incoming, n).
     case incoming of
       None \<Rightarrow> Ret (None, n, s)
     | Some data \<Rightarrow>
         outcome_bind (uds_handle D s data (replicate 8 0)) (\<lambda>(k, resp, s).
         case k of
           None \<Rightarrow> Ret (None, n, s)
         | Some k \<Rightarrow>
             outcome_bind (slice_to resp k) (\<lambda>out.
             outcome_bind (try_hop n 1 0x7E8 out) (\<lambda>(answer, n).
             case answer of
               None \<Rightarrow> Ret (None, n, s)
             | Some data \<Rightarrow>
                 outcome_bind (copy_into (replicate 8 0) 0 (length data) data) (\<lambda>out.
                 Ret (Some out, n, s))))))"

lemma try_hop_quiet:
  assumes "quiet_pair n" "i < 2" "can_id_standard cid = Some c" "length data \<le> CAN_MAX_DLC"
  shows "try_hop n i cid data = Ret (Some data, n)"
proof -
  obtain f where f: "can_frame_new c data = Ret (Some f)"
    using assms(4) by (simp add: can_frame_new_small)
  have "1 - i < 2" by simp
  then show ?thesis
    using f quiet_transmit [OF assms(1) can_frame_new_ok [OF f standard_ok [OF assms(3)]] assms(2)]
      quiet_receive(1) [OF assms(1), of "1 - i" f] can_frame_data_new [OF assms(4) f]
    by (simp add: try_hop_def make_frame_def assms(3))
qed

context uds_provider
begin

lemma exchange_answered:
  assumes "provider_ok (us_data s)" "quiet_pair n" "length req \<le> CAN_MAX_DLC"
    and "wire_reply (uds_answer D val s req) = Ret (data, s')"
  shows "uds_exchange D n s req = Ret (Some (data @ replicate (8 - length data) 0), n, s')"
proof -
  obtain a s1 where a: "uds_answer D val s req = (a, s1)" by force
  note h = handle_eq [OF assms(1), of req "replicate 8 0"]
  have "uds_handle D s req (replicate 8 0) = Ret (Some (length data), data @ replicate (8 - length data) 0, s')"
    and len: "length data \<le> 8"
    using assms(4) by (cases a; auto simp: h a CAN_MAX_DLC_def numeral_3_eq_3 split: if_splits)+
  then show ?thesis
    using assms(2,3) try_hop_quiet [OF assms(2) _ diag_ids(1) assms(3), of 0]
      try_hop_quiet [OF assms(2) _ diag_ids(2), of 1 data]
    by (simp add: uds_exchange_def CAN_MAX_DLC_def copy_into_def)
qed

lemma exchange_eq:
  assumes "provider_ok (us_data s)" "quiet_pair n" "length req \<le> CAN_MAX_DLC"
    and "wire_reply (uds_answer D val s req) \<noteq> Panic"
  shows "uds_exchange D n s req = outcome_bind (wire_reply (uds_answer D val s req))
    (\<lambda>(data, s'). Ret (Some (data @ replicate (8 - length data) 0), n, s'))"
  using assms(4) exchange_answered [OF assms(1-3)]
  by (cases "wire_reply (uds_answer D val s req)") auto

end

definition exchange_unwrap :: "sim_can_network \<Rightarrow> calibration uds_server \<Rightarrow> u8 list \<Rightarrow> u8 list \<Rightarrow>
    (u8 list \<times> sim_can_network \<times> calibration uds_server) outcome" where
  "exchange_unwrap n s request want =
     outcome_bind (uds_exchange calibration_provider n s request) (\<lambda>(r, n, s).
     outcome_bind (expect_some r) (\<lambda>r.
     outcome_bind (slice_to r (length want)) (\<lambda>front.
     outcome_bind (assert_that (front = want)) (\<lambda>_. Ret (r, n, s)))))"

definition uds_over_can_round_trips :: "unit outcome" where
  "uds_over_can_round_trips =
     outcome_bind (exchange_unwrap can_pair (uds_server_new \<lparr>cal_values = replicate 8 0\<rparr>)
       [0x3E, 0x00] [0x7E, 0x00]) (\<lambda>(_, n, s).
     outcome_bind (exchange_unwrap n s [0x22, 0x12, 0x34] [0x62, 0x12, 0x34]) (\<lambda>(_, n, s).
     outcome_bind (exchange_unwrap n s [0x22, 0xFF, 0xFF] [0x7F, 0x22, 0x31]) (\<lambda>(_, n, s).
     outcome_bind (exchange_unwrap n s [0x2E, 0x12, 0x34, 0x01, 0x02, 0x03, 0x04] [0x7F, 0x2E, 0x33]) (\<lambda>(_, n, s).
     outcome_bind (exchange_unwrap n s [0x27, 0x01] []) (\<lambda>(_, n, s).
     outcome_bind (exchange_unwrap n s [0x27, 0x02, 0x55] [0x67, 0x02]) (\<lambda>(_, n, s).
     outcome_bind (exchange_unwrap n s [0x2E, 0x12, 0x34, 0x0A, 0x0B, 0x0C, 0x0D] [0x6E, 0x12, 0x34]) (\<lambda>(_, n, s).
     outcome_bind (exchange_unwrap n s [0x22, 0x12, 0x34] []) (\<lambda>(r, n, s).
     outcome_bind (subslice r 3 7) (\<lambda>part. assert_that (part = [0x0A, 0x0B, 0x0C, 0x0D]))))))))))"


lemma calibration_dids:
  "from_be16 0x12 0x34 = 0x1234" "from_be16 0xFF 0xFF = 0xFFFF" "\<not> did_reserved 0x1234"
  by (simp_all add: from_be16_def did_reserved_def word_le_nat_alt)

lemma calibration_fields:
  "dp_did_read_len calibration_provider = calibration_read_len"
  "dp_did_write calibration_provider = calibration_write"
  by (simp_all add: calibration_provider_def)

lemma uds_test_passes: "uds_over_can_round_trips = Ret ()"
  by (simp add: uds_over_can_round_trips_def exchange_unwrap_def calibration.exchange_eq can_pair_quiet
      CAN_MAX_DLC_def uds_server_new_def uds_answer_def uds_service_from_u8_def calibration_dids
      calibration_fields calibration_read_len_def calibration_write_def calibration_value_def
      write_did_answer_def tester_present_answer_def copy_into_def)


section \<open>Sensors in, commands out\<close>

text \<open>\<open>encode_command\<close>, and the data flow of the test over any stack, sample and vehicle state: node 0 is the
  sensor, node 1 the ECU, node 2 the actuator, which reads until it finds the command.\<close>

definition encode_command :: "control_command \<Rightarrow> u8 list" where
  "encode_command cmd = be_bytes16 (steer_deci_deg cmd) @ [throttle_pct cmd, brake_pct cmd, 0]"

fun be32_at :: "u8 list \<Rightarrow> nat \<Rightarrow> u32 outcome" where
  "be32_at data i =
     outcome_bind (index_at data i) (\<lambda>a. outcome_bind (index_at data (i + 1)) (\<lambda>b.
     outcome_bind (index_at data (i + 2)) (\<lambda>c. outcome_bind (index_at data (i + 3)) (\<lambda>d.
     Ret (from_be32 a b c d)))))"

fun drain_until :: "nat \<Rightarrow> sim_can_network \<Rightarrow> nat \<Rightarrow> u32 \<Rightarrow> (can_frame option \<times> sim_can_network) outcome" where
  "drain_until 0 n i cid = Panic"
| "drain_until (Suc fuel) n i cid =
     (case node_receive n i of
        (Inl _, n) \<Rightarrow> Ret (None, n)
      | (Inr f, n) \<Rightarrow>
          if can_id_raw (can_frame_id f) = cid then Ret (Some f, n) else drain_until fuel n i cid)"

definition sense_and_act :: "'a autonomy_stack \<Rightarrow> 'a \<Rightarrow> i32 \<Rightarrow> u32 \<Rightarrow> vehicle_state \<Rightarrow> (can_frame \<times> 'a) outcome" where
  "sense_and_act A s value timestamp vs =
     outcome_bind (make_frame 0x200 False (be_bytes32 value @ be_bytes32 timestamp)) (\<lambda>req.
     outcome_bind (transmit_unwrap (can_nodes 3) 0 req) (\<lambda>n.
     outcome_bind (take_frame n 1) (\<lambda>(incoming, n).
     outcome_bind (can_frame_data incoming) (\<lambda>data.
     outcome_bind (be32_at data 0) (\<lambda>offset.
     outcome_bind (be32_at data 4) (\<lambda>ts.
     outcome_bind (ingest_unwrap A s \<lparr>sample_kind = Camera, sample_timestamp = ts, sample_value = offset\<rparr>) (\<lambda>s.
     outcome_bind (command_unwrap A s vs) (\<lambda>(cmd, s).
     outcome_bind (expect_some cmd) (\<lambda>cmd.
     outcome_bind (make_frame 0x300 False (encode_command cmd)) (\<lambda>f.
     outcome_bind (transmit_unwrap n 1 f) (\<lambda>n.
     outcome_bind (drain_until 3 n 2 0x300) (\<lambda>(out, n).
     outcome_bind (expect_some out) (\<lambda>out. Ret (out, s))))))))))))))"

definition sensors_in_commands_out_over_can :: "target \<Rightarrow> unit outcome" where
  "sensors_in_commands_out_over_can t =
     outcome_bind (sense_and_act (lane_keeping t) (lane_keeping_new 10 1000) 20 123
       \<lparr>speed_cmps = 500, vs_timestamp = 123\<rparr>) (\<lambda>(out, s).
     outcome_bind (assert_that (can_id_raw (can_frame_id out) = 0x300)) (\<lambda>_.
     outcome_bind (can_frame_data out) (\<lambda>data.
     outcome_bind (index_at data 0) (\<lambda>a. outcome_bind (index_at data 1) (\<lambda>b.
     outcome_bind (assert_that (from_be16 a b = 200)) (\<lambda>_.
     outcome_bind (index_at data 2) (\<lambda>throttle. assert_that (throttle > 0))))))))"

definition stack_relinquishes_control_without_data :: "target \<Rightarrow> unit outcome" where
  "stack_relinquishes_control_without_data t =
     outcome_bind (command_unwrap (lane_keeping t) (lane_keeping_new 10 1000)
       \<lparr>speed_cmps = 0, vs_timestamp = 0\<rparr>) (\<lambda>(cmd, s).
     outcome_bind (assert_that (cmd = None)) (\<lambda>_. assert_that (\<not> lk_has_control s)))"

lemma three_nodes: "can_nodes 3 = \<lparr>scn_nodes = [[], [], []], scn_bus_off = False\<rparr>"
  by (simp add: numeral_3_eq_3 sim_can_attach_def sim_can_network_new_def Let_def)

text \<open>The traffic of the test: a frame of the sensor, then one of the ECU.\<close>

lemma three_node_traffic:
  assumes "can_frame_ok f" "can_frame_ok g" "can_id_raw (can_frame_id f) \<noteq> cid" "can_id_raw (can_frame_id g) = cid"
  shows "\<exists>n1 n2 n3 n4. transmit_unwrap (can_nodes 3) 0 f = Ret n1 \<and> take_frame n1 1 = Ret (f, n2) \<and>
    transmit_unwrap n2 1 g = Ret n3 \<and> drain_until 3 n3 2 cid = Ret (Some g, n4)"
proof -
  let ?n = "\<lambda>a b c. \<lparr>scn_nodes = [a, b, c], scn_bus_off = False\<rparr>"
  note v = can_frame_ok_validates [OF assms(1)] can_frame_ok_validates [OF assms(2)]
  have "transmit_unwrap (can_nodes 3) 0 f = Ret (?n [] [f] [f])"
    by (simp add: three_nodes transmit_unwrap_def node_defs v Let_def broadcast_queues_def SIM_RX_QUEUE_LEN_def)
  moreover have "take_frame (?n [] [f] [f]) 1 = Ret (f, ?n [] [] [f])"
    by (simp add: take_frame_def node_defs Let_def)
  moreover have "transmit_unwrap (?n [] [] [f]) 1 g = Ret (?n [g] [] [f, g])"
    by (simp add: transmit_unwrap_def node_defs v Let_def broadcast_queues_def SIM_RX_QUEUE_LEN_def)
  moreover have "node_receive (?n [g] [] [f, g]) 2 = (Inr f, ?n [g] [] [g])"
    "node_receive (?n [g] [] [g]) 2 = (Inr g, ?n [g] [] [])"
    by (simp_all add: node_defs Let_def)
  then have "drain_until 3 (?n [g] [] [f, g]) 2 cid = Ret (Some g, ?n [g] [] [])"
    using assms(3,4) by (simp add: numeral_3_eq_3)
  ultimately show ?thesis by blast
qed

lemma make_frame_standard:
  assumes "can_id_standard i = Some c" "length data \<le> CAN_MAX_DLC"
  obtains f where "make_frame i False data = Ret f" "can_frame_ok f" "can_frame_data f = Ret data" "can_frame_id f = c"
proof -
  obtain f where f: "can_frame_new c data = Ret (Some f)"
    using assms(2) by (simp add: can_frame_new_small)
  show thesis
    using that [of f] f can_frame_new_ok [OF f standard_ok [OF assms(1)]] can_frame_data_new [OF assms(2) f]
    by (simp add: make_frame_def assms(1))
qed


lemma be32_at_bytes:
  "be32_at (be_bytes32 v @ rest) 0 = Ret v" "be32_at (be_bytes32 v @ be_bytes32 w) 4 = Ret w"
  by (simp_all add: be_bytes32_def index_at_def from_be32_of_bytes)

lemma actuator_ids:
  "can_id_standard 0x200 = Some \<lparr>cid_raw = 0x200, cid_extended = False\<rparr>"
  "can_id_standard 0x300 = Some \<lparr>cid_raw = 0x300, cid_extended = False\<rparr>"
  by (simp_all add: can_id_standard_def STANDARD_MAX_def)

lemma sense_and_act_eq:
  assumes "ingest_unwrap A s \<lparr>sample_kind = Camera, sample_timestamp = ts, sample_value = v\<rparr> = Ret s1"
    and "command_unwrap A s1 vs = Ret (Some cmd, s2)"
  obtains f where "sense_and_act A s v ts vs = Ret (f, s2)" "can_id_raw (can_frame_id f) = 0x300"
    "can_frame_data f = Ret (encode_command cmd)"
proof -
  obtain f where f: "make_frame 0x200 False (be_bytes32 v @ be_bytes32 ts) = Ret f" "can_frame_ok f"
    "can_frame_data f = Ret (be_bytes32 v @ be_bytes32 ts)" "can_frame_id f = \<lparr>cid_raw = 0x200, cid_extended = False\<rparr>"
    by (rule make_frame_standard [OF actuator_ids(1), of "be_bytes32 v @ be_bytes32 ts"]) (simp_all add: CAN_MAX_DLC_def)
  obtain g where g: "make_frame 0x300 False (encode_command cmd) = Ret g" "can_frame_ok g"
    "can_frame_data g = Ret (encode_command cmd)" "can_frame_id g = \<lparr>cid_raw = 0x300, cid_extended = False\<rparr>"
    by (rule make_frame_standard [OF actuator_ids(2), of "encode_command cmd"]) (simp_all add: CAN_MAX_DLC_def encode_command_def)
  have "can_id_raw (can_frame_id f) \<noteq> 0x300" "can_id_raw (can_frame_id g) = 0x300"
    by (simp_all add: f(4) g(4) can_id_raw_def)
  from three_node_traffic [OF f(2) g(2) this] obtain n1 n2 n3 n4 where
    "transmit_unwrap (can_nodes 3) 0 f = Ret n1" "take_frame n1 1 = Ret (f, n2)"
    "transmit_unwrap n2 1 g = Ret n3" "drain_until 3 n3 2 0x300 = Ret (Some g, n4)" by blast
  then have "sense_and_act A s v ts vs = Ret (g, s2)"
    by (simp add: sense_and_act_def f(1,3) g(1) assms be32_at_bytes del: be32_at.simps drain_until.simps can_nodes.simps)
  then show thesis using that g(3) \<open>can_id_raw (can_frame_id g) = 0x300\<close> by blast
qed

lemma autonomy_over_can_tests_pass:
  "sensors_in_commands_out_over_can t = Ret ()" "stack_relinquishes_control_without_data t = Ret ()"
proof -
  let ?s = "\<lparr>lk_last_offset_cm = Some 20, lk_last_timestamp = 123, lk_ready = True, lk_gain = 10,
    lk_cruise_cmps = 1000\<rparr>"
  have i: "ingest_unwrap (lane_keeping t) (lane_keeping_new 10 1000)
      \<lparr>sample_kind = Camera, sample_timestamp = 123, sample_value = 20\<rparr> = Ret ?s"
    by (simp add: camera_ingest)
  have c: "command_unwrap (lane_keeping t) ?s \<lparr>speed_cmps = 500, vs_timestamp = 123\<rparr> =
      Ret (Some (control_command_new 200 50 0 123), ?s)"
    using lk_command_small [of ?s 20 500 t 123] unfolding steer_values(1) by simp
  obtain f where f: "sense_and_act (lane_keeping t) (lane_keeping_new 10 1000) 20 123
      \<lparr>speed_cmps = 500, vs_timestamp = 123\<rparr> = Ret (f, ?s)" "can_id_raw (can_frame_id f) = 0x300"
    "can_frame_data f = Ret (encode_command (control_command_new 200 50 0 123))"
    by (rule sense_and_act_eq [OF i c])
  have "encode_command (control_command_new 200 50 0 123) = [0, 200, 50, 0, 0]" "from_be16 0 200 = 200"
    by code_simp+
  then show "sensors_in_commands_out_over_can t = Ret ()"
    by (simp add: sensors_in_commands_out_over_can_def f index_at_def)
  show "stack_relinquishes_control_without_data t = Ret ()"
    by (simp add: stack_relinquishes_control_without_data_def lane_keeping_new_def lk_has_control_def
        command_unwrap_def lane_keeping_def lk_next_command_def)
qed


section \<open>The CAN bus of the Zephyr and AGL crates\<close>

text \<open>The one-frame transceiver of the Zephyr test, and what both crates do over their transceiver: the
  frame received.\<close>

record loopback_transceiver =
  lbt_tx :: can_frame
  lbt_has :: bool

definition loopback_ops :: "loopback_transceiver can_transceiver" where
  "loopback_ops =
     \<lparr>ct_send = \<lambda>s f. (Inr (), s\<lparr>lbt_tx := f, lbt_has := True\<rparr>),
      ct_recv = \<lambda>s. if lbt_has s then (Inr (lbt_tx s), s\<lparr>lbt_has := False\<rparr>) else (Inl RxQueueEmpty, s),
      ct_has_received = lbt_has, ct_can_send = \<lambda>s. True\<rparr>"

definition can_bus_loopback :: "'t can_transceiver \<Rightarrow> 't \<Rightarrow> u32 \<Rightarrow> u8 list \<Rightarrow> can_frame outcome" where
  "can_bus_loopback T s cid data =
     outcome_bind (make_frame cid False data) (\<lambda>frame.
     let (r, b) = can_bus_transmit T (can_bus_new s) frame in
     outcome_bind (expect_ok r) (\<lambda>_.
     outcome_bind (assert_that (can_bus_can_receive T b)) (\<lambda>_.
     let (r, b) = can_bus_receive T b in
     outcome_bind (expect_ok r) (\<lambda>got.
     outcome_bind (can_frame_data got) (\<lambda>got_data.
     outcome_bind (assert_that (got_data = data)) (\<lambda>_. Ret got))))))"

definition zephyr_can_bus_loopback :: "unit outcome" where
  "zephyr_can_bus_loopback =
     outcome_bind (make_frame 0 False []) (\<lambda>empty.
     outcome_bind (can_bus_loopback loopback_ops \<lparr>lbt_tx = empty, lbt_has = False\<rparr> 0x321 [0xAA, 0xBB]) (\<lambda>got.
     assert_that (can_id_raw (can_frame_id got) = 0x321)))"

definition agl_can_socket_loopback :: "bool \<Rightarrow> unit outcome" where
  "agl_can_socket_loopback sc =
     outcome_bind (can_bus_loopback (agl_can_ops sc) (agl_can_new sc ''vcan0'') 0x7DF [0x02, 0x10, 0x01]) (\<lambda>got. Ret ())"

lemma loopback_frames:
  "can_id_standard 0 = Some \<lparr>cid_raw = 0, cid_extended = False\<rparr>"
  "can_id_standard 0x321 = Some \<lparr>cid_raw = 0x321, cid_extended = False\<rparr>"
  "can_id_standard 0x7DF = Some \<lparr>cid_raw = 0x7DF, cid_extended = False\<rparr>"
  by (simp_all add: can_id_standard_def STANDARD_MAX_def)

lemma can_loopback_tests_pass: "zephyr_can_bus_loopback = Ret ()" "agl_can_socket_loopback sc = Ret ()"
proof -
  obtain e where e: "make_frame 0 False [] = Ret e"
    using make_frame_standard [OF loopback_frames(1), of "[]"] by auto
  obtain f where f: "make_frame 0x321 False [0xAA, 0xBB] = Ret f" "can_frame_ok f" "can_frame_data f = Ret [0xAA, 0xBB]"
    "can_frame_id f = \<lparr>cid_raw = 0x321, cid_extended = False\<rparr>"
    by (rule make_frame_standard [OF loopback_frames(2), of "[0xAA, 0xBB]"]) (simp_all add: CAN_MAX_DLC_def)
  show "zephyr_can_bus_loopback = Ret ()"
    by (simp add: zephyr_can_bus_loopback_def can_bus_loopback_def e f can_bus_defs can_bus_new_def loopback_ops_def
        can_frame_ok_validates [OF f(2)] can_id_raw_def)
  obtain g where g: "make_frame 0x7DF False [0x02, 0x10, 0x01] = Ret g" "can_frame_ok g"
    "can_frame_data g = Ret [0x02, 0x10, 0x01]" "can_frame_id g = \<lparr>cid_raw = 0x7DF, cid_extended = False\<rparr>"
    by (rule make_frame_standard [OF loopback_frames(3), of "[0x02, 0x10, 0x01]"]) (simp_all add: CAN_MAX_DLC_def)
  show "agl_can_socket_loopback sc = Ret ()"
    by (simp add: agl_can_socket_loopback_def can_bus_loopback_def g can_bus_defs can_bus_new_def agl_can_defs
        agl_can_new_eq can_frame_ok_validates [OF g(2)] can_id_raw_def)
qed


section \<open>Updates on Zephyr and AGL\<close>

text \<open>The beginning of every test: a payload is packaged and signed for slot 1, and staged.\<close>

definition staged_on :: "'s ota_storage_ops \<Rightarrow> 's \<Rightarrow> nat \<Rightarrow> u32 \<Rightarrow> u8 list \<Rightarrow> ('s, demo_signer) ota_engine outcome" where
  "staged_on S s n key payload =
     (let signer = demo_signer_new key; engine = ota_engine_new s signer in
      outcome_bind (make_package n signer 1 payload) (\<lambda>(sig, pkg).
      outcome_bind (ota_stage S (demo_scheme n) engine pkg payload sig) (\<lambda>(r, engine).
      outcome_bind (expect_ok r) (\<lambda>_. Ret engine))))"

text \<open>Staging, promotion and commit: the slots promoted and committed.\<close>

definition stage_promote_commit_on :: "target \<Rightarrow> 's ota_storage_ops \<Rightarrow> 's \<Rightarrow> nat \<Rightarrow> u32 \<Rightarrow> u8 list \<Rightarrow> (u8 \<times> u8) outcome" where
  "stage_promote_commit_on t S s n key payload =
     outcome_bind (staged_on S s n key payload) (\<lambda>engine.
     outcome_bind (expect_ok (ota_state S engine)) (\<lambda>st.
     outcome_bind (assert_that (st = Pending 1)) (\<lambda>_.
     outcome_bind (ota_promote t S engine) (\<lambda>(r, engine).
     outcome_bind (expect_ok r) (\<lambda>promoted.
     outcome_bind (ota_commit S engine) (\<lambda>(r, engine).
     outcome_bind (expect_ok r) (\<lambda>committed.
     outcome_bind (expect_ok (ota_state S engine)) (\<lambda>st.
     outcome_bind (assert_that (st = ActiveSlot1)) (\<lambda>_. Ret (promoted, committed))))))))))"

definition zephyr_ota_stage_promote_commit :: "target \<Rightarrow> nat \<Rightarrow> unit outcome" where
  "zephyr_ota_stage_promote_commit t n =
     outcome_bind (stage_promote_commit_on t (zephyr_ram_ops t) zephyr_ram_new n 0xBEEF (replicate 32 0x5A)) (\<lambda>(p, c).
     outcome_bind (assert_that (p = 1)) (\<lambda>_. assert_that (c = 1)))"

definition agl_ota_stage_promote_commit_file_backed :: "target \<Rightarrow> string \<Rightarrow> nat \<Rightarrow> unit outcome" where
  "agl_ota_stage_promote_commit_file_backed t root n =
     outcome_bind (stage_promote_commit_on t (agl_ops calm_files t) (agl_storage_with_root Map.empty root 4096) n 0x1234
       (replicate 48 0xCD)) (\<lambda>(p, c). assert_that (c = 1))"

definition zephyr_ota_power_loss_rolls_back :: "target \<Rightarrow> nat \<Rightarrow> unit outcome" where
  "zephyr_ota_power_loss_rolls_back t n =
     (let S = zephyr_ram_ops t in
      outcome_bind (staged_on S zephyr_ram_new n 0xBEEF (replicate 16 0x12)) (\<lambda>engine.
      outcome_bind (ota_promote t S engine) (\<lambda>(r, engine).
      outcome_bind (expect_ok r) (\<lambda>_.
      outcome_bind (ota_recover t S (ota_engine_new (oe_storage engine) (demo_signer_new 0xBEEF))) (\<lambda>(r, engine2).
      outcome_bind (expect_ok r) (\<lambda>active.
      outcome_bind (assert_that (active = 0)) (\<lambda>_.
      outcome_bind (expect_ok (ota_state S engine2)) (\<lambda>st. assert_that (st = ActiveSlot0)))))))))"

definition agl_ota_recover_promotes_pending :: "target \<Rightarrow> string \<Rightarrow> nat \<Rightarrow> unit outcome" where
  "agl_ota_recover_promotes_pending t root n =
     (let S = agl_ops calm_files t in
      outcome_bind (staged_on S (agl_storage_with_root Map.empty root 4096) n 0x1234 (replicate 24 0x77)) (\<lambda>engine.
      outcome_bind (ota_recover t S (ota_engine_new (oe_storage engine) (demo_signer_new 0x1234))) (\<lambda>(r, engine2).
      outcome_bind (expect_ok r) (\<lambda>active.
      outcome_bind (assert_that (active = 1)) (\<lambda>_.
      outcome_bind (expect_ok (ota_state S engine2)) (\<lambda>st.
      assert_that (case st of Testing a _ \<Rightarrow> a = 1 | _ \<Rightarrow> False)))))))"

context reliable_storage
begin

lemma staged_on_runs:
  assumes "sv_ok W s" "length payload \<le> OTA_MAX_PAYLOAD" "length payload \<le> os_slot_capacity S s"
  obtains s1 where "staged_on S s n key payload = Ret \<lparr>oe_storage = s1, oe_signer = demo_signer_new key\<rparr>"
    "sv_ok W s1" "sv_journal W s1 = Pending 1"
proof -
  let ?p = "\<lparr>up_slot = 1, up_payload_len = of_nat (length payload)\<rparr>"
  let ?sig = "demo_hash n (demo_signer_new key) (package_message ?p payload)"
  have "stage_verified S (demo_scheme n) \<lparr>oe_storage = s, oe_signer = demo_signer_new key\<rparr> ?p payload ?sig"
    using assms(2,3) by (simp add: stage_verified_def demo_scheme_def demo_verify_def OTA_MAX_PAYLOAD_def)
  then obtain s1 where "ota_stage S (demo_scheme n) \<lparr>oe_storage = s, oe_signer = demo_signer_new key\<rparr> ?p payload ?sig =
      Ret (Inr (), \<lparr>oe_storage = s1, oe_signer = demo_signer_new key\<rparr>)"
    "sv_ok W s1" "sv_journal W s1 = Pending (up_slot ?p)"
    by (rule staged [OF _ assms(1)]) simp_all
  then show thesis
    using that [of s1] by (simp add: staged_on_def make_package_eq [OF assms(2)] ota_engine_new_def Let_def)
qed

lemma stage_promote_commit_on_passes:
  assumes "sv_ok W s" "length payload \<le> OTA_MAX_PAYLOAD" "length payload \<le> os_slot_capacity S s"
  shows "stage_promote_commit_on t S s n key payload = Ret (1, 1)"
proof -
  let ?e = "\<lambda>s. \<lparr>oe_storage = s, oe_signer = demo_signer_new key\<rparr>"
  obtain s1 where 1: "staged_on S s n key payload = Ret (?e s1)" "sv_ok W s1" "sv_journal W s1 = Pending 1"
    by (rule staged_on_runs [OF assms])
  obtain s2 where 2: "ota_promote t S (?e s1) = Ret (Inr 1, ?e s2)" "sv_ok W s2" "sv_journal W s2 = Testing 1 (1 - 1)"
    by (rule promoted [OF 1(2,3)])
  obtain s3 where 3: "ota_commit S (?e s2) = Ret (Inr 1, ?e s3)" "sv_ok W s3" "sv_journal W s3 = ActiveSlot1"
    by (rule ended [OF 2(2,3), where v = "demo_signer_new key"]) simp
  show ?thesis
    by (simp add: stage_promote_commit_on_def 1 2 3 state_read)
qed

end

text \<open>What the two restart tests see: a new engine over the staged storage, before and after the promotion.\<close>

context reliable_storage
begin

lemma restart_runs:
  assumes "sv_ok W s" "length payload \<le> OTA_MAX_PAYLOAD" "length payload \<le> os_slot_capacity S s"
  obtains s1 s2 s3 s4 where
    "staged_on S s n key payload = Ret (ota_engine_new s1 (demo_signer_new key))"
    "ota_promote t S (ota_engine_new s1 (demo_signer_new key)) = Ret (Inr 1, ota_engine_new s2 (demo_signer_new key))"
    "ota_recover t S (ota_engine_new s2 (demo_signer_new key)) = Ret (Inr 0, ota_engine_new s3 (demo_signer_new key))"
    "ota_state S (ota_engine_new s3 (demo_signer_new key)) = Inr ActiveSlot0"
    "ota_recover t S (ota_engine_new s1 (demo_signer_new key)) = Ret (Inr 1, ota_engine_new s4 (demo_signer_new key))"
    "ota_state S (ota_engine_new s4 (demo_signer_new key)) = Inr (Testing 1 0)"
proof -
  let ?e = "\<lambda>s. \<lparr>oe_storage = s, oe_signer = demo_signer_new key\<rparr>"
  obtain s1 where 1: "staged_on S s n key payload = Ret (?e s1)" "sv_ok W s1" "sv_journal W s1 = Pending 1"
    by (rule staged_on_runs [OF assms])
  obtain s2 where 2: "ota_promote t S (?e s1) = Ret (Inr 1, ?e s2)" "sv_ok W s2" "sv_journal W s2 = Testing 1 (1 - 1)"
    by (rule promoted [OF 1(2,3)])
  obtain s3 where 3: "ota_recover t S (?e s2) = Ret (Inr (running_slot (resolved_state (sv_journal W s2))), ?e s3)"
    "sv_ok W s3" "sv_journal W s3 = resolved_state (sv_journal W s2)"
    by (rule recovered [OF 2(2)])
  obtain s4 where 4: "ota_recover t S (?e s1) = Ret (Inr (running_slot (resolved_state (sv_journal W s1))), ?e s4)"
    "sv_ok W s4" "sv_journal W s4 = resolved_state (sv_journal W s1)"
    by (rule recovered [OF 1(2)])
  show thesis
    using that [of s1 s2 s3 s4] 1 2 3 4 state_read [OF 3(2), of "demo_signer_new key"] state_read [OF 4(2), of "demo_signer_new key"]
    by (simp add: ota_engine_new_def)
qed

end

lemma zephyr_ready: "sv_ok zephyr_ram_view zephyr_ram_new"
  by (simp add: zephyr_ram_view_def zephyr_ram_new_def ram_slot_new_def slots_ok_def)

lemma agl_ready: "(4096 :: nat) < 2 ^ usize_bits t \<Longrightarrow> sv_ok (agl_full_view t 4096) (agl_storage_with_root Map.empty root 4096)"
  by (simp add: agl_full_view_def agl_ok_def agl_image_def agl_storage_with_root_def)

lemma platform_updates_pass:
  assumes "32 \<le> usize_bits t"
  shows "zephyr_ota_stage_promote_commit t n = Ret ()" "agl_ota_stage_promote_commit_file_backed t root n = Ret ()"
    "zephyr_ota_power_loss_rolls_back t n = Ret ()" "agl_ota_recover_promotes_pending t root n = Ret ()"
proof -
  have cap: "4096 < (2::nat) ^ usize_bits t"
    using power_increasing [OF assms, of "2::nat"] by simp
  note Z = zephyr_ram_reliable [OF assms] and A = agl_reliable [of t 4096]
  have len: "length (replicate k b) \<le> OTA_MAX_PAYLOAD" if "k \<le> 48" for k and b :: u8
    using that by (simp add: OTA_MAX_PAYLOAD_def)
  have zl: "length (replicate k b) \<le> os_slot_capacity (zephyr_ram_ops t) zephyr_ram_new" if "k \<le> 48" for k and b :: u8
    using that by (simp add: zephyr_ram_ops_def RAM_SLOT_CAP_def)
  have al: "length (replicate k b) \<le> os_slot_capacity (agl_ops calm_files t) (agl_storage_with_root Map.empty root 4096)"
    if "k \<le> 48" for k and b :: u8
    using that by (simp add: agl_ops_def agl_storage_with_root_def)
  show "zephyr_ota_stage_promote_commit t n = Ret ()"
    by (simp add: zephyr_ota_stage_promote_commit_def
        reliable_storage.stage_promote_commit_on_passes [OF Z zephyr_ready len zl])
  show "agl_ota_stage_promote_commit_file_backed t root n = Ret ()"
    by (simp add: agl_ota_stage_promote_commit_file_backed_def
        reliable_storage.stage_promote_commit_on_passes [OF A agl_ready [OF cap] len al])
  show "zephyr_ota_power_loss_rolls_back t n = Ret ()"
    by (rule reliable_storage.restart_runs [OF Z zephyr_ready,
          where n = n and key = "0xBEEF" and payload = "replicate 16 0x12" and t = t, OF len zl])
      (simp_all add: zephyr_ota_power_loss_rolls_back_def Let_def, simp add: ota_engine_new_def)
  show "agl_ota_recover_promotes_pending t root n = Ret ()"
    by (rule reliable_storage.restart_runs [OF A agl_ready [OF cap],
          where n = n and key = "0x1234" and payload = "replicate 24 0x77" and t = t, OF len al])
      (simp_all add: agl_ota_recover_promotes_pending_def Let_def, simp add: ota_engine_new_def)
qed

lemma integration_tests_pass:
  assumes "32 \<le> usize_bits t"
  shows "all_of [all_three_buses_share_one_api, unified_loopback_free_property_holds_on_all_buses,
     uds_over_can_round_trips, sensors_in_commands_out_over_can t, stack_relinquishes_control_without_data t,
     zephyr_can_bus_loopback, zephyr_ota_stage_promote_commit t n, zephyr_ota_power_loss_rolls_back t n,
     agl_can_socket_loopback sc, agl_ota_stage_promote_commit_file_backed t root n,
     agl_ota_recover_promotes_pending t root n] = Ret ()"
  by (simp add: bus_tests_pass uds_test_passes autonomy_over_can_tests_pass can_loopback_tests_pass
      platform_updates_pass [OF assms])

end
